theory Spec2Isabelle
  imports Main "HOL-Library.Word" "HOL-Library.AList"
begin

section \<open>The host analyser's data, as the checker sees it\<close>

text \<open>
  \<open>GCChecker.cpp\<close> is a checker plugged into the Clang static analyser. The analyser's
  own classes (types, declarations, expressions, symbolic values, memory regions) are
  not part of the checker; they are represented here by the data the checker reads from
  them, one constructor or field per query the source makes.
\<close>

subsection \<open>\<open>llvm::StringRef\<close> queries\<close>

definition starts_with :: "string \<Rightarrow> string \<Rightarrow> bool" where
  "starts_with s p = (take (length p) s = p)"

definition ends_with :: "string \<Rightarrow> string \<Rightarrow> bool" where
  "ends_with s p = (length p \<le> length s \<and> drop (length s - length p) s = p)"

definition toLower :: "char \<Rightarrow> char" where
  "toLower c = (let n = (of_char c :: nat) in if 65 \<le> n \<and> n \<le> 90 then char_of (n + 32) else c)"

definition ends_with_insensitive :: "string \<Rightarrow> string \<Rightarrow> bool" where
  "ends_with_insensitive s p = ends_with (map toLower s) (map toLower p)"

subsection \<open>Types\<close>

text \<open>
  A \<open>QualType\<close>, as far as \<open>isJuliaType\<close> looks at it: pointers and arrays, a typedef
  with its name and the type it stands for, a tag type (struct, union, enum) with the
  name of its declaration, and everything else.
\<close>

datatype QualType =
    BuiltinType
  | PointerType QualType
  | ArrayType QualType
  | TypedefType string QualType
  | TagType string

text \<open>\<open>getUnqualifiedDesugaredType\<close>: typedefs are looked through.\<close>

fun desugar :: "QualType \<Rightarrow> QualType" where
  "desugar (TypedefType n t) = desugar t"
| "desugar t = t"

text \<open>
  \<open>isPointerType\<close> and \<open>isArrayType\<close> look at the canonical type, so a typedef of a
  pointer is a pointer; \<open>getAs<TypedefType>\<close> finds the typedef the type is written
  with.
\<close>

function isJuliaType :: "(string \<Rightarrow> bool) \<Rightarrow> QualType \<Rightarrow> bool" where
  "isJuliaType f QT =
     (case desugar QT of
        PointerType p \<Rightarrow> isJuliaType f p
      | ArrayType e \<Rightarrow> isJuliaType f e
      | d \<Rightarrow>
          (if (case QT of TypedefType n _ \<Rightarrow> f n | _ \<Rightarrow> False) then True
           else (case d of TagType n \<Rightarrow> f n | _ \<Rightarrow> False)))"
  by pat_completeness auto
termination
proof (relation "measure (\<lambda>(f, t). size t)")
  show "wf (measure (\<lambda>(f :: string \<Rightarrow> bool, t :: QualType). size t))" by simp
next
  fix f :: "string \<Rightarrow> bool" and QT p :: QualType
  assume d: "desugar QT = PointerType p"
  have "size (desugar t) \<le> size t" for t by (induction t) auto
  from this [of QT] d show "((f, p), (f, QT)) \<in> measure (\<lambda>(f, t). size t)" by simp
next
  fix f :: "string \<Rightarrow> bool" and QT e :: QualType
  assume d: "desugar QT = ArrayType e"
  have "size (desugar t) \<le> size t" for t by (induction t) auto
  from this [of QT] d show "((f, e), (f, QT)) \<in> measure (\<lambda>(f, t). size t)" by simp
qed

declare isJuliaType.simps [simp del]

definition trackedTypeNames :: "string list" where
  "trackedTypeNames =
    [''jl_value_t'', ''jl_svec_t'', ''jl_sym_t'', ''jl_expr_t'', ''jl_code_info_t'',
     ''jl_array_t'', ''jl_genericmemory_t'', ''jl_method_t'', ''jl_method_instance_t'',
     ''jl_debuginfo_t'', ''jl_tupletype_t'', ''jl_datatype_t'', ''jl_typemap_entry_t'',
     ''jl_typemap_level_t'', ''jl_typename_t'', ''jl_module_t'', ''jl_tupletype_t'',
     ''jl_gc_tracked_buffer_t'', ''jl_binding_t'', ''jl_binding_partition_t'',
     ''jl_ordereddict_t'', ''jl_tvar_t'', ''jl_typemap_t'', ''jl_unionall_t'',
     ''jl_methtable_t'', ''jl_methcache_t'', ''jl_cgval_t'', ''jl_codectx_t'',
     ''jl_ast_context_t'', ''jl_code_instance_t'', ''jl_excstack_t'', ''jl_task_t'',
     ''jl_uniontype_t'', ''jl_method_match_t'', ''jl_vararg_t'', ''jl_opaque_closure_t'',
     ''jl_globalref_t'', ''jl_abi_override_t'', ''jl_ircode_state'',
     ''typemap_intersection_env'', ''interpreter_state'', ''jl_typeenv_t'', ''jl_stenv_t'',
     ''jl_varbinding_t'', ''set_world'', ''jl_codectx_t'']"

definition isGCTrackedType :: "QualType \<Rightarrow> bool" where
  "isGCTrackedType QT =
     isJuliaType (\<lambda>Name. list_ex (ends_with_insensitive Name) trackedTypeNames) QT"

definition isGloballyRootedType :: "QualType \<Rightarrow> bool" where
  "isGloballyRootedType QT = isJuliaType (\<lambda>Name. ends_with Name ''jl_sym_t'') QT"

subsection \<open>Declarations\<close>

text \<open>
  A \<open>VarDecl\<close> (a \<open>ParmVarDecl\<close> when \<open>vdIsParm\<close>): its name, type, the strings of its
  \<open>annotate\<close> attributes, and \<open>hasGlobalStorage\<close>.
\<close>

record VarDecl =
  vdName :: string
  vdType :: QualType
  vdAnnotations :: "string list"
  vdHasGlobalStorage :: bool
  vdIsParm :: bool

text \<open>
  A \<open>FunctionDecl\<close>: \<open>fdName\<close> is \<open>None\<close> when \<open>getDeclName().isIdentifier()\<close> is false;
  \<open>fdFileName\<close> is \<open>llvm::sys::path::filename(SM.getFilename(FD->getLocation()))\<close>.
\<close>

record FunctionDecl =
  fdName :: "string option"
  fdAnnotations :: "string list"
  fdParams :: "VarDecl list"
  fdBuiltinID :: nat
  fdIsTrivial :: bool
  fdIsNoReturn :: bool
  fdFileName :: string

text \<open>
  A \<open>Decl\<close> as a call resolves to it: the chain of its enclosing declaration contexts from
  the innermost outwards (\<open>Some n\<close> for a namespace named \<open>n\<close>, \<open>None\<close> for any other
  context), whether its location is in a system header, and \<open>getAsFunction()\<close>.
\<close>

record Decl =
  declContexts :: "string option list"
  declInSystemHeader :: bool
  getAsFunction :: "FunctionDecl option"

text \<open>\<open>declHasAnnotation\<close>, on the annotation strings of a declaration.\<close>

definition declHasAnnotation :: "string list \<Rightarrow> string \<Rightarrow> bool" where
  "declHasAnnotation anns which = (which \<in> set anns)"

definition isFDAnnotatedNotSafepoint :: "FunctionDecl \<Rightarrow> bool" where
  "isFDAnnotatedNotSafepoint fd =
     (if declHasAnnotation (fdAnnotations fd) ''julia_not_safepoint'' then True
      else if starts_with (fdFileName fd) ''llvm-'' then True
      else False)"

definition isMutexLock :: "string \<Rightarrow> bool" where
  "isMutexLock name =
     (name \<in> set [''uv_mutex_lock'', ''uv_mutex_trylock'', ''pthread_mutex_lock'',
        ''pthread_mutex_trylock'', ''__gthread_mutex_lock'', ''__gthread_mutex_trylock'',
        ''__gthread_recursive_mutex_lock'', ''__gthread_recursive_mutex_trylock'',
        ''pthread_spin_lock'', ''pthread_spin_trylock'', ''uv_rwlock_rdlock'',
        ''uv_rwlock_tryrdlock'', ''uv_rwlock_wrlock'', ''uv_rwlock_trywrlock''])"

definition isMutexUnlock :: "string \<Rightarrow> bool" where
  "isMutexUnlock name =
     (name \<in> set [''uv_mutex_unlock'', ''pthread_mutex_unlock'', ''__gthread_mutex_unlock'',
        ''__gthread_recursive_mutex_unlock'', ''pthread_spin_unlock'', ''uv_rwlock_rdunlock'',
        ''uv_rwlock_wrunlock''])"

subsection \<open>Expressions\<close>

text \<open>
  An expression carries the identity of its statement (the key of the analyser's
  environment) and its type; a cast also carries the expression it casts.
\<close>

datatype Expr =
    CastExpr nat QualType Expr
  | OtherExpr nat QualType

fun exprId :: "Expr \<Rightarrow> nat" where
  "exprId (CastExpr i t e) = i"
| "exprId (OtherExpr i t) = i"

fun getType :: "Expr \<Rightarrow> QualType" where
  "getType (CastExpr i t e) = t"
| "getType (OtherExpr i t) = t"

fun isGCTracked :: "Expr \<Rightarrow> bool" where
  "isGCTracked (CastExpr i t e) = (if isGCTrackedType t then True else isGCTracked e)"
| "isGCTracked (OtherExpr i t) = isGCTrackedType t"

text \<open>
  The callee expression of a call, as \<open>isSafepoint\<close> inspects it: whether its type is an
  \<open>ElaboratedType\<close> naming a typedef (with the annotations of the typedef's declaration),
  an \<open>ElaboratedType\<close> naming something else, or another type; and whether the expression
  is a \<open>CXXPseudoDestructorExpr\<close>.
\<close>

datatype CalleeType = ElaboratedTypedef "string list" | ElaboratedOther | OtherCalleeType

record Callee =
  calleeType :: CalleeType
  calleeIsPseudoDestructor :: bool

record CallExpr =
  ceId :: nat
  ceType :: QualType
  getCallee :: Callee
  getCalleeDecl :: "Decl option"
  ceArgs :: "Expr list"
  ceItemsField :: "QualType option"

text \<open>
  \<open>C.getCalleeName(CE)\<close>: the identifier of the direct callee, empty when there is no
  direct callee or it has no identifier.
\<close>

definition getCalleeName :: "CallExpr \<Rightarrow> string" where
  "getCalleeName CE =
     (case getCalleeDecl CE of
        None \<Rightarrow> []
      | Some D \<Rightarrow> (case getAsFunction D of
                     None \<Rightarrow> []
                   | Some fd \<Rightarrow> (case fdName fd of None \<Rightarrow> [] | Some n \<Rightarrow> n)))"

subsection \<open>Symbols, regions and values\<close>

datatype MemRegion =
    VarRegion VarDecl
  | SymbolicRegion SymExpr
  | ElementRegion MemRegion "int option"
  | FieldRegion MemRegion string
and SymExpr =
    SymbolRegionValue MemRegion
  | SymbolDerived SymExpr MemRegion
  | SymbolConjured nat nat
  | SymbolOther nat

text \<open>
  \<open>ElementRegion R i\<close> has super-region \<open>R\<close> and index \<open>i\<close> (\<open>None\<close> when the index is not
  a concrete integer); \<open>SymbolConjured e n\<close> is the symbol conjured for statement \<open>e\<close> at
  block count \<open>n\<close>. A \<open>SymbolRef\<close> or a \<open>const MemRegion *\<close> that may be null is an
  \<open>option\<close>.
\<close>

datatype SVal =
    UnknownVal
  | UndefinedVal
  | ConcreteInt int
  | SymbolVal SymExpr
  | LazyCompoundVal MemRegion
  | MemRegionVal MemRegion
  | LocConcreteInt int

fun StripCasts :: "MemRegion \<Rightarrow> MemRegion" where
  "StripCasts (ElementRegion R i) = (if i = Some 0 then StripCasts R else ElementRegion R i)"
| "StripCasts R = R"

fun getBaseRegion :: "MemRegion \<Rightarrow> MemRegion" where
  "getBaseRegion (ElementRegion R i) = getBaseRegion R"
| "getBaseRegion (FieldRegion R f) = getBaseRegion R"
| "getBaseRegion R = R"

text \<open>\<open>getSymbolicBase\<close>, returning the symbol of the symbolic region it finds.\<close>

fun getSymbolicBase :: "MemRegion \<Rightarrow> SymExpr option" where
  "getSymbolicBase (SymbolicRegion s) = Some s"
| "getSymbolicBase (ElementRegion R i) = getSymbolicBase R"
| "getSymbolicBase (FieldRegion R f) = getSymbolicBase R"
| "getSymbolicBase (VarRegion v) = None"

fun getOriginRegion :: "SymExpr \<Rightarrow> MemRegion option" where
  "getOriginRegion (SymbolRegionValue R) = Some R"
| "getOriginRegion (SymbolDerived s R) = Some R"
| "getOriginRegion s = None"

fun getAsRegion :: "SVal \<Rightarrow> MemRegion option" where
  "getAsRegion (MemRegionVal R) = Some R"
| "getAsRegion v = None"

text \<open>\<open>SVal::getAsSymbol(IncludeBaseRegions)\<close>.\<close>

fun getAsSymbol :: "SVal \<Rightarrow> bool \<Rightarrow> SymExpr option" where
  "getAsSymbol (SymbolVal s) b = Some s"
| "getAsSymbol (MemRegionVal R) b =
     (case (if b then getBaseRegion R else StripCasts R) of
        SymbolicRegion s \<Rightarrow> Some s
      | _ \<Rightarrow> None)"
| "getAsSymbol v b = None"

fun isLoc :: "SVal \<Rightarrow> bool" where
  "isLoc (MemRegionVal R) = True"
| "isLoc (LocConcreteInt n) = True"
| "isLoc v = False"

subsection \<open>The checker's state\<close>

datatype State = Allocated | Rooted | PotentiallyFreed | Untracked

record ValueState =
  S :: State
  Root :: "MemRegion option"
  RootDepth :: int
  FD :: "FunctionDecl option"
  PVD :: "VarDecl option"

definition mkValueState :: "State \<Rightarrow> MemRegion option \<Rightarrow> int \<Rightarrow> ValueState" where
  "mkValueState InS R Depth = \<lparr>S = InS, Root = R, RootDepth = Depth, FD = None, PVD = None\<rparr>"

definition isRooted :: "ValueState \<Rightarrow> bool" where
  "isRooted v = (S v = Rooted)"

definition isPotentiallyFreed :: "ValueState \<Rightarrow> bool" where
  "isPotentiallyFreed v = (S v = PotentiallyFreed)"

definition isJustAllocated :: "ValueState \<Rightarrow> bool" where
  "isJustAllocated v = (S v = Allocated)"

definition isUntracked :: "ValueState \<Rightarrow> bool" where
  "isUntracked v = (S v = Untracked)"

text \<open>
  \<open>isRootedBy(R)\<close> asserts that \<open>R\<close> is not null, so \<open>R\<close> is a region here; the caller
  that can have a null pointer in hand, the second loop of \<open>JL_GC_POP\<close>, fails on it.
\<close>

definition isRootedBy :: "ValueState \<Rightarrow> MemRegion \<Rightarrow> bool" where
  "isRootedBy v R = (isRooted v \<and> Some R = Root v)"

text \<open>
  \<open>operator==\<close> of \<open>ValueState\<close> (and its \<open>Profile\<close>): the state, the root and the
  depth; the declarations \<open>FD\<close> and \<open>PVD\<close> are not compared.
\<close>

definition sameValueState :: "ValueState \<Rightarrow> ValueState \<Rightarrow> bool" where
  "sameValueState a b = (S a = S b \<and> Root a = Root b \<and> RootDepth a = RootDepth b)"

definition getAllocated :: ValueState where
  "getAllocated = mkValueState Allocated None (- 1)"

definition getFreed :: ValueState where
  "getFreed = mkValueState PotentiallyFreed None (- 1)"

definition getUntracked :: ValueState where
  "getUntracked = mkValueState Untracked None (- 1)"

definition getRooted :: "MemRegion option \<Rightarrow> int \<Rightarrow> ValueState" where
  "getRooted R Depth = mkValueState Rooted R Depth"

definition getForArgument :: "FunctionDecl \<Rightarrow> VarDecl \<Rightarrow> bool \<Rightarrow> ValueState" where
  "getForArgument fd pvd isFunctionSafepoint =
     (let maybeUnrooted = declHasAnnotation (vdAnnotations pvd) ''julia_maybe_unrooted''
      in if \<not> isFunctionSafepoint \<or> maybeUnrooted
         then getAllocated\<lparr>PVD := Some pvd, FD := Some fd\<rparr>
         else getRooted None (- 1))"

datatype Kind = RootSlot | RootArray

record RootState =
  K :: Kind
  RootedAtDepth :: int

definition getRoot :: "int \<Rightarrow> RootState" where
  "getRoot Depth = \<lparr>K = RootSlot, RootedAtDepth = Depth\<rparr>"

definition getRootArray :: "int \<Rightarrow> RootState" where
  "getRootArray Depth = \<lparr>K = RootArray, RootedAtDepth = Depth\<rparr>"

definition shouldPopAtDepth :: "RootState \<Rightarrow> int \<Rightarrow> bool" where
  "shouldPopAtDepth r Depth = (Depth = RootedAtDepth r)"

definition isRootArray :: "RootState \<Rightarrow> bool" where
  "isRootArray r = (K r = RootArray)"

text \<open>
  The program state: the three \<open>unsigned\<close> traits, the two maps (immutable maps in the
  source, association lists here: \<open>get\<close> is \<open>map_of\<close>, \<open>set\<close> is \<open>AList.update\<close>
  unless the map has equal data under the key already, \<open>remove\<close> is \<open>AList.delete\<close>, and
  a loop over a map is a fold over its entries), and
  the analyser's store and environment, which the checker reads and binds.
  An \<open>unsigned\<close> stored into an \<open>int\<close> field is read as two's complement (\<open>sint\<close>).
  A key of the root map is a region pointer, which can be null (\<open>None\<close>):
  \<open>checkBeginFunction\<close> registers the region of a value that may have none.
\<close>

record ProgramState =
  GCDepth :: "32 word"
  GCDisabledAt :: "32 word"
  SafepointDisabledAt :: "32 word"
  GCValueMap :: "(SymExpr \<times> ValueState) list"
  GCRootMap :: "(MemRegion option \<times> RootState) list"
  Store :: "MemRegion \<Rightarrow> SVal"
  Env :: "nat \<Rightarrow> SVal"

text \<open>\<open>State->getSVal(Loc)\<close>: the store's binding of a region, unknown for any other location.\<close>

fun getSValLoc :: "ProgramState \<Rightarrow> SVal \<Rightarrow> SVal" where
  "getSValLoc st (MemRegionVal R) = Store st R"
| "getSValLoc st v = UnknownVal"

definition BindExpr :: "ProgramState \<Rightarrow> nat \<Rightarrow> SVal \<Rightarrow> ProgramState" where
  "BindExpr st e v = st\<lparr>Env := (Env st)(e := v)\<rparr>"

text \<open>
  \<open>State->set<GCValueMap>(k, v)\<close>: the immutable map keeps the entry it has when the
  new data is equal to it, which for a \<open>ValueState\<close> is \<open>operator==\<close>; so an entry that
  differs from \<open>v\<close> in \<open>FD\<close> and \<open>PVD\<close> only stays as it is. (For a \<open>RootState\<close>
  \<open>operator==\<close> compares every field, and keeping the entry is replacing it.)
\<close>

definition setValue :: "SymExpr \<Rightarrow> ValueState \<Rightarrow> ProgramState \<Rightarrow> ProgramState" where
  "setValue k v st =
     (case map_of (GCValueMap st) k of
        Some old \<Rightarrow>
          (if sameValueState old v then st
           else st\<lparr>GCValueMap := AList.update k v (GCValueMap st)\<rparr>)
      | None \<Rightarrow> st\<lparr>GCValueMap := AList.update k v (GCValueMap st)\<rparr>)"

definition setRoot :: "MemRegion option \<Rightarrow> RootState \<Rightarrow> ProgramState \<Rightarrow> ProgramState" where
  "setRoot k v st = st\<lparr>GCRootMap := AList.update k v (GCRootMap st)\<rparr>"

definition removeRoot :: "MemRegion option \<Rightarrow> ProgramState \<Rightarrow> ProgramState" where
  "removeRoot k st = st\<lparr>GCRootMap := AList.delete k (GCRootMap st)\<rparr>"

definition getValue :: "ProgramState \<Rightarrow> SymExpr \<Rightarrow> ValueState option" where
  "getValue st k = map_of (GCValueMap st) k"

text \<open>
  \<open>State->get<GCRootMap>(R)\<close>, for a region pointer that may be null (\<open>getRootEntry\<close>) and
  for a region (\<open>getRootState\<close>).
\<close>

definition getRootEntry :: "ProgramState \<Rightarrow> MemRegion option \<Rightarrow> RootState option" where
  "getRootEntry st k = map_of (GCRootMap st) k"

definition getRootState :: "ProgramState \<Rightarrow> MemRegion \<Rightarrow> RootState option" where
  "getRootState st k = getRootEntry st (Some k)"

subsection \<open>Location contexts, the checker context and call events\<close>

datatype LocationContext = LocationContext "LocationContext option"

fun getParent :: "LocationContext \<Rightarrow> LocationContext option" where
  "getParent (LocationContext p) = p"

text \<open>\<open>getStackFrameHeight\<close> counts the frames of the stack in an \<open>unsigned\<close>.\<close>

fun getStackFrameHeight :: "LocationContext option \<Rightarrow> 32 word" where
  "getStackFrameHeight None = 0"
| "getStackFrameHeight (Some (LocationContext p)) = getStackFrameHeight p + 1"

text \<open>
  What a callback does to the analysis: the states it adds as transitions and the bug
  reports it emits, each in the order of the calls. A report is its message, the symbol
  it is about (for \<open>report_value_error\<close>) and its notes.
\<close>

datatype BugReport = BugReport string "SymExpr option" "string list"

record Effects =
  transitions :: "ProgramState list"
  reported :: "BugReport list"

definition noEffects :: Effects where
  "noEffects = \<lparr>transitions = [], reported = []\<rparr>"

definition addTransition :: "ProgramState \<Rightarrow> Effects \<Rightarrow> Effects" where
  "addTransition st e = e\<lparr>transitions := transitions e @ [st]\<rparr>"

text \<open>
  The checker context of one callback: the incoming state, the stack frame, the function
  the frame runs (\<open>dyn_cast<FunctionDecl>(LCtx->getDecl())\<close>), the call expression the
  frame was entered from when there is one, the block count, and the analyser's
  \<open>C.generateErrorNode()\<close>: whether it gives an error node (\<open>True\<close>) or a null pointer
  when the callback has had the given effects so far.
\<close>

record CheckerContext =
  getState :: ProgramState
  getStackFrame :: LocationContext
  getFrameDecl :: "FunctionDecl option"
  getCallSite :: "CallExpr option"
  blockCount :: nat
  generateErrorNode :: "Effects \<Rightarrow> bool"

definition inTopFrame :: "CheckerContext \<Rightarrow> bool" where
  "inTopFrame C = (getParent (getStackFrame C) = None)"

datatype OriginExpr = CallExprOrigin CallExpr | OtherOrigin nat

fun originId :: "OriginExpr \<Rightarrow> nat" where
  "originId (CallExprOrigin CE) = ceId CE"
| "originId (OtherOrigin i) = i"

text \<open>
  A call event: the declaration the call resolves to, the expression it comes from, the
  values and expressions of its arguments, its return value and result type.
\<close>

record CallEvent =
  getDecl :: "Decl option"
  getOriginExpr :: "OriginExpr option"
  argSVals :: "SVal list"
  argExprs :: "Expr option list"
  getReturnValue :: SVal
  getResultType :: QualType
  getKindAsString :: string

definition getNumArgs :: "CallEvent \<Rightarrow> nat" where
  "getNumArgs Call = length (argSVals Call)"

text \<open>
  \<open>Call.getArgSVal(i)\<close>: an index past the arguments trips an assertion of the analyser,
  which is \<open>None\<close> here. \<open>Call.getArgExpr(i)\<close>: \<open>None\<close> is the null pointer of an argument
  that has no expression.
\<close>

definition getArgSVal :: "CallEvent \<Rightarrow> nat \<Rightarrow> SVal option" where
  "getArgSVal Call i = (if i < length (argSVals Call) then Some (argSVals Call ! i) else None)"

definition getArgExpr :: "CallEvent \<Rightarrow> nat \<Rightarrow> Expr option" where
  "getArgExpr Call i = (if i < length (argExprs Call) then argExprs Call ! i else None)"

text \<open>\<open>CallEvent::isInSystemHeader\<close> is false for a call without a declaration.\<close>

definition isInSystemHeader :: "CallEvent \<Rightarrow> bool" where
  "isInSystemHeader Call = (case getDecl Call of None \<Rightarrow> False | Some D \<Rightarrow> declInSystemHeader D)"

text \<open>
  \<open>report_error\<close> (without and with the notes its callback adds) and
  \<open>report_value_error\<close>: each asks the analyser for an error node first and returns
  without a report when it gets none.
\<close>

definition report_error :: "CheckerContext \<Rightarrow> string \<Rightarrow> Effects \<Rightarrow> Effects" where
  "report_error C message e =
     (if \<not> generateErrorNode C e then e
      else e\<lparr>reported := reported e @ [BugReport message None []]\<rparr>)"

definition report_error_notes :: "CheckerContext \<Rightarrow> string list \<Rightarrow> string \<Rightarrow> Effects \<Rightarrow> Effects" where
  "report_error_notes C ns message e =
     (if \<not> generateErrorNode C e then e
      else e\<lparr>reported := reported e @ [BugReport message None ns]\<rparr>)"

definition report_value_error :: "CheckerContext \<Rightarrow> SymExpr \<Rightarrow> string \<Rightarrow> Effects \<Rightarrow> Effects" where
  "report_value_error C Sym message e =
     (if \<not> generateErrorNode C e then e
      else e\<lparr>reported := reported e @ [BugReport message (Some Sym) []]\<rparr>)"

definition gcEnabledHere :: "ProgramState \<Rightarrow> bool" where
  "gcEnabledHere st = (GCDisabledAt st = - 1)"

definition safepointEnabledHere :: "ProgramState \<Rightarrow> bool" where
  "safepointEnabledHere st = (SafepointDisabledAt st = - 1)"

section \<open>The checker\<close>

subsection \<open>\<open>walkToRoot\<close>\<close>

text \<open>
  The loop of \<open>walkToRoot\<close> from a region that is not null: find the symbolic base; while
  the callback accepts its symbol, go on from the region the symbol comes from.
\<close>

function walkToRootFrom ::
  "(SymExpr \<Rightarrow> ValueState option \<Rightarrow> bool) \<Rightarrow> ProgramState \<Rightarrow> MemRegion \<Rightarrow> SymExpr option" where
  "walkToRootFrom f st Region =
     (case getSymbolicBase Region of
        None \<Rightarrow> None
      | Some Sym \<Rightarrow>
          (if f Sym (getValue st Sym) then
             (case Sym of
                SymbolRegionValue R \<Rightarrow> walkToRootFrom f st R
              | SymbolDerived parent R \<Rightarrow> walkToRootFrom f st R
              | _ \<Rightarrow> None)
           else Some Sym))"
  by pat_completeness auto
termination
proof (relation "measure (\<lambda>(f, st, R). size R)")
  show "wf (measure (\<lambda>(f :: SymExpr \<Rightarrow> ValueState option \<Rightarrow> bool, st :: ProgramState, R :: MemRegion). size R))"
    by simp
next
  fix f :: "SymExpr \<Rightarrow> ValueState option \<Rightarrow> bool" and st :: ProgramState
    and Region R :: MemRegion and Sym :: SymExpr
  assume a: "getSymbolicBase Region = Some Sym" "Sym = SymbolRegionValue R"
  have "getSymbolicBase Q = Some s \<Longrightarrow> size s < size Q" for Q s
    by (induction Q rule: getSymbolicBase.induct) auto
  from this [of Region Sym] a
  show "((f, st, R), (f, st, Region)) \<in> measure (\<lambda>(f, st, R). size R)" by simp
next
  fix f :: "SymExpr \<Rightarrow> ValueState option \<Rightarrow> bool" and st :: ProgramState
    and Region R :: MemRegion and Sym parent :: SymExpr
  assume a: "getSymbolicBase Region = Some Sym" "Sym = SymbolDerived parent R"
  have "getSymbolicBase Q = Some s \<Longrightarrow> size s < size Q" for Q s
    by (induction Q rule: getSymbolicBase.induct) auto
  from this [of Region Sym] a
  show "((f, st, R), (f, st, Region)) \<in> measure (\<lambda>(f, st, R). size R)" by simp
qed

declare walkToRootFrom.simps [simp del]

definition walkToRoot ::
  "(SymExpr \<Rightarrow> ValueState option \<Rightarrow> bool) \<Rightarrow> ProgramState \<Rightarrow> MemRegion option \<Rightarrow> SymExpr option" where
  "walkToRoot f st Region = (case Region of None \<Rightarrow> None | Some R \<Rightarrow> walkToRootFrom f st R)"

definition getValStateForRegion :: "ProgramState \<Rightarrow> MemRegion option \<Rightarrow> ValueState option" where
  "getValStateForRegion st Region =
     (case Region of
        None \<Rightarrow> None
      | Some R \<Rightarrow>
          (case walkToRoot (\<lambda>Sym OldVState.
                   case OldVState of None \<Rightarrow> True | Some v \<Rightarrow> \<not> isRooted v) st Region of
             None \<Rightarrow> None
           | Some Sym \<Rightarrow> getValue st Sym))"

subsection \<open>\<open>isSafepoint\<close>\<close>

text \<open>The loop over the enclosing declaration contexts.\<close>

fun inLLVMOrStd :: "string option list \<Rightarrow> bool" where
  "inLLVMOrStd [] = False"
| "inLLVMOrStd (DC # outer) =
     (case DC of
        Some n \<Rightarrow> (if n = ''llvm'' \<or> n = ''std'' then True else inLLVMOrStd outer)
      | None \<Rightarrow> inLLVMOrStd outer)"

text \<open>
  The locals \<open>Callee\<close> and \<open>Decl\<close> of \<open>isSafepoint\<close>: the callee expression when the call
  comes from a call expression, and the call's declaration or else the declaration the
  call expression names.
\<close>

definition safepointCallee :: "CallEvent \<Rightarrow> Callee option" where
  "safepointCallee Call =
     (case getOriginExpr Call of
        Some (CallExprOrigin CE) \<Rightarrow> Some (getCallee CE)
      | _ \<Rightarrow> None)"

definition safepointDecl :: "CallEvent \<Rightarrow> Decl option" where
  "safepointDecl Call =
     (case getDecl Call of
        Some d \<Rightarrow> Some d
      | None \<Rightarrow> (case getOriginExpr Call of
                   Some (CallExprOrigin CE) \<Rightarrow> getCalleeDecl CE
                 | _ \<Rightarrow> None))"

definition isSafepoint :: "CallEvent \<Rightarrow> CheckerContext \<Rightarrow> bool" where
  "isSafepoint Call C =
     (if isInSystemHeader Call then False
      else
        let Callee = safepointCallee Call;
            D = safepointDecl Call
        in if inLLVMOrStd (case D of None \<Rightarrow> [] | Some d \<Rightarrow> declContexts d) then False
           else
             (case (case D of None \<Rightarrow> None | Some d \<Rightarrow> getAsFunction d) of
                None \<Rightarrow>
                  (case Callee of
                     None \<Rightarrow> True
                   | Some ce \<Rightarrow>
                       (case calleeType ce of
                          ElaboratedTypedef anns \<Rightarrow> \<not> declHasAnnotation anns ''julia_not_safepoint''
                        | ElaboratedOther \<Rightarrow> True
                        | OtherCalleeType \<Rightarrow> (if calleeIsPseudoDestructor ce then False else True)))
              | Some fd \<Rightarrow>
                  (if fdBuiltinID fd \<noteq> 0 \<or> fdIsTrivial fd then False
                   else if (case fdName fd of
                              None \<Rightarrow> False
                            | Some n \<Rightarrow> (starts_with n ''uv_'' \<or> starts_with n ''unw_'' \<or>
                                         starts_with n ''_U'') \<and> n \<noteq> ''uv_run'')
                        then False
                   else \<not> isFDAnnotatedNotSafepoint fd)))"

subsection \<open>\<open>processPotentialSafepoint\<close>\<close>

definition isPointerType :: "QualType \<Rightarrow> bool" where
  "isPointerType t = (case desugar t of PointerType p \<Rightarrow> True | _ \<Rightarrow> False)"

definition getPointeeType :: "QualType \<Rightarrow> QualType" where
  "getPointeeType t = (case desugar t of PointerType p \<Rightarrow> p | _ \<Rightarrow> BuiltinType)"

text \<open>
  The loop over the parameters that looks for the symbol of a \<open>julia_temporarily_roots\<close>
  argument: \<open>i\<close> is the index of the first parameter of the list, \<open>sp\<close> the symbol found so
  far. An out parameter sets the symbol and the loop goes on; any other annotated
  parameter sets it and ends the loop. \<open>None\<close> is an assertion of the analyser (no such
  argument, or an out parameter whose argument is not a location).
\<close>

fun temporarilyRootsLoop ::
  "CallEvent \<Rightarrow> ProgramState \<Rightarrow> VarDecl list \<Rightarrow> nat \<Rightarrow> SymExpr option \<Rightarrow> SymExpr option option" where
  "temporarilyRootsLoop Call st [] i sp = Some sp"
| "temporarilyRootsLoop Call st (p # ps) i sp =
     (if declHasAnnotation (vdAnnotations p) ''julia_temporarily_roots'' then
        (if isPointerType (vdType p) \<and> isPointerType (getPointeeType (vdType p)) \<and>
            isGCTrackedType (getPointeeType (vdType p))
         then (case getArgSVal Call i of
                 None \<Rightarrow> None
               | Some v \<Rightarrow>
                   (if isLoc v
                    then temporarilyRootsLoop Call st ps (Suc i) (getAsSymbol (getSValLoc st v) False)
                    else None))
         else (case getArgSVal Call i of
                 None \<Rightarrow> None
               | Some Test \<Rightarrow>
                   Some (walkToRoot (\<lambda>Sym OldVState. OldVState = None) st (getAsRegion Test))))
      else temporarilyRootsLoop Call st ps (Suc i) sp)"

definition SpeciallyRootedSymbol :: "CallEvent \<Rightarrow> ProgramState \<Rightarrow> SymExpr option option" where
  "SpeciallyRootedSymbol Call st =
     (case (case getDecl Call of None \<Rightarrow> None | Some D \<Rightarrow> getAsFunction D) of
        None \<Rightarrow> Some None
      | Some fd \<Rightarrow> temporarilyRootsLoop Call st (fdParams fd) 0 None)"

text \<open>
  One step of the loop that frees the unrooted values: \<open>(k, d)\<close> is an entry of the value
  map as it was before the loop, the pair is \<open>DidChange\<close> and \<open>State\<close>.
\<close>

definition freeUnrooted ::
  "SymExpr option \<Rightarrow> SymExpr option \<Rightarrow> SymExpr \<times> ValueState \<Rightarrow> bool \<times> ProgramState
     \<Rightarrow> bool \<times> ProgramState" where
  "freeUnrooted sp RetSym e acc =
     (if isJustAllocated (snd e) then
        (if sp = Some (fst e) then acc
         else if RetSym = Some (fst e) then acc
         else (True, setValue (fst e) getFreed (snd acc)))
      else acc)"

definition processPotentialSafepoint ::
  "CallEvent \<Rightarrow> CheckerContext \<Rightarrow> ProgramState \<Rightarrow> (bool \<times> ProgramState) option" where
  "processPotentialSafepoint Call C st =
     (if \<not> isSafepoint Call C then Some (False, st)
      else if \<not> gcEnabledHere (getState C) then Some (False, st)
      else
        (case SpeciallyRootedSymbol Call st of
           None \<Rightarrow> None
         | Some sp \<Rightarrow>
             Some (fold (freeUnrooted sp (getAsSymbol (getReturnValue Call) False))
                        (GCValueMap st) (False, st))))"

subsection \<open>\<open>processArgumentRooting\<close>\<close>

text \<open>
  The loop over the parameters: the pair is \<open>RootingRegion\<close> and \<open>RootedSymbol\<close>; a later
  annotated parameter overwrites an earlier one.
\<close>

fun argumentRootingLoop ::
  "CallEvent \<Rightarrow> VarDecl list \<Rightarrow> nat \<Rightarrow> MemRegion option \<times> SymExpr option
     \<Rightarrow> (MemRegion option \<times> SymExpr option) option" where
  "argumentRootingLoop Call [] i acc = Some acc"
| "argumentRootingLoop Call (p # ps) i acc =
     (if declHasAnnotation (vdAnnotations p) ''julia_rooting_argument'' then
        (case getArgSVal Call i of
           None \<Rightarrow> None
         | Some v \<Rightarrow> argumentRootingLoop Call ps (Suc i) (getAsRegion v, snd acc))
      else if declHasAnnotation (vdAnnotations p) ''julia_rooted_argument'' then
        (case getArgSVal Call i of
           None \<Rightarrow> None
         | Some v \<Rightarrow> argumentRootingLoop Call ps (Suc i) (fst acc, getAsSymbol v False))
      else argumentRootingLoop Call ps (Suc i) acc)"

definition processArgumentRooting ::
  "CallEvent \<Rightarrow> CheckerContext \<Rightarrow> ProgramState \<Rightarrow> (bool \<times> ProgramState) option" where
  "processArgumentRooting Call C st =
     (case (case getDecl Call of None \<Rightarrow> None | Some D \<Rightarrow> getAsFunction D) of
        None \<Rightarrow> Some (False, st)
      | Some fd \<Rightarrow>
          (case argumentRootingLoop Call (fdParams fd) 0 (None, None) of
             None \<Rightarrow> None
           | Some (RootingRegion, RootedSymbol) \<Rightarrow>
               (case (RootingRegion, RootedSymbol) of
                  (Some R, Some Sym) \<Rightarrow>
                    (case getValStateForRegion st (Some R) of
                       None \<Rightarrow> Some (False, st)
                     | Some OldVState \<Rightarrow> Some (True, setValue Sym OldVState st))
                | _ \<Rightarrow> Some (False, st))))"

subsection \<open>\<open>processAllocationOfResult\<close>\<close>

text \<open>
  \<open>conjureSymbolVal\<close>: a fresh symbol for the statement at the block count, as a location
  for a pointer type and as a value for the other types that can be symbolic (arrays
  cannot).
\<close>

definition conjureSymbolVal :: "nat \<Rightarrow> QualType \<Rightarrow> nat \<Rightarrow> SVal" where
  "conjureSymbolVal e QT n =
     (case desugar QT of
        PointerType p \<Rightarrow> MemRegionVal (SymbolicRegion (SymbolConjured e n))
      | ArrayType t \<Rightarrow> UnknownVal
      | _ \<Rightarrow> SymbolVal (SymbolConjured e n))"

text \<open>
  The range test of the \<open>jl_box_\<close> special case: \<open>FDName\<close> is the callee's name and
  \<open>Value\<close> the integer of the first argument (an \<open>APSInt\<close>, compared by value).
\<close>

definition NBOX_C :: int where
  "NBOX_C = 1024"

definition GloballyRooted :: "string \<Rightarrow> int \<Rightarrow> bool" where
  "GloballyRooted FDName Value =
     (if starts_with FDName ''jl_box_u'' \<or> starts_with FDName ''ijl_box_u''
      then (if Value < NBOX_C then True else False)
      else (if (- NBOX_C) div 2 < Value \<and> Value < (NBOX_C - NBOX_C div 2) then True else False))"

text \<open>
  The loop over the parameters for \<open>julia_propagates_root\<close>: the first annotated
  parameter decides and ends the loop.
\<close>

fun propagatesRootLoop ::
  "CallEvent \<Rightarrow> ProgramState \<Rightarrow> VarDecl list \<Rightarrow> nat \<Rightarrow> ValueState \<Rightarrow> ValueState option" where
  "propagatesRootLoop Call st [] i NewVState = Some NewVState"
| "propagatesRootLoop Call st (p # ps) i NewVState =
     (if declHasAnnotation (vdAnnotations p) ''julia_propagates_root'' then
        (case getArgSVal Call i of
           None \<Rightarrow> None
         | Some Test \<Rightarrow>
             (case getValStateForRegion st (getAsRegion Test) of
                None \<Rightarrow> Some NewVState
              | Some OldVState \<Rightarrow> Some OldVState))
      else propagatesRootLoop Call st ps (Suc i) NewVState)"

text \<open>
  The state the result gets when its type is not globally rooted: \<open>NewVState\<close> starts as
  the state the symbol has already, or \<open>Allocated\<close>.
\<close>

definition resultValueState ::
  "CallEvent \<Rightarrow> ProgramState \<Rightarrow> SymExpr \<Rightarrow> ValueState option" where
  "resultValueState Call st Sym =
     (let NewVState = (case getValue st Sym of Some v \<Rightarrow> v | None \<Rightarrow> getAllocated)
      in case (case getDecl Call of None \<Rightarrow> None | Some D \<Rightarrow> getAsFunction D) of
           None \<Rightarrow> Some NewVState
         | Some fd \<Rightarrow>
             (if declHasAnnotation (fdAnnotations fd) ''julia_globally_rooted''
              then Some (getRooted None (- 1))
              else
                let FDName = (case fdName fd of Some n \<Rightarrow> n | None \<Rightarrow> [])
                in if starts_with FDName ''jl_box_'' \<or> starts_with FDName ''ijl_box_'' then
                     (case getArgSVal Call 0 of
                        None \<Rightarrow> None
                      | Some (ConcreteInt Value) \<Rightarrow>
                          (if GloballyRooted FDName Value then Some (getRooted None (- 1))
                           else Some NewVState)
                      | Some _ \<Rightarrow> Some NewVState)
                   else propagatesRootLoop Call st (fdParams fd) 0 NewVState))"

text \<open>
  \<open>None\<close>: an assertion of the analyser, or a result for which no symbol can be conjured
  (the source would store a state under a null symbol).
\<close>

definition processAllocationOfResult ::
  "CallEvent \<Rightarrow> CheckerContext \<Rightarrow> ProgramState \<Rightarrow> (bool \<times> ProgramState) option" where
  "processAllocationOfResult Call C st =
     (let QT = getResultType Call
      in if \<not> isGCTrackedType QT then Some (False, st)
         else
           (case getOriginExpr Call of
              None \<Rightarrow> Some (False, st)
            | Some OE \<Rightarrow>
                let (Sym, st1) =
                      (case getAsSymbol (getReturnValue Call) False of
                         Some s \<Rightarrow> (Some s, st)
                       | None \<Rightarrow>
                           (let v = conjureSymbolVal (originId OE) QT (blockCount C)
                            in (getAsSymbol v False, BindExpr st (originId OE) v)))
                in (case Sym of
                      None \<Rightarrow> None
                    | Some s \<Rightarrow>
                        (if isGloballyRootedType QT
                         then Some (True, setValue s (getRooted None (- 1)) st1)
                         else (case resultValueState Call st1 s of
                                 None \<Rightarrow> None
                               | Some NewVState \<Rightarrow> Some (True, setValue s NewVState st1))))))"

subsection \<open>\<open>checkPostCall\<close>\<close>

definition checkPostCall :: "CallEvent \<Rightarrow> CheckerContext \<Rightarrow> Effects option" where
  "checkPostCall Call C =
     (case processArgumentRooting Call C (getState C) of
        None \<Rightarrow> None
      | Some (c1, st1) \<Rightarrow>
          (case processPotentialSafepoint Call C st1 of
             None \<Rightarrow> None
           | Some (c2, st2) \<Rightarrow>
               (case processAllocationOfResult Call C st2 of
                  None \<Rightarrow> None
                | Some (c3, st3) \<Rightarrow>
                    Some (if c1 \<or> c2 \<or> c3 then addTransition st3 noEffects else noEffects))))"

subsection \<open>\<open>checkPreCall\<close>\<close>

fun getSuperRegion :: "MemRegion \<Rightarrow> MemRegion option" where
  "getSuperRegion (ElementRegion R i) = Some R"
| "getSuperRegion (FieldRegion R f) = Some R"
| "getSuperRegion R = None"

text \<open>
  The symbol of an argument: \<open>getAsSymbol\<close>, replaced for a struct or union passed by value
  (a lazy compound value) by the symbol of the symbolic region the struct lies in.
\<close>

definition argumentSymbol :: "SVal \<Rightarrow> SymExpr option" where
  "argumentSymbol Arg =
     (case Arg of
        LazyCompoundVal R \<Rightarrow>
          (case getSuperRegion R of
             Some (SymbolicRegion s) \<Rightarrow> Some s
           | _ \<Rightarrow> getAsSymbol Arg False)
      | _ \<Rightarrow> getAsSymbol Arg False)"

text \<open>The body of the loop over the arguments, for the argument at \<open>idx\<close>.\<close>

definition checkArgument ::
  "CallEvent \<Rightarrow> CheckerContext \<Rightarrow> ProgramState \<Rightarrow> bool \<Rightarrow> FunctionDecl option \<Rightarrow> nat
     \<Rightarrow> Effects \<Rightarrow> Effects" where
  "checkArgument Call C st isCalleeSafepoint fd idx e =
     (case argumentSymbol (argSVals Call ! idx) of
        None \<Rightarrow> e
      | Some Sym \<Rightarrow>
          (case getValue st Sym of
             None \<Rightarrow> e
           | Some ValState \<Rightarrow>
               (if (case getArgExpr Call idx of Some E \<Rightarrow> \<not> isGCTracked E | None \<Rightarrow> False) then e
                else
                  let e1 = (if isPotentiallyFreed ValState
                            then report_value_error C Sym ''Argument value may have been GCed'' e
                            else e)
                  in if isRooted ValState then e1
                     else
                       let MaybeUnrooted =
                             (case fd of
                                None \<Rightarrow> False
                              | Some f \<Rightarrow>
                                  (if idx < length (fdParams f)
                                   then declHasAnnotation (vdAnnotations (fdParams f ! idx))
                                          ''julia_maybe_unrooted''
                                   else False))
                       in if \<not> MaybeUnrooted \<and> isCalleeSafepoint
                          then report_value_error C Sym
                                 ''Passing non-rooted value as argument to function that may GC'' e1
                          else e1)))"

text \<open>
  The first step of \<open>checkPreCall\<close>: a call to a mutex unlock or to a function annotated
  \<open>julia_notsafepoint_leave\<close> enables safepoints again when they were disabled at the
  height of this frame and the enclosing function is not itself annotated as not a
  safepoint. The result is \<open>State\<close> and the effects so far. \<open>None\<close>: the test of the
  enclosing function's annotation on a frame that has no \<open>FunctionDecl\<close> (a null pointer
  in the source).
\<close>

definition leaveNotSafepoint ::
  "CallEvent \<Rightarrow> CheckerContext \<Rightarrow> (ProgramState \<times> Effects) option" where
  "leaveNotSafepoint Call C =
     (let st = getState C;
          fd = (case getDecl Call of None \<Rightarrow> None | Some D \<Rightarrow> getAsFunction D);
          FDName = (case fd of None \<Rightarrow> [] | Some f \<Rightarrow> (case fdName f of Some n \<Rightarrow> n | None \<Rightarrow> []))
      in if isMutexUnlock FDName \<or>
            (case fd of None \<Rightarrow> False
             | Some f \<Rightarrow> declHasAnnotation (fdAnnotations f) ''julia_notsafepoint_leave'')
         then
           (if SafepointDisabledAt st = getStackFrameHeight (Some (getStackFrame C)) then
              (case getFrameDecl C of
                 None \<Rightarrow> None
               | Some frameFD \<Rightarrow>
                   (if \<not> isFDAnnotatedNotSafepoint frameFD
                    then Some (st\<lparr>SafepointDisabledAt := - 1\<rparr>,
                               addTransition (st\<lparr>SafepointDisabledAt := - 1\<rparr>) noEffects)
                    else Some (st, noEffects)))
            else Some (st, noEffects))
         else Some (st, noEffects))"

definition checkPreCall :: "CallEvent \<Rightarrow> CheckerContext \<Rightarrow> Effects option" where
  "checkPreCall Call C =
     (if \<not> gcEnabledHere (getState C) then Some noEffects
      else
        let NumArgs = getNumArgs Call;
            isCalleeSafepoint = isSafepoint Call C;
            fd = (case getDecl Call of None \<Rightarrow> None | Some D \<Rightarrow> getAsFunction D)
        in case leaveNotSafepoint Call C of
             None \<Rightarrow> None
           | Some (st1, e1) \<Rightarrow>
               (if \<not> safepointEnabledHere st1 \<and> isCalleeSafepoint \<and>
                   (case fd of None \<Rightarrow> True | Some f \<Rightarrow> \<not> fdIsNoReturn f)
                then Some (report_error_notes C
                             (case fd of None \<Rightarrow> [] | Some f \<Rightarrow> [''Tried to call method defined here''])
                             (''Calling potential safepoint as '' @ getKindAsString Call @
                              '' from function annotated JL_NOTSAFEPOINT'') e1)
                else if (case fd of None \<Rightarrow> False | Some f \<Rightarrow> fdName f = Some ''JL_GC_PROMISE_ROOTED'')
                then Some e1
                else Some (fold (checkArgument Call C st1 isCalleeSafepoint fd) [0..<NumArgs] e1)))"

subsection \<open>\<open>evalCall\<close>\<close>

text \<open>\<open>CE->getArg(i)\<close>; \<open>None\<close> past the arguments (an assertion of the analyser).\<close>

definition getArg :: "CallExpr \<Rightarrow> nat \<Rightarrow> Expr option" where
  "getArg CE i = (if i < length (ceArgs CE) then Some (ceArgs CE ! i) else None)"

text \<open>\<open>C.getSVal(E)\<close>: the environment of the incoming state.\<close>

definition getSVal :: "CheckerContext \<Rightarrow> Expr \<Rightarrow> SVal" where
  "getSVal C E = Env (getState C) (exprId E)"

text \<open>
  \<open>JL_GC_POP\<close>, first loop: over the root map as it was, collecting the roots registered
  at the depth and removing them from the state.
\<close>

definition popRoot ::
  "int \<Rightarrow> MemRegion option \<times> RootState \<Rightarrow> MemRegion option list \<times> ProgramState
     \<Rightarrow> MemRegion option list \<times> ProgramState" where
  "popRoot Depth e acc =
     (if shouldPopAtDepth (snd e) Depth then (fst acc @ [fst e], removeRoot (fst e) (snd acc))
      else acc)"

text \<open>
  Second loop: for each popped root, over the value map as it was after the first loop,
  every value rooted by that root becomes \<open>Allocated\<close>. \<open>unrootValue\<close> is the body of the
  inner loop for a root that is a region, \<open>unrootValues\<close> one round of the outer loop:
  for a popped root that is the null region the first test of the inner loop fails the
  assertion of \<open>isRootedBy\<close> (\<open>None\<close>).
\<close>

definition unrootValue :: "MemRegion \<Rightarrow> SymExpr \<times> ValueState \<Rightarrow> ProgramState \<Rightarrow> ProgramState" where
  "unrootValue R e st = (if isRootedBy (snd e) R then setValue (fst e) getAllocated st else st)"

definition unrootValues ::
  "(SymExpr \<times> ValueState) list \<Rightarrow> MemRegion option \<Rightarrow> ProgramState option
     \<Rightarrow> ProgramState option" where
  "unrootValues VMap R acc =
     (case acc of
        None \<Rightarrow> None
      | Some st \<Rightarrow>
          (case R of
             None \<Rightarrow> (if VMap = [] then Some st else None)
           | Some r \<Rightarrow> Some (fold (unrootValue r) VMap st)))"

definition evalPop :: "CheckerContext \<Rightarrow> Effects option" where
  "evalPop C =
     (let CurrentDepth = GCDepth (getState C)
      in if CurrentDepth = 0
         then Some (report_error C ''JL_GC_POP without corresponding push'' noEffects)
         else
           let CurrentDepth1 = CurrentDepth - 1;
               st = (getState C)\<lparr>GCDepth := CurrentDepth1\<rparr>;
               (PoppedRoots, st1) = fold (popRoot (sint CurrentDepth1)) (GCRootMap st) ([], st);
               VMap = GCValueMap st1
           in case fold (unrootValues VMap) PoppedRoots (Some st1) of
                None \<Rightarrow> None
              | Some st2 \<Rightarrow> Some (addTransition st2 noEffects))"

text \<open>
  \<open>JL_GC_PUSH1\<close> to \<open>JL_GC_PUSH9\<close>: the loop over the arguments. The result is the state
  after the loop, or \<open>None\<close> when an argument is not a region and the callback returns
  at once, with the reports made.
\<close>

fun pushLoop ::
  "CheckerContext \<Rightarrow> 32 word \<Rightarrow> Expr list \<Rightarrow> ProgramState \<Rightarrow> Effects \<Rightarrow> ProgramState option \<times> Effects" where
  "pushLoop C CurrentDepth [] st e = (Some st, e)"
| "pushLoop C CurrentDepth (a # as) st e =
     (case getSVal C a of
        MemRegionVal Region \<Rightarrow>
          (let st1 = setRoot (Some Region) (getRoot (sint CurrentDepth)) st
           in case getAsSymbol (Store st1 Region) False of
                None \<Rightarrow> pushLoop C CurrentDepth as st1 e
              | Some Sym \<Rightarrow>
                  (case getValue st1 Sym of
                     None \<Rightarrow> pushLoop C CurrentDepth as st1 e
                   | Some ValState \<Rightarrow>
                       pushLoop C CurrentDepth as
                         (if \<not> isRooted ValState
                          then setValue Sym (getRooted (Some Region) (sint CurrentDepth)) st1
                          else st1)
                         (if isPotentiallyFreed ValState
                          then report_value_error C Sym
                                 ''Trying to root value which may have been GCed'' e
                          else e)))
      | _ \<Rightarrow> (None, report_error C ''JL_GC_PUSH with something other than a local variable'' e))"

definition evalPush :: "CallExpr \<Rightarrow> CheckerContext \<Rightarrow> Effects" where
  "evalPush CE C =
     (let CurrentDepth = GCDepth (getState C)
      in case pushLoop C CurrentDepth (ceArgs CE) (getState C) noEffects of
           (None, e) \<Rightarrow> e
         | (Some st, e) \<Rightarrow> addTransition (st\<lparr>GCDepth := CurrentDepth + 1\<rparr>) e)"

definition evalPushArgs :: "CallExpr \<Rightarrow> CheckerContext \<Rightarrow> Effects option" where
  "evalPushArgs CE C =
     (let CurrentDepth = GCDepth (getState C)
      in case getArg CE 0 of
           None \<Rightarrow> None
         | Some a \<Rightarrow>
             (case getSVal C a of
                MemRegionVal R \<Rightarrow>
                  Some (addTransition
                          ((setRoot (Some (StripCasts R)) (getRootArray (sint CurrentDepth)) (getState C))
                             \<lparr>GCDepth := CurrentDepth + 1\<rparr>) noEffects)
              | _ \<Rightarrow> Some (report_error C ''JL_GC_PUSH with something other than an args array''
                             noEffects)))"

definition evalPromiseRooted :: "CallExpr \<Rightarrow> CheckerContext \<Rightarrow> Effects option" where
  "evalPromiseRooted CE C =
     (case getArg CE 0 of
        None \<Rightarrow> None
      | Some a \<Rightarrow>
          (case getAsSymbol (getSVal C a) False of
             None \<Rightarrow> Some (report_error C ''Can not understand this promise.'' noEffects)
           | Some Sym \<Rightarrow>
               Some (addTransition (setValue Sym (getRooted None (- 1)) (getState C)) noEffects)))"

text \<open>
  \<open>jl_gc_push_arraylist\<close>: \<open>ceItemsField\<close> is the type of the field named \<open>items\<close> of the
  record the second argument points to, when there is one. \<open>None\<close>: the second argument
  is not a region, or the items are not one (assertions in the source).
\<close>

definition evalPushArraylist :: "CallExpr \<Rightarrow> CheckerContext \<Rightarrow> Effects option" where
  "evalPushArraylist CE C =
     (let CurrentDepth = GCDepth (getState C) + 1;
          st = (getState C)\<lparr>GCDepth := CurrentDepth\<rparr>
      in case getArg CE 1 of
           None \<Rightarrow> None
         | Some a \<Rightarrow>
             (case ceItemsField CE of
                None \<Rightarrow> Some (addTransition st noEffects)
              | Some FieldType \<Rightarrow>
                  (case getSVal C a of
                     MemRegionVal ArrayList \<Rightarrow>
                       (let ItemsLoc = FieldRegion ArrayList ''items'';
                            (Items, st1) =
                              (if Store st ItemsLoc = UnknownVal
                               then (let v = conjureSymbolVal (ceId CE) FieldType (blockCount C)
                                     in (v, st\<lparr>Store := (Store st)(ItemsLoc := v)\<rparr>))
                               else (Store st ItemsLoc, st))
                        in case getAsRegion Items of
                             None \<Rightarrow> None
                           | Some R \<Rightarrow>
                               Some (addTransition
                                       (setRoot (Some R) (getRootArray (sint CurrentDepth)) st1) noEffects))
                   | _ \<Rightarrow> None)))"

definition evalAstPreserve :: "CallExpr \<Rightarrow> CheckerContext \<Rightarrow> Effects option" where
  "evalAstPreserve CE C =
     (case getArg CE 1 of
        None \<Rightarrow> None
      | Some a \<Rightarrow>
          (case getAsSymbol (getSVal C a) False of
             None \<Rightarrow> Some noEffects
           | Some Sym \<Rightarrow>
               Some (addTransition (setValue Sym (getRooted None (- 1)) (getState C)) noEffects)))"

text \<open>\<open>makeTruthVal\<close>: the concrete integer 1 or 0.\<close>

definition makeTruthVal :: "bool \<Rightarrow> SVal" where
  "makeTruthVal b = ConcreteInt (if b then 1 else 0)"

text \<open>
  \<open>jl_gc_enable\<close>: with an argument that is not a concrete integer the source casts the
  argument's symbol to a conjured symbol to print its statement, which fails (\<open>None\<close>)
  for anything else.
\<close>

definition evalGcEnable :: "CallExpr \<Rightarrow> CheckerContext \<Rightarrow> Effects option" where
  "evalGcEnable CE C =
     (let st = getState C
      in case getArg CE 0 of
           None \<Rightarrow> None
         | Some a \<Rightarrow>
             (case (case getSVal C a of
                      ConcreteInt Val \<Rightarrow> Some (Val \<noteq> 0)
                    | Arg \<Rightarrow> (case getAsSymbol Arg False of
                                Some (SymbolConjured e n) \<Rightarrow> Some True
                              | _ \<Rightarrow> None)) of
                None \<Rightarrow> None
              | Some EnabledAfter \<Rightarrow>
                  (let EnabledNow = gcEnabledHere st;
                       st1 = (if \<not> EnabledAfter then st\<lparr>GCDisabledAt := - 2\<rparr>
                              else st\<lparr>GCDisabledAt := - 1\<rparr>);
                       Result = makeTruthVal EnabledNow
                   in Some (addTransition (BindExpr st1 (ceId CE) Result) noEffects))))"

text \<open>
  \<open>evalCall\<close>: whether the call was evaluated, and the effects. A call whose origin is not
  a call expression is not evaluated; one without an origin expression fails the
  \<open>dyn_cast\<close> (\<open>None\<close>).
\<close>

definition evalCall :: "CallEvent \<Rightarrow> CheckerContext \<Rightarrow> (bool \<times> Effects) option" where
  "evalCall Call C =
     (case getOriginExpr Call of
        Some (CallExprOrigin CE) \<Rightarrow>
          (let name = getCalleeName CE
           in if name = ''JL_GC_POP'' then map_option (Pair True) (evalPop C)
              else if name \<in> set [''JL_GC_PUSH1'', ''JL_GC_PUSH2'', ''JL_GC_PUSH3'', ''JL_GC_PUSH4'',
                                   ''JL_GC_PUSH5'', ''JL_GC_PUSH6'', ''JL_GC_PUSH7'', ''JL_GC_PUSH8'',
                                   ''JL_GC_PUSH9'']
                then Some (True, evalPush CE C)
              else if name = ''_JL_GC_PUSHARGS'' then map_option (Pair True) (evalPushArgs CE C)
              else if name = ''JL_GC_PROMISE_ROOTED''
                then map_option (Pair True) (evalPromiseRooted CE C)
              else if name = ''jl_gc_push_arraylist''
                then map_option (Pair True) (evalPushArraylist CE C)
              else if name = ''jl_ast_preserve'' then map_option (Pair True) (evalAstPreserve CE C)
              else if name = ''jl_gc_enable'' \<or> name = ''ijl_gc_enable''
                then map_option (Pair True) (evalGcEnable CE C)
              else
                (let fd = (case getDecl Call of None \<Rightarrow> None | Some D \<Rightarrow> getAsFunction D)
                 in if (isMutexLock name \<or>
                        (case fd of None \<Rightarrow> False
                         | Some f \<Rightarrow> declHasAnnotation (fdAnnotations f) ''julia_notsafepoint_enter''))
                       \<and> SafepointDisabledAt (getState C) = - 1
                    then Some (True,
                           addTransition ((getState C)\<lparr>SafepointDisabledAt :=
                               getStackFrameHeight (Some (getStackFrame C))\<rparr>) noEffects)
                    else Some (False, noEffects)))
      | Some (OtherOrigin i) \<Rightarrow> Some (False, noEffects)
      | None \<Rightarrow> None)"

subsection \<open>\<open>checkBeginFunction\<close>\<close>

text \<open>\<open>State->getSVal(State->getLValue(P, LCtx))\<close>: the value of the parameter's region.\<close>

definition parameterValue :: "ProgramState \<Rightarrow> VarDecl \<Rightarrow> SVal" where
  "parameterValue st P = getSValLoc st (MemRegionVal (VarRegion P))"

text \<open>
  The loop of \<open>propagateArgumentRootedness\<close>: \<open>idx\<close> counts the tracked parameters seen
  so far and indexes the arguments of the call site; the triple is \<open>Change\<close>, \<open>State\<close>
  and the reports.
\<close>

fun propagateLoop ::
  "CheckerContext \<Rightarrow> CallExpr \<Rightarrow> VarDecl list \<Rightarrow> nat \<Rightarrow> bool \<times> ProgramState \<times> Effects
     \<Rightarrow> (bool \<times> ProgramState \<times> Effects) option" where
  "propagateLoop C CE [] idx acc = Some acc"
| "propagateLoop C CE (P # Ps) idx (Change, st, e) =
     (if \<not> isGCTrackedType (vdType P) then propagateLoop C CE Ps idx (Change, st, e)
      else
        (case getArg CE idx of
           None \<Rightarrow> None
         | Some a \<Rightarrow>
             (case walkToRoot (\<lambda>Sym OldVState. OldVState = None) st
                     (getAsRegion (Env st (exprId a))) of
                None \<Rightarrow> propagateLoop C CE Ps (Suc idx) (Change, st, e)
              | Some ArgSym \<Rightarrow>
                  (case getValue st ArgSym of
                     None \<Rightarrow>
                       propagateLoop C CE Ps (Suc idx)
                         (Change, st,
                          report_error_notes C
                            [''Tried to find root for this parameter in inlined call'']
                            ''Missed allocation of parameter'' e)
                   | Some ValS \<Rightarrow>
                       (case getAsSymbol (parameterValue st P) False of
                          None \<Rightarrow> propagateLoop C CE Ps (Suc idx) (Change, st, e)
                        | Some ParamSym \<Rightarrow>
                            (if isGloballyRootedType (vdType P)
                             then propagateLoop C CE Ps (Suc idx)
                                    (True, setValue ParamSym (getRooted None (- 1)) st, e)
                             else propagateLoop C CE Ps (Suc idx)
                                    (True, setValue ParamSym ValS st, e)))))))"

definition propagateArgumentRootedness ::
  "CheckerContext \<Rightarrow> ProgramState \<Rightarrow> Effects \<Rightarrow> (bool \<times> ProgramState \<times> Effects) option" where
  "propagateArgumentRootedness C st e =
     (case getCallSite C of
        None \<Rightarrow> Some (False, st, e)
      | Some CE \<Rightarrow>
          (case getFrameDecl C of
             None \<Rightarrow> Some (False, st, e)
           | Some fd \<Rightarrow> propagateLoop C CE (fdParams fd) 0 (False, st, e)))"

text \<open>
  The loop over the parameters in the top frame. For a \<open>julia_require_rooted_slot\<close>
  parameter the region of its value is registered as a root, also when the value has no
  region and the pointer is null.
\<close>

fun beginFunctionLoop ::
  "FunctionDecl \<Rightarrow> bool \<Rightarrow> VarDecl list \<Rightarrow> bool \<times> ProgramState \<Rightarrow> bool \<times> ProgramState" where
  "beginFunctionLoop fd isFunctionSafepoint [] acc = acc"
| "beginFunctionLoop fd isFunctionSafepoint (P # Ps) (Change, st) =
     (if declHasAnnotation (vdAnnotations P) ''julia_require_rooted_slot'' then
        beginFunctionLoop fd isFunctionSafepoint Ps
          (Change, setRoot (getAsRegion (parameterValue st P)) (getRoot (- 1)) st)
      else if isGCTrackedType (vdType P) then
        (case getAsSymbol (parameterValue st P) False of
           None \<Rightarrow> beginFunctionLoop fd isFunctionSafepoint Ps (Change, st)
         | Some AssignedSym \<Rightarrow>
             beginFunctionLoop fd isFunctionSafepoint Ps
               (True, setValue AssignedSym (getForArgument fd P isFunctionSafepoint) st))
      else beginFunctionLoop fd isFunctionSafepoint Ps (Change, st))"

text \<open>
  The part of \<open>checkBeginFunction\<close> before the parameters: the two markers are reset in
  the top frame and set to the height of the frame by the function's annotations.
\<close>

definition beginFunctionMarkers :: "FunctionDecl \<Rightarrow> CheckerContext \<Rightarrow> bool \<times> ProgramState" where
  "beginFunctionMarkers fd C =
     (let CurrentHeight = getStackFrameHeight (Some (getStackFrame C));
          st = getState C;
          (Change1, st1) =
             (if inTopFrame C
              then (True, st\<lparr>GCDisabledAt := - 1, SafepointDisabledAt := - 1\<rparr>)
              else (False, st));
          (Change2, st2) =
             (if gcEnabledHere st1 \<and> declHasAnnotation (fdAnnotations fd) ''julia_gc_disabled''
              then (True, st1\<lparr>GCDisabledAt := CurrentHeight\<rparr>)
              else (Change1, st1));
          isFunctionSafepoint = \<not> isFDAnnotatedNotSafepoint fd
      in if safepointEnabledHere st2 \<and>
            (\<not> isFunctionSafepoint \<or>
             declHasAnnotation (fdAnnotations fd) ''julia_notsafepoint_leave'')
         then (True, st2\<lparr>SafepointDisabledAt := CurrentHeight\<rparr>)
         else (Change2, st2))"

text \<open>\<open>None\<close> also when the frame has no \<open>FunctionDecl\<close> (\<open>assert(FD)\<close>).\<close>

definition checkBeginFunction :: "CheckerContext \<Rightarrow> Effects option" where
  "checkBeginFunction C =
     (case getFrameDecl C of
        None \<Rightarrow> None
      | Some fd \<Rightarrow>
          (let (Change, st) = beginFunctionMarkers fd C;
               isFunctionSafepoint = \<not> isFDAnnotatedNotSafepoint fd
           in if \<not> inTopFrame C then
                (case propagateArgumentRootedness C st noEffects of
                   None \<Rightarrow> None
                 | Some (c, st1, e) \<Rightarrow> Some (if c \<or> Change then addTransition st1 e else e))
              else
                (case beginFunctionLoop fd isFunctionSafepoint (fdParams fd) (Change, st) of
                   (c, st1) \<Rightarrow> Some (if c then addTransition st1 noEffects else noEffects))))"

subsection \<open>\<open>rootRegionIfGlobal\<close>, \<open>checkBind\<close> and \<open>checkLocation\<close>\<close>

text \<open>
  \<open>rootRegionIfGlobal\<close>: the result, the state, and the value state written through
  \<open>ValS\<close>. The test for a state the value has already reads the incoming state of the
  callback, not \<open>State\<close>.
\<close>

definition rootRegionIfGlobal ::
  "MemRegion option \<Rightarrow> ProgramState \<Rightarrow> CheckerContext \<Rightarrow> bool \<times> ProgramState \<times> ValueState option" where
  "rootRegionIfGlobal R st C =
     (case R of
        Some (VarRegion VD) \<Rightarrow>
          (if \<not> vdHasGlobalStorage VD then (False, st, None)
           else if \<not> isGCTrackedType (vdType VD) then (False, st, None)
           else
             let isGlobalRoot = (declHasAnnotation (vdAnnotations VD) ''julia_globally_rooted'' \<or>
                                 isGloballyRootedType (vdType VD));
                 st1 = (if isGlobalRoot then setRoot (Some (VarRegion VD)) (getRoot (- 1)) st else st);
                 TheValS = (if isGlobalRoot then getRooted (Some (VarRegion VD)) (- 1)
                            else getAllocated)
             in (case getAsSymbol (Store st1 (VarRegion VD)) False of
                   None \<Rightarrow> (True, st1, Some TheValS)
                 | Some Sym \<Rightarrow>
                     (case getValue (getState C) Sym of
                        None \<Rightarrow> (True, setValue Sym TheValS st1, Some TheValS)
                      | Some GVState \<Rightarrow> (True, st1, Some TheValS))))
      | _ \<Rightarrow> (False, st, None))"

fun isElementRegion :: "MemRegion \<Rightarrow> bool" where
  "isElementRegion (ElementRegion R i) = True"
| "isElementRegion R = False"

text \<open>\<open>checkBind\<close> when the region bound to is not a registered root.\<close>

definition bindToNonRoot ::
  "MemRegion \<Rightarrow> SymExpr \<Rightarrow> CheckerContext \<Rightarrow> Effects" where
  "bindToNonRoot R Sym C =
     (let (isGlobal, st, ValS) = rootRegionIfGlobal (Some (getBaseRegion R)) (getState C) C;
          ValSP = (if isGlobal then ValS else getValStateForRegion st (Some R))
      in case ValSP of
           None \<Rightarrow> noEffects
         | Some v \<Rightarrow>
             (if \<not> isRooted v then noEffects
              else (case getValue st Sym of
                      Some RValState \<Rightarrow>
                        (if isRooted RValState \<and> RootDepth RValState < RootDepth v then noEffects
                         else addTransition (setValue Sym v st) noEffects)
                    | None \<Rightarrow> addTransition (setValue Sym v st) noEffects)))"

text \<open>\<open>checkBind\<close> when the region bound to is a registered root with state \<open>RS\<close>.\<close>

definition bindToRoot ::
  "MemRegion \<Rightarrow> bool \<Rightarrow> RootState \<Rightarrow> SymExpr \<Rightarrow> CheckerContext \<Rightarrow> Effects" where
  "bindToRoot R shouldBeRootArray RS Sym C =
     (let st = getState C
      in if shouldBeRootArray \<and> \<not> isRootArray RS
         then report_error C ''This assignment looks weird. Expected a root array on the LHS.''
                noEffects
         else
           (case getValue st Sym of
              None \<Rightarrow>
                (case rootRegionIfGlobal (getOriginRegion Sym) st C of
                   (True, st1, ValS) \<Rightarrow> addTransition st1 noEffects
                 | (False, st1, ValS) \<Rightarrow>
                     report_value_error C Sym
                       ''Saw assignment to root, but missed the allocation'' noEffects)
            | Some RValState \<Rightarrow>
                (let e = (if isPotentiallyFreed RValState
                          then report_value_error C Sym
                                 ''Trying to root value which may have been GCed'' noEffects
                          else noEffects)
                 in if \<not> isRooted RValState \<or> RootDepth RValState > RootedAtDepth RS
                    then addTransition
                           (setValue Sym (getRooted (Some R) (RootedAtDepth RS)) st) e
                    else e)))"

definition checkBind :: "SVal \<Rightarrow> SVal \<Rightarrow> CheckerContext \<Rightarrow> Effects" where
  "checkBind LVal RVal C =
     (case getAsRegion LVal of
        None \<Rightarrow> noEffects
      | Some R0 \<Rightarrow>
          (let shouldBeRootArray = isElementRegion R0;
               R = (if isElementRegion R0 then StripCasts (getBaseRegion R0) else R0)
           in case getAsSymbol RVal False of
                None \<Rightarrow> noEffects
              | Some Sym \<Rightarrow>
                  (case getRootState (getState C) R of
                     None \<Rightarrow> bindToNonRoot R Sym C
                   | Some RS \<Rightarrow> bindToRoot R shouldBeRootArray RS Sym C)))"

text \<open>
  \<open>checkLocation\<close>, first step: a load through a registered root roots the loaded symbol,
  unless it is rooted already at the depth of the root or above it. The root is looked
  up under the region of the location, which is the null region when the location has
  none; once a root is found the source reads the location as a \<open>Loc\<close>, and \<open>None\<close> is a
  location that is not one (the dereference of an empty optional).
\<close>

definition rootLoadedValue ::
  "SVal \<Rightarrow> bool \<Rightarrow> ProgramState \<Rightarrow> (bool \<times> ProgramState) option" where
  "rootLoadedValue SLoc IsLoad st =
     (if \<not> IsLoad then Some (False, st)
      else
        (case getRootEntry st (getAsRegion SLoc) of
           None \<Rightarrow> Some (False, st)
         | Some RS \<Rightarrow>
             (if \<not> isLoc SLoc then None
              else
                (case getAsSymbol (getSValLoc st SLoc) False of
                   None \<Rightarrow> Some (False, st)
                 | Some LoadedSym \<Rightarrow>
                     (if (case getValue st LoadedSym of
                            None \<Rightarrow> True
                          | Some ValS \<Rightarrow> \<not> isRooted ValS \<or> RootDepth ValS > RootedAtDepth RS)
                      then Some (True, setValue LoadedSym
                                         (getRooted (getAsRegion SLoc) (RootedAtDepth RS)) st)
                      else Some (False, st))))))"

definition checkLocation :: "SVal \<Rightarrow> bool \<Rightarrow> CheckerContext \<Rightarrow> Effects option" where
  "checkLocation SLoc IsLoad C =
     (case rootLoadedValue SLoc IsLoad (getState C) of
        None \<Rightarrow> None
      | Some (DidChange, st) \<Rightarrow>
          Some
            (case rootRegionIfGlobal (getAsRegion SLoc) st C of
               (True, st1, ValS) \<Rightarrow> addTransition st1 noEffects
             | (False, st1, ValS) \<Rightarrow>
                 (case getAsSymbol SLoc False of
                    Some SymByItself \<Rightarrow> (if DidChange then addTransition st noEffects else noEffects)
                  | None \<Rightarrow>
                      (case getAsSymbol SLoc True of
                         None \<Rightarrow> (if DidChange then addTransition st noEffects else noEffects)
                       | Some Sym \<Rightarrow>
                           (case getValue st Sym of
                              None \<Rightarrow> (if DidChange then addTransition st noEffects else noEffects)
                            | Some VState \<Rightarrow>
                                (let e = (if isPotentiallyFreed VState
                                          then report_value_error C Sym
                                                 ''Trying to access value which may have been GCed''
                                                 noEffects
                                          else noEffects)
                                 in if DidChange then addTransition st e else e))))))"

section \<open>Sample inputs\<close>

text \<open>
  Concrete declarations, calls and states on which the theorems below are instantiated:
  \<open>jl_value_t *\<close>, parameters and functions of a C file, direct calls to them, symbols
  conjured for pointer values, and a top-frame context with GC and safepoints enabled
  whose analyser gives an error node for the first report of a callback and none after
  it.
\<close>

definition jl_value_p :: QualType where
  "jl_value_p = PointerType (TypedefType ''jl_value_t'' (TagType ''_jl_value_t''))"

definition exParam :: "string \<Rightarrow> QualType \<Rightarrow> string list \<Rightarrow> VarDecl" where
  "exParam n t anns =
     \<lparr>vdName = n, vdType = t, vdAnnotations = anns, vdHasGlobalStorage = False, vdIsParm = True\<rparr>"

definition exFunction :: "string \<Rightarrow> string list \<Rightarrow> VarDecl list \<Rightarrow> FunctionDecl" where
  "exFunction n anns ps =
     \<lparr>fdName = Some n, fdAnnotations = anns, fdParams = ps, fdBuiltinID = 0,
      fdIsTrivial = False, fdIsNoReturn = False, fdFileName = ''gc.c''\<rparr>"

definition exDecl :: "FunctionDecl \<Rightarrow> Decl" where
  "exDecl fd = \<lparr>declContexts = [None], declInSystemHeader = False, getAsFunction = Some fd\<rparr>"

definition exSym :: "nat \<Rightarrow> SymExpr" where
  "exSym n = SymbolConjured n 0"

definition exPtr :: "nat \<Rightarrow> SVal" where
  "exPtr n = MemRegionVal (SymbolicRegion (exSym n))"

definition exArgs :: "nat \<Rightarrow> Expr list" where
  "exArgs n = map (\<lambda>i. OtherExpr i jl_value_p) [0..<n]"

definition exCallExpr :: "FunctionDecl \<Rightarrow> nat \<Rightarrow> CallExpr" where
  "exCallExpr fd n =
     \<lparr>ceId = 100, ceType = jl_value_p,
      getCallee = \<lparr>calleeType = OtherCalleeType, calleeIsPseudoDestructor = False\<rparr>,
      getCalleeDecl = Some (exDecl fd), ceArgs = exArgs n, ceItemsField = None\<rparr>"

definition exCall :: "FunctionDecl \<Rightarrow> SVal list \<Rightarrow> CallEvent" where
  "exCall fd args =
     \<lparr>getDecl = Some (exDecl fd),
      getOriginExpr = Some (CallExprOrigin (exCallExpr fd (length args))),
      argSVals = args, argExprs = map Some (exArgs (length args)),
      getReturnValue = exPtr 99, getResultType = jl_value_p,
      getKindAsString = ''SimpleFunctionCall''\<rparr>"

definition exState :: "(SymExpr \<times> ValueState) list \<Rightarrow> (MemRegion \<times> RootState) list \<Rightarrow> ProgramState" where
  "exState vm rm =
     \<lparr>GCDepth = 0, GCDisabledAt = - 1, SafepointDisabledAt = - 1, GCValueMap = vm,
      GCRootMap = map (\<lambda>(R, rs). (Some R, rs)) rm, Store = (\<lambda>R. UnknownVal), Env = (\<lambda>e. UnknownVal)\<rparr>"

definition exContext :: "ProgramState \<Rightarrow> CheckerContext" where
  "exContext st =
     \<lparr>getState = st, getStackFrame = LocationContext None,
      getFrameDecl = Some (exFunction ''caller'' [] []), getCallSite = None, blockCount = 1,
      generateErrorNode = (\<lambda>e. reported e = [])\<rparr>"

definition exKillState :: ProgramState where
  "exKillState = exState [(exSym 1, getAllocated), (exSym 2, getAllocated),
      (exSym 3, getRooted None (- 1)), (exSym 99, getAllocated)] []"

definition exLLVMDecl :: Decl where
  "exLLVMDecl = \<lparr>declContexts = [Some ''sys'', Some ''llvm'', None], declInSystemHeader = False,
      getAsFunction = Some (exFunction ''getProcessTriple'' [] [])\<rparr>"

definition exLLVMCall :: CallEvent where
  "exLLVMCall = (exCall (exFunction ''getProcessTriple'' [] []) [])\<lparr>getDecl := Some exLLVMDecl\<rparr>"

definition exUnknownCall :: CallEvent where
  "exUnknownCall = (exCall (exFunction ''f'' [] []) [])\<lparr>getDecl := None, getOriginExpr := None\<rparr>"

definition exDisabledState :: ProgramState where
  "exDisabledState =
     (exState [(exSym 1, getFreed)] [])\<lparr>GCDisabledAt := - 2, SafepointDisabledAt := 1\<rparr>"

definition exApplyCall :: CallEvent where
  "exApplyCall = exCall (exFunction ''jl_apply'' [] [exParam ''v'' jl_value_p []]) [exPtr 1]"

definition exLocal :: MemRegion where
  "exLocal = VarRegion \<lparr>vdName = ''x'', vdType = jl_value_p, vdAnnotations = [],
      vdHasGlobalStorage = False, vdIsParm = False\<rparr>"

definition exPopCall :: CallEvent where
  "exPopCall = exCall (exFunction ''JL_GC_POP'' [''julia_not_safepoint''] []) []"

definition exFrameState :: ProgramState where
  "exFrameState =
     (exState [(exSym 1, getRooted (Some exLocal) 0), (exSym 2, getRooted None (- 1))]
        [(exLocal, getRoot 0)])\<lparr>GCDepth := 1\<rparr>"

definition exGcEnableCall :: CallEvent where
  "exGcEnableCall = exCall (exFunction ''jl_gc_enable'' [] [exParam ''on'' BuiltinType []]) [UnknownVal]"

definition exEnvState :: "ProgramState \<Rightarrow> SVal \<Rightarrow> ProgramState" where
  "exEnvState st v = st\<lparr>Env := (Env st)(0 := v)\<rparr>"

definition exPromiseCall :: CallEvent where
  "exPromiseCall =
     exCall (exFunction ''JL_GC_PROMISE_ROOTED'' [''julia_not_safepoint'']
               [exParam ''v'' (PointerType BuiltinType) []]) [exPtr 1]"

definition exBoxCall :: "string \<Rightarrow> int \<Rightarrow> CallEvent" where
  "exBoxCall n v = exCall (exFunction n [] [exParam ''x'' BuiltinType []]) [ConcreteInt v]"

definition exPromiseState :: ProgramState where
  "exPromiseState = exEnvState (exState [(exSym 1, getFreed)] []) (exPtr 1)"

definition exLockedState :: ProgramState where
  "exLockedState = (exState [(exSym 1, getAllocated)] [])\<lparr>SafepointDisabledAt := 1\<rparr>"

definition exArgState :: ProgramState where
  "exArgState = exState [(exSym 1, getAllocated), (exSym 2, getFreed)] []"

definition exApply2Call :: CallEvent where
  "exApply2Call =
     exCall (exFunction ''jl_apply'' [] [exParam ''f'' jl_value_p [], exParam ''v'' jl_value_p []])
       [exPtr 1, exPtr 2]"

definition exEntryState :: ProgramState where
  "exEntryState =
     (exState [] [])\<lparr>Store := (\<lambda>R. MemRegionVal (SymbolicRegion (SymbolRegionValue R)))\<rparr>"

definition exEntryContext :: "FunctionDecl \<Rightarrow> CheckerContext" where
  "exEntryContext fd = (exContext exEntryState)\<lparr>getFrameDecl := Some fd\<rparr>"

definition exSlotParam :: VarDecl where
  "exSlotParam = exParam ''slot'' (PointerType jl_value_p) [''julia_require_rooted_slot'']"

definition exPlainParam :: VarDecl where
  "exPlainParam = exParam ''a'' jl_value_p []"

definition exUnrootedParam :: VarDecl where
  "exUnrootedParam = exParam ''b'' jl_value_p [''julia_maybe_unrooted'']"

definition exLocal2 :: MemRegion where
  "exLocal2 = VarRegion \<lparr>vdName = ''y'', vdType = jl_value_p, vdAnnotations = [],
      vdHasGlobalStorage = False, vdIsParm = False\<rparr>"

definition exRootedState :: "nat \<Rightarrow> ProgramState" where
  "exRootedState n =
     (exState [(exSym 1, getRooted None (- 1)), (exSym 2, getRooted (Some exLocal2) 3)]
        [(exLocal, getRoot 1), (exLocal2, getRoot 3)])
       \<lparr>GCDepth := 4, Store := (\<lambda>R. if R = exLocal then exPtr n else UnknownVal)\<rparr>"

definition exKill2Function :: FunctionDecl where
  "exKill2Function = exFunction ''jl_apply'' []
      [exParam ''f'' jl_value_p [''julia_temporarily_roots''],
       exParam ''v'' jl_value_p [''julia_temporarily_roots'']]"

definition exKill2Call :: CallEvent where
  "exKill2Call = exCall exKill2Function [exPtr 1, exPtr 2]"

definition exOutParam :: VarDecl where
  "exOutParam = exParam ''out'' (PointerType jl_value_p) [''julia_temporarily_roots'']"

definition exKillOutCall :: CallEvent where
  "exKillOutCall = exCall (exFunction ''jl_apply'' [] [exOutParam]) [MemRegionVal exLocal]"

definition exKillOutState :: ProgramState where
  "exKillOutState = exKillState\<lparr>Store := (\<lambda>R. if R = exLocal then exPtr 2 else UnknownVal)\<rparr>"

definition exNullEntryContext :: "FunctionDecl \<Rightarrow> CheckerContext" where
  "exNullEntryContext fd = (exContext (exState [] []))\<lparr>getFrameDecl := Some fd\<rparr>"

definition exNullRootState :: ProgramState where
  "exNullRootState = exFrameState\<lparr>GCRootMap := (None, getRoot (- 1)) # GCRootMap exFrameState\<rparr>"

definition exRootedArgState :: ProgramState where
  "exRootedArgState = exState [(exSym 1, getRooted None (- 1)), (exSym 2, getFreed)] []"

section \<open>Properties\<close>

lemmas ex_defs = jl_value_p_def exParam_def exFunction_def exDecl_def exSym_def exPtr_def
  exArgs_def exCallExpr_def exCall_def exState_def exContext_def

lemmas type_defs = isGCTrackedType_def isGloballyRootedType_def isJuliaType.simps
  trackedTypeNames_def ends_with_insensitive_def ends_with_def toLower_def starts_with_def
  isPointerType_def getPointeeType_def

lemmas vs_defs = getAllocated_def getFreed_def getRooted_def getUntracked_def mkValueState_def
  isRooted_def isJustAllocated_def isPotentiallyFreed_def isRootedBy_def sameValueState_def

lemma getValue_setValue:
  "getValue (setValue k v st) k' =
     (if k' = k
      then (case getValue st k of
              Some old \<Rightarrow> (if sameValueState old v then Some old else Some v)
            | None \<Rightarrow> Some v)
      else getValue st k')"
  by (simp add: getValue_def setValue_def update_conv' split: option.splits)

lemma getValue_setValue_same:
  "\<exists>v'. getValue (setValue k v st) k = Some v' \<and> sameValueState v' v"
  by (simp add: getValue_setValue sameValueState_def split: option.splits)

lemma setValue_fields:
  "GCRootMap (setValue k v st) = GCRootMap st"
  "GCDepth (setValue k v st) = GCDepth st"
  "GCDisabledAt (setValue k v st) = GCDisabledAt st"
  "SafepointDisabledAt (setValue k v st) = SafepointDisabledAt st"
  "Store (setValue k v st) = Store st"
  "Env (setValue k v st) = Env st"
  by (simp_all add: setValue_def split: option.splits)

lemma getValue_setRoot: "getValue (setRoot R rs st) k = getValue st k"
  by (simp add: getValue_def setRoot_def)

lemma ex_isSafepoint: "isSafepoint (exCall (exFunction ''jl_apply'' [] ps) args) C"
  by (simp add: isSafepoint_def isInSystemHeader_def safepointDecl_def safepointCallee_def
      ex_defs isFDAnnotatedNotSafepoint_def declHasAnnotation_def starts_with_def)

subsection \<open>The safepoint frees the unrooted values\<close>

lemma freeUnrooted_other:
  "k \<noteq> k' \<or> \<not> (isJustAllocated d' \<and> sp \<noteq> Some k' \<and> ret \<noteq> Some k') \<Longrightarrow>
   getValue (snd (freeUnrooted sp ret (k', d') acc)) k = getValue (snd acc) k"
  by (auto simp add: freeUnrooted_def getValue_setValue)

lemma freeUnrooted_freed:
  "isJustAllocated d' \<Longrightarrow> sp \<noteq> Some k' \<Longrightarrow> ret \<noteq> Some k' \<Longrightarrow>
   \<exists>v. getValue (snd (freeUnrooted sp ret (k', d') acc)) k' = Some v \<and> sameValueState v getFreed"
  by (simp add: freeUnrooted_def getValue_setValue_same)

lemma freeUnrooted_keeps_freed:
  assumes "\<exists>v. getValue (snd acc) k = Some v \<and> sameValueState v getFreed"
  shows "\<exists>v. getValue (snd (freeUnrooted sp ret x acc)) k = Some v \<and> sameValueState v getFreed"
proof (cases "snd (freeUnrooted sp ret x acc) = snd acc")
  case True
  then show ?thesis using assms by simp
next
  case False
  then have s: "snd (freeUnrooted sp ret x acc) = setValue (fst x) getFreed (snd acc)"
    by (auto simp add: freeUnrooted_def split: if_splits)
  show ?thesis
  proof (cases "k = fst x")
    case True
    then show ?thesis unfolding s by (simp add: getValue_setValue_same)
  next
    case False
    then show ?thesis unfolding s using assms by (simp add: getValue_setValue)
  qed
qed

lemma fold_freeUnrooted_other:
  "\<forall>d. (k, d) \<in> set xs \<longrightarrow> \<not> (isJustAllocated d \<and> sp \<noteq> Some k \<and> ret \<noteq> Some k) \<Longrightarrow>
   getValue (snd (fold (freeUnrooted sp ret) xs acc)) k = getValue (snd acc) k"
proof (induction xs arbitrary: acc)
  case Nil
  then show ?case by simp
next
  case (Cons x xs)
  obtain k' d' where x: "x = (k', d')" by (cases x)
  have "getValue (snd (fold (freeUnrooted sp ret) (x # xs) acc)) k =
        getValue (snd (fold (freeUnrooted sp ret) xs (freeUnrooted sp ret (k', d') acc))) k"
    by (simp add: x)
  also have "\<dots> = getValue (snd (freeUnrooted sp ret (k', d') acc)) k"
    using Cons.prems by (intro Cons.IH) simp
  also have "\<dots> = getValue (snd acc) k"
    using Cons.prems x by (intro freeUnrooted_other) auto
  finally show ?case .
qed

lemma fold_freeUnrooted_keeps_freed:
  "\<exists>v. getValue (snd acc) k = Some v \<and> sameValueState v getFreed \<Longrightarrow>
   \<exists>v. getValue (snd (fold (freeUnrooted sp ret) xs acc)) k = Some v \<and> sameValueState v getFreed"
proof (induction xs arbitrary: acc)
  case Nil
  then show ?case by simp
next
  case (Cons x xs)
  from freeUnrooted_keeps_freed [OF Cons.prems, of sp ret x]
  show ?case by (simp add: Cons.IH)
qed

lemma fold_freeUnrooted_freed:
  "(k, d) \<in> set xs \<Longrightarrow> isJustAllocated d \<Longrightarrow> sp \<noteq> Some k \<Longrightarrow> ret \<noteq> Some k \<Longrightarrow>
   \<exists>v. getValue (snd (fold (freeUnrooted sp ret) xs acc)) k = Some v \<and> sameValueState v getFreed"
proof (induction xs arbitrary: acc)
  case Nil
  then show ?case by simp
next
  case (Cons x xs)
  show ?case
  proof (cases "x = (k, d)")
    case True
    from freeUnrooted_freed [OF Cons.prems(2,3,4), of acc]
    have "\<exists>v. getValue (snd (freeUnrooted sp ret x acc)) k = Some v \<and> sameValueState v getFreed"
      by (simp add: True)
    from fold_freeUnrooted_keeps_freed [OF this, of sp ret xs]
    show ?thesis by simp
  next
    case False
    then have "(k, d) \<in> set xs" using Cons.prems(1) by simp
    from Cons.IH [OF this Cons.prems(2,3,4), of "freeUnrooted sp ret x acc"]
    show ?thesis by simp
  qed
qed

lemma temporarilyRootsLoop_none:
  "\<forall>q \<in> set ps. \<not> declHasAnnotation (vdAnnotations q) ''julia_temporarily_roots'' \<Longrightarrow>
   temporarilyRootsLoop Call st ps i sp = Some sp"
  by (induction ps arbitrary: i) simp_all

lemma temporarilyRootsLoop_skip:
  "\<forall>q \<in> set pre. \<not> declHasAnnotation (vdAnnotations q) ''julia_temporarily_roots'' \<Longrightarrow>
   temporarilyRootsLoop Call st (pre @ ps) i sp =
     temporarilyRootsLoop Call st ps (i + length pre) sp"
  by (induction pre arbitrary: i) simp_all

lemma walkToRoot_tracked:
  "getValue st s \<noteq> None \<Longrightarrow>
   walkToRoot (\<lambda>Sym OldVState. OldVState = None) st (Some (SymbolicRegion s)) = Some s"
  by (auto simp add: walkToRoot_def walkToRootFrom.simps)

text \<open>
  C1, as the claim states it, fails: a callee with two parameters annotated
  \<open>julia_temporarily_roots\<close> is a safepoint, GC is enabled, the symbol of the second
  argument is passed via an annotated parameter, is not the symbol of the return value and
  is \<open>Allocated\<close> before the step; after the step it is \<open>PotentiallyFreed\<close>. The search for
  the annotated argument ends at the first such parameter.
\<close>

theorem safepoint_frees_second_temporarily_rooted:
  "isSafepoint exKill2Call (exContext exKillState) \<and>
   gcEnabledHere (getState (exContext exKillState)) \<and>
   getDecl exKill2Call = Some (exDecl exKill2Function) \<and>
   declHasAnnotation (vdAnnotations (fdParams exKill2Function ! 1)) ''julia_temporarily_roots'' \<and>
   getArgSVal exKill2Call 1 = Some (exPtr 2) \<and>
   getAsSymbol (exPtr 2) False = Some (exSym 2) \<and>
   getAsSymbol (getReturnValue exKill2Call) False = Some (exSym 99) \<and>
   getValue exKillState (exSym 2) = Some getAllocated \<and>
   S getAllocated = Allocated \<and>
   (\<exists>DidChange st' v.
      processPotentialSafepoint exKill2Call (exContext exKillState) exKillState
        = Some (DidChange, st') \<and>
      getValue st' (exSym 2) = Some v \<and> S v = PotentiallyFreed)"
proof -
  have h1: "isSafepoint exKill2Call (exContext exKillState)"
    unfolding exKill2Call_def exKill2Function_def by (rule ex_isSafepoint)
  have h2: "gcEnabledHere (getState (exContext exKillState))"
    by (simp add: gcEnabledHere_def exKillState_def ex_defs)
  have h3: "SpeciallyRootedSymbol exKill2Call exKillState = Some (Some (exSym 1))"
    by (simp add: SpeciallyRootedSymbol_def exKill2Call_def exKill2Function_def exKillState_def
        ex_defs declHasAnnotation_def type_defs getArgSVal_def walkToRoot_def
        walkToRootFrom.simps getValue_def vs_defs)
  have h4: "\<exists>DidChange st' v.
      processPotentialSafepoint exKill2Call (exContext exKillState) exKillState
        = Some (DidChange, st') \<and>
      getValue st' (exSym 2) = Some v \<and> S v = PotentiallyFreed"
    by (simp add: processPotentialSafepoint_def h1 h2 h3)
       (auto simp add: freeUnrooted_def setValue_def exKill2Call_def exKillState_def ex_defs
          getValue_def vs_defs)
  have h5: "getDecl exKill2Call = Some (exDecl exKill2Function) \<and>
      declHasAnnotation (vdAnnotations (fdParams exKill2Function ! 1))
        ''julia_temporarily_roots'' \<and>
      getArgSVal exKill2Call 1 = Some (exPtr 2) \<and>
      getAsSymbol (exPtr 2) False = Some (exSym 2) \<and>
      getAsSymbol (getReturnValue exKill2Call) False = Some (exSym 99) \<and>
      getValue exKillState (exSym 2) = Some getAllocated \<and>
      S getAllocated = Allocated"
    by (simp add: exKill2Call_def exKill2Function_def exKillState_def ex_defs
        declHasAnnotation_def getArgSVal_def getValue_def vs_defs)
  from h1 h2 h4 h5 show ?thesis by blast
qed

text \<open>
  C1, amended. \<open>processPotentialSafepoint\<close>, the safepoint step of \<open>checkPostCall\<close>, for a
  call that \<open>isSafepoint\<close> classifies as a safepoint while GC is enabled, applied to a state
  \<open>st\<close> whose value map has no duplicate keys, when the search for the
  \<open>julia_temporarily_roots\<close> argument ends with the symbol \<open>sp\<close> (null when there is none).
  The step returns, and afterwards every symbol whose state in \<open>st\<close> was \<open>Allocated\<close> is
  \<open>PotentiallyFreed\<close> with a null root and depth -1, except the symbol of the call's return
  value and the one symbol \<open>sp\<close>, which keep their state; every symbol in another state
  (\<open>Rooted\<close>, \<open>PotentiallyFreed\<close>, \<open>Untracked\<close>) keeps it, and no symbol gains a state.
  The symbol \<open>sp\<close> is tied to the annotation as follows. It is null when the call has no
  function declaration or no parameter of it is annotated. When the first annotated
  parameter is not an out parameter (a pointer to a pointer of a tracked type), \<open>sp\<close> is
  the symbol \<open>walkToRoot\<close> finds from the region of that parameter's argument: the first
  symbol with a state on the way back from the region, so the symbol of the argument
  itself when the argument points to its symbolic region and the symbol has a state;
  the arguments of later annotated parameters are then not looked at. When the only
  annotated parameter is an out parameter, \<open>sp\<close> is the symbol of the value loaded through
  its argument.
\<close>

theorem safepoint_frees_allocated:
  assumes sp: "isSafepoint Call C"
    and en: "gcEnabledHere (getState C)"
    and dist: "distinct (map fst (GCValueMap st))"
    and spec: "SpeciallyRootedSymbol Call st = Some sp"
  shows "(\<exists>DidChange st'. processPotentialSafepoint Call C st = Some (DidChange, st') \<and>
           (\<forall>k d. getValue st k = Some d \<longrightarrow>
              (if S d = Allocated \<and> sp \<noteq> Some k \<and>
                  getAsSymbol (getReturnValue Call) False \<noteq> Some k
               then \<exists>v. getValue st' k = Some v \<and> S v = PotentiallyFreed \<and>
                        Root v = None \<and> RootDepth v = - 1
               else getValue st' k = Some d)) \<and>
           (\<forall>k. getValue st k = None \<longrightarrow> getValue st' k = None)) \<and>
         ((case getDecl Call of None \<Rightarrow> None | Some D \<Rightarrow> getAsFunction D) = None \<longrightarrow>
            sp = None) \<and>
         (\<forall>D fd. getDecl Call = Some D \<and> getAsFunction D = Some fd \<and>
            (\<forall>q \<in> set (fdParams fd).
               \<not> declHasAnnotation (vdAnnotations q) ''julia_temporarily_roots'') \<longrightarrow>
            sp = None) \<and>
         (\<forall>D fd pre p post Test.
            getDecl Call = Some D \<and> getAsFunction D = Some fd \<and>
            fdParams fd = pre @ p # post \<and>
            (\<forall>q \<in> set pre. \<not> declHasAnnotation (vdAnnotations q) ''julia_temporarily_roots'') \<and>
            declHasAnnotation (vdAnnotations p) ''julia_temporarily_roots'' \<and>
            \<not> (isPointerType (vdType p) \<and> isPointerType (getPointeeType (vdType p)) \<and>
               isGCTrackedType (getPointeeType (vdType p))) \<and>
            getArgSVal Call (length pre) = Some Test \<longrightarrow>
            sp = walkToRoot (\<lambda>Sym OldVState. OldVState = None) st (getAsRegion Test) \<and>
            (\<forall>s. getAsRegion Test = Some (SymbolicRegion s) \<and> getValue st s \<noteq> None \<longrightarrow>
               sp = Some s)) \<and>
         (\<forall>D fd pre p post v.
            getDecl Call = Some D \<and> getAsFunction D = Some fd \<and>
            fdParams fd = pre @ p # post \<and>
            (\<forall>q \<in> set pre. \<not> declHasAnnotation (vdAnnotations q) ''julia_temporarily_roots'') \<and>
            (\<forall>q \<in> set post. \<not> declHasAnnotation (vdAnnotations q) ''julia_temporarily_roots'') \<and>
            declHasAnnotation (vdAnnotations p) ''julia_temporarily_roots'' \<and>
            isPointerType (vdType p) \<and> isPointerType (getPointeeType (vdType p)) \<and>
            isGCTrackedType (getPointeeType (vdType p)) \<and>
            getArgSVal Call (length pre) = Some v \<longrightarrow>
            isLoc v \<and> sp = getAsSymbol (getSValLoc st v) False)"
proof (intro conjI allI impI)
  let ?ret = "getAsSymbol (getReturnValue Call) False"
  let ?r = "fold (freeUnrooted sp ?ret) (GCValueMap st) (False, st)"
  have run: "processPotentialSafepoint Call C st = Some (fst ?r, snd ?r)"
    using sp en spec by (simp add: processPotentialSafepoint_def)
  have freed: "S v = PotentiallyFreed \<and> Root v = None \<and> RootDepth v = - 1"
    if "sameValueState v getFreed" for v
    using that by (simp add: vs_defs)
  have a: "if S d = Allocated \<and> sp \<noteq> Some k \<and> ?ret \<noteq> Some k
           then \<exists>v. getValue (snd ?r) k = Some v \<and> S v = PotentiallyFreed \<and>
                    Root v = None \<and> RootDepth v = - 1
           else getValue (snd ?r) k = Some d"
    if g: "getValue st k = Some d" for k d
  proof (cases "S d = Allocated \<and> sp \<noteq> Some k \<and> ?ret \<noteq> Some k")
    case True
    have "(k, d) \<in> set (GCValueMap st)"
      using g by (simp add: getValue_def map_of_SomeD)
    from fold_freeUnrooted_freed [OF this, of sp ?ret "(False, st)"] True
    obtain v where "getValue (snd ?r) k = Some v" "sameValueState v getFreed"
      by (auto simp add: isJustAllocated_def)
    then show ?thesis using True freed by auto
  next
    case False
    have "\<And>d'. (k, d') \<in> set (GCValueMap st) \<Longrightarrow> d' = d"
      using g dist by (auto simp add: getValue_def dest: eq_key_imp_eq_value map_of_SomeD)
    then have "\<forall>d'. (k, d') \<in> set (GCValueMap st) \<longrightarrow>
        \<not> (isJustAllocated d' \<and> sp \<noteq> Some k \<and> ?ret \<noteq> Some k)"
      using False by (auto simp add: isJustAllocated_def)
    from fold_freeUnrooted_other [OF this, of "(False, st)"] g False
    show ?thesis by simp
  qed
  have b: "getValue (snd ?r) k = None" if g: "getValue st k = None" for k
  proof -
    have "\<And>d. (k, d) \<notin> set (GCValueMap st)"
      using g by (auto simp add: getValue_def map_of_eq_None_iff intro: rev_image_eqI)
    then have "\<forall>d'. (k, d') \<in> set (GCValueMap st) \<longrightarrow>
        \<not> (isJustAllocated d' \<and> sp \<noteq> Some k \<and> ?ret \<noteq> Some k)"
      by simp
    from fold_freeUnrooted_other [OF this, of "(False, st)"] g
    show ?thesis by simp
  qed
  from run a b
  show "\<exists>DidChange st'. processPotentialSafepoint Call C st = Some (DidChange, st') \<and>
           (\<forall>k d. getValue st k = Some d \<longrightarrow>
              (if S d = Allocated \<and> sp \<noteq> Some k \<and> ?ret \<noteq> Some k
               then \<exists>v. getValue st' k = Some v \<and> S v = PotentiallyFreed \<and>
                        Root v = None \<and> RootDepth v = - 1
               else getValue st' k = Some d)) \<and>
           (\<forall>k. getValue st k = None \<longrightarrow> getValue st' k = None)"
    by blast
next
  assume "(case getDecl Call of None \<Rightarrow> None | Some D \<Rightarrow> getAsFunction D) = None"
  then show "sp = None"
    using spec by (simp add: SpeciallyRootedSymbol_def)
next
  fix D fd
  assume a: "getDecl Call = Some D \<and> getAsFunction D = Some fd \<and>
            (\<forall>q \<in> set (fdParams fd).
               \<not> declHasAnnotation (vdAnnotations q) ''julia_temporarily_roots'')"
  then show "sp = None"
    using spec by (simp add: SpeciallyRootedSymbol_def temporarilyRootsLoop_none)
next
  fix D fd pre p post Test
  assume a: "getDecl Call = Some D \<and> getAsFunction D = Some fd \<and>
            fdParams fd = pre @ p # post \<and>
            (\<forall>q \<in> set pre. \<not> declHasAnnotation (vdAnnotations q) ''julia_temporarily_roots'') \<and>
            declHasAnnotation (vdAnnotations p) ''julia_temporarily_roots'' \<and>
            \<not> (isPointerType (vdType p) \<and> isPointerType (getPointeeType (vdType p)) \<and>
               isGCTrackedType (getPointeeType (vdType p))) \<and>
            getArgSVal Call (length pre) = Some Test"
  then have "SpeciallyRootedSymbol Call st =
      temporarilyRootsLoop Call st (p # post) (length pre) None"
    by (simp add: SpeciallyRootedSymbol_def temporarilyRootsLoop_skip)
  also have "\<dots> = Some (walkToRoot (\<lambda>Sym OldVState. OldVState = None) st (getAsRegion Test))"
    using a by auto
  finally show w: "sp = walkToRoot (\<lambda>Sym OldVState. OldVState = None) st (getAsRegion Test)"
    using spec by simp
  fix s
  assume "getAsRegion Test = Some (SymbolicRegion s) \<and> getValue st s \<noteq> None"
  then show "sp = Some s"
    unfolding w by (simp add: walkToRoot_tracked)
next
  fix D fd pre p post v
  assume a: "getDecl Call = Some D \<and> getAsFunction D = Some fd \<and>
            fdParams fd = pre @ p # post \<and>
            (\<forall>q \<in> set pre. \<not> declHasAnnotation (vdAnnotations q) ''julia_temporarily_roots'') \<and>
            (\<forall>q \<in> set post. \<not> declHasAnnotation (vdAnnotations q) ''julia_temporarily_roots'') \<and>
            declHasAnnotation (vdAnnotations p) ''julia_temporarily_roots'' \<and>
            isPointerType (vdType p) \<and> isPointerType (getPointeeType (vdType p)) \<and>
            isGCTrackedType (getPointeeType (vdType p)) \<and>
            getArgSVal Call (length pre) = Some v"
  then have "SpeciallyRootedSymbol Call st =
      temporarilyRootsLoop Call st (p # post) (length pre) None"
    by (simp add: SpeciallyRootedSymbol_def temporarilyRootsLoop_skip)
  also have "\<dots> = (if isLoc v then Some (getAsSymbol (getSValLoc st v) False) else None)"
    using a by (simp add: temporarilyRootsLoop_none)
  finally have "Some sp = (if isLoc v then Some (getAsSymbol (getSValLoc st v) False) else None)"
    using spec by simp
  then show "isLoc v" "sp = getAsSymbol (getSValLoc st v) False"
    by (auto split: if_splits)
qed

theorem safepoint_frees_allocated_witness:
  "isSafepoint exKill2Call (exContext exKillState) \<and>
   gcEnabledHere (getState (exContext exKillState)) \<and>
   distinct (map fst (GCValueMap exKillState)) \<and>
   SpeciallyRootedSymbol exKill2Call exKillState = Some (Some (exSym 1)) \<and>
   getArgSVal exKill2Call 0 = Some (exPtr 1) \<and>
   getAsRegion (exPtr 1) = Some (SymbolicRegion (exSym 1)) \<and>
   getValue exKillState (exSym 1) = Some getAllocated \<and>
   walkToRoot (\<lambda>Sym OldVState. OldVState = None) exKillState (getAsRegion (exPtr 1))
     = Some (exSym 1) \<and>
   (\<exists>DidChange st'.
      processPotentialSafepoint exKill2Call (exContext exKillState) exKillState
        = Some (DidChange, st') \<and>
      getValue st' (exSym 1) = Some getAllocated \<and>
      (\<exists>v. getValue st' (exSym 2) = Some v \<and> S v = PotentiallyFreed \<and>
           Root v = None \<and> RootDepth v = - 1) \<and>
      getValue st' (exSym 3) = Some (getRooted None (- 1)) \<and>
      getValue st' (exSym 99) = Some getAllocated \<and>
      getValue st' (exSym 7) = None) \<and>
   SpeciallyRootedSymbol exApplyCall exKillState = Some None \<and>
   (\<exists>DidChange st' v.
      processPotentialSafepoint exApplyCall (exContext exKillState) exKillState
        = Some (DidChange, st') \<and>
      getValue st' (exSym 1) = Some v \<and> S v = PotentiallyFreed) \<and>
   SpeciallyRootedSymbol exKillOutCall exKillOutState = Some (Some (exSym 2)) \<and>
   getArgSVal exKillOutCall 0 = Some (MemRegionVal exLocal) \<and>
   isLoc (MemRegionVal exLocal) \<and>
   getAsSymbol (getSValLoc exKillOutState (MemRegionVal exLocal)) False = Some (exSym 2) \<and>
   (\<exists>DidChange st' v.
      processPotentialSafepoint exKillOutCall (exContext exKillOutState) exKillOutState
        = Some (DidChange, st') \<and>
      getValue st' (exSym 2) = Some getAllocated \<and>
      getValue st' (exSym 1) = Some v \<and> S v = PotentiallyFreed)"
proof -
  let ?f = "exParam ''f'' jl_value_p [''julia_temporarily_roots'']"
  let ?v = "exParam ''v'' jl_value_p [''julia_temporarily_roots'']"
  have st: "getState (exContext s) = s" for s by (simp add: ex_defs)
  have g: "getValue exKillState (exSym 1) = Some getAllocated"
    "getValue exKillState (exSym 2) = Some getAllocated"
    "getValue exKillState (exSym 3) = Some (getRooted None (- 1))"
    "getValue exKillState (exSym 99) = Some getAllocated"
    "getValue exKillState (exSym 7) = None"
    by (simp_all add: getValue_def exKillState_def ex_defs)
  have go: "getValue exKillOutState k = getValue exKillState k" for k
    by (simp add: getValue_def exKillOutState_def)
  have sA: "S getAllocated = Allocated" "S (getRooted None (- 1)) \<noteq> Allocated"
    by (simp_all add: vs_defs)
  have en: "gcEnabledHere (getState (exContext exKillState))"
    "gcEnabledHere (getState (exContext exKillOutState))"
    by (simp_all add: gcEnabledHere_def exKillOutState_def exKillState_def ex_defs)
  have di: "distinct (map fst (GCValueMap exKillState))"
    "distinct (map fst (GCValueMap exKillOutState))"
    by (simp_all add: exKillOutState_def exKillState_def ex_defs)
  have ret: "getAsSymbol (getReturnValue exKill2Call) False = Some (exSym 99)"
    "getAsSymbol (getReturnValue exApplyCall) False = Some (exSym 99)"
    "getAsSymbol (getReturnValue exKillOutCall) False = Some (exSym 99)"
    by (simp_all add: exKill2Call_def exApplyCall_def exKillOutCall_def ex_defs)
  have ne: "exSym 1 \<noteq> exSym 2" "exSym 1 \<noteq> exSym 3" "exSym 1 \<noteq> exSym 99"
    "exSym 2 \<noteq> exSym 99" "exSym 3 \<noteq> exSym 99" "exSym 2 \<noteq> exSym 1"
    by (simp_all add: ex_defs)

  have a1: "isSafepoint exKill2Call (exContext exKillState)"
    unfolding exKill2Call_def exKill2Function_def by (rule ex_isSafepoint)
  have a4: "SpeciallyRootedSymbol exKill2Call exKillState = Some (Some (exSym 1))"
    by (simp add: SpeciallyRootedSymbol_def exKill2Call_def exKill2Function_def exKillState_def
        ex_defs declHasAnnotation_def type_defs getArgSVal_def walkToRoot_def
        walkToRootFrom.simps getValue_def vs_defs)
  note ta = safepoint_frees_allocated [OF a1 en(1) di(1) a4]
  have a5: "getDecl exKill2Call = Some (exDecl exKill2Function) \<and>
      getAsFunction (exDecl exKill2Function) = Some exKill2Function \<and>
      fdParams exKill2Function = [] @ ?f # [?v] \<and>
      (\<forall>q \<in> set []. \<not> declHasAnnotation (vdAnnotations q) ''julia_temporarily_roots'') \<and>
      declHasAnnotation (vdAnnotations ?f) ''julia_temporarily_roots'' \<and>
      \<not> (isPointerType (vdType ?f) \<and> isPointerType (getPointeeType (vdType ?f)) \<and>
         isGCTrackedType (getPointeeType (vdType ?f))) \<and>
      getArgSVal exKill2Call (length ([] :: VarDecl list)) = Some (exPtr 1)"
    by (simp add: exKill2Call_def exKill2Function_def ex_defs declHasAnnotation_def
        type_defs getArgSVal_def)
  have a6: "getAsRegion (exPtr 1) = Some (SymbolicRegion (exSym 1))"
    by (simp add: ex_defs)
  from ta a5
  have a7: "Some (exSym 1) =
      walkToRoot (\<lambda>Sym OldVState. OldVState = None) exKillState (getAsRegion (exPtr 1))"
    by blast
  from ta [THEN conjunct1] obtain DidChange st' where
    r: "processPotentialSafepoint exKill2Call (exContext exKillState) exKillState
          = Some (DidChange, st')"
    and v: "\<forall>k d. getValue exKillState k = Some d \<longrightarrow>
              (if S d = Allocated \<and> Some (exSym 1) \<noteq> Some k \<and>
                  getAsSymbol (getReturnValue exKill2Call) False \<noteq> Some k
               then \<exists>v. getValue st' k = Some v \<and> S v = PotentiallyFreed \<and>
                        Root v = None \<and> RootDepth v = - 1
               else getValue st' k = Some d)"
    and n: "\<forall>k. getValue exKillState k = None \<longrightarrow> getValue st' k = None"
    by (elim exE conjE) (rule that)
  have "getValue st' (exSym 1) = Some getAllocated"
    using v [rule_format, OF g(1)] by simp
  moreover have "\<exists>v. getValue st' (exSym 2) = Some v \<and> S v = PotentiallyFreed \<and>
      Root v = None \<and> RootDepth v = - 1"
    using v [rule_format, OF g(2)] sA ne ret by simp
  moreover have "getValue st' (exSym 3) = Some (getRooted None (- 1))"
    using v [rule_format, OF g(3)] sA by simp
  moreover have "getValue st' (exSym 99) = Some getAllocated"
    using v [rule_format, OF g(4)] ret by simp
  moreover have "getValue st' (exSym 7) = None"
    using n [rule_format, OF g(5)] .
  ultimately have A: "\<exists>DidChange st'.
      processPotentialSafepoint exKill2Call (exContext exKillState) exKillState
        = Some (DidChange, st') \<and>
      getValue st' (exSym 1) = Some getAllocated \<and>
      (\<exists>v. getValue st' (exSym 2) = Some v \<and> S v = PotentiallyFreed \<and>
           Root v = None \<and> RootDepth v = - 1) \<and>
      getValue st' (exSym 3) = Some (getRooted None (- 1)) \<and>
      getValue st' (exSym 99) = Some getAllocated \<and>
      getValue st' (exSym 7) = None"
    using r by blast

  have b1: "isSafepoint exApplyCall (exContext exKillState)"
    unfolding exApplyCall_def by (rule ex_isSafepoint)
  have b4: "SpeciallyRootedSymbol exApplyCall exKillState = Some None"
    by (simp add: SpeciallyRootedSymbol_def exApplyCall_def ex_defs declHasAnnotation_def)
  note tb = safepoint_frees_allocated [OF b1 en(1) di(1) b4]
  from tb [THEN conjunct1] obtain DidChangeB stB where
    rb: "processPotentialSafepoint exApplyCall (exContext exKillState) exKillState
          = Some (DidChangeB, stB)"
    and vb: "\<forall>k d. getValue exKillState k = Some d \<longrightarrow>
              (if S d = Allocated \<and> None \<noteq> Some k \<and>
                  getAsSymbol (getReturnValue exApplyCall) False \<noteq> Some k
               then \<exists>v. getValue stB k = Some v \<and> S v = PotentiallyFreed \<and>
                        Root v = None \<and> RootDepth v = - 1
               else getValue stB k = Some d)"
    by (elim exE conjE) (rule that)
  have "\<exists>v. getValue stB (exSym 1) = Some v \<and> S v = PotentiallyFreed"
    using vb [rule_format, OF g(1)] sA ne ret by auto
  with rb have B: "\<exists>DidChange st' v.
      processPotentialSafepoint exApplyCall (exContext exKillState) exKillState
        = Some (DidChange, st') \<and>
      getValue st' (exSym 1) = Some v \<and> S v = PotentiallyFreed"
    by blast

  have c1: "isSafepoint exKillOutCall (exContext exKillOutState)"
    unfolding exKillOutCall_def by (rule ex_isSafepoint)
  have c4: "SpeciallyRootedSymbol exKillOutCall exKillOutState = Some (Some (exSym 2))"
    by (simp add: SpeciallyRootedSymbol_def exKillOutCall_def exOutParam_def exKillOutState_def
        ex_defs declHasAnnotation_def type_defs getArgSVal_def)
  have c5: "getArgSVal exKillOutCall 0 = Some (MemRegionVal exLocal) \<and>
      isLoc (MemRegionVal exLocal) \<and>
      getAsSymbol (getSValLoc exKillOutState (MemRegionVal exLocal)) False = Some (exSym 2)"
    by (simp add: exKillOutCall_def exKillOutState_def getArgSVal_def ex_defs)
  note tc = safepoint_frees_allocated [OF c1 en(2) di(2) c4]
  from tc [THEN conjunct1] obtain DidChangeC stC where
    rc: "processPotentialSafepoint exKillOutCall (exContext exKillOutState) exKillOutState
          = Some (DidChangeC, stC)"
    and vc: "\<forall>k d. getValue exKillOutState k = Some d \<longrightarrow>
              (if S d = Allocated \<and> Some (exSym 2) \<noteq> Some k \<and>
                  getAsSymbol (getReturnValue exKillOutCall) False \<noteq> Some k
               then \<exists>v. getValue stC k = Some v \<and> S v = PotentiallyFreed \<and>
                        Root v = None \<and> RootDepth v = - 1
               else getValue stC k = Some d)"
    by (elim exE conjE) (rule that)
  have "getValue stC (exSym 2) = Some getAllocated"
    using vc [rule_format, of "exSym 2" getAllocated] g(2) by (simp add: go)
  moreover have "\<exists>v. getValue stC (exSym 1) = Some v \<and> S v = PotentiallyFreed"
    using vc [rule_format, of "exSym 1" getAllocated] g(1) sA ne ret by (auto simp add: go)
  ultimately have C: "\<exists>DidChange st' v.
      processPotentialSafepoint exKillOutCall (exContext exKillOutState) exKillOutState
        = Some (DidChange, st') \<and>
      getValue st' (exSym 2) = Some getAllocated \<and>
      getValue st' (exSym 1) = Some v \<and> S v = PotentiallyFreed"
    using rc by blast
  from a1 en(1) di(1) a4 a5 a6 g(1) a7 [symmetric] A b4 B c4 c5 C
  show ?thesis by simp
qed

subsection \<open>Calls that are never, or always, safepoints\<close>

lemma inLLVMOrStd_iff:
  "inLLVMOrStd cs \<longleftrightarrow> Some ''llvm'' \<in> set cs \<or> Some ''std'' \<in> set cs"
  by (induction cs) (auto split: option.splits)

text \<open>
  C8. \<open>isSafepoint\<close> answers no for a call whose declaration (the call's own, or else the
  one its call expression names) has a namespace named \<open>llvm\<close> or \<open>std\<close> among its
  enclosing contexts, and yes for a call that has no such declaration and no callee
  expression.
\<close>

theorem isSafepoint_excluded_and_unknown:
  "(safepointDecl Call = Some d \<and>
      (Some ''llvm'' \<in> set (declContexts d) \<or> Some ''std'' \<in> set (declContexts d))
      \<longrightarrow> \<not> isSafepoint Call C) \<and>
   (safepointDecl Call = None \<and> safepointCallee Call = None \<longrightarrow> isSafepoint Call C)"
proof (intro conjI impI)
  assume "safepointDecl Call = Some d \<and>
      (Some ''llvm'' \<in> set (declContexts d) \<or> Some ''std'' \<in> set (declContexts d))"
  then show "\<not> isSafepoint Call C"
    by (simp add: isSafepoint_def inLLVMOrStd_iff Let_def)
next
  assume a: "safepointDecl Call = None \<and> safepointCallee Call = None"
  then have "getDecl Call = None"
    by (auto simp add: safepointDecl_def split: option.splits)
  with a show "isSafepoint Call C"
    by (simp add: isSafepoint_def Let_def isInSystemHeader_def)
qed

theorem isSafepoint_excluded_and_unknown_witness:
  "safepointDecl exLLVMCall = Some exLLVMDecl \<and>
   Some ''llvm'' \<in> set (declContexts exLLVMDecl) \<and>
   \<not> isSafepoint exLLVMCall (exContext (exState [] [])) \<and>
   safepointDecl exUnknownCall = None \<and> safepointCallee exUnknownCall = None \<and>
   isSafepoint exUnknownCall (exContext (exState [] []))"
proof -
  have a: "safepointDecl exLLVMCall = Some exLLVMDecl \<and>
      (Some ''llvm'' \<in> set (declContexts exLLVMDecl) \<or>
       Some ''std'' \<in> set (declContexts exLLVMDecl))"
    by (simp add: safepointDecl_def exLLVMCall_def exLLVMDecl_def ex_defs)
  have b: "safepointDecl exUnknownCall = None \<and> safepointCallee exUnknownCall = None"
    by (simp add: safepointDecl_def safepointCallee_def exUnknownCall_def ex_defs)
  have c: "Some ''llvm'' \<in> set (declContexts exLLVMDecl)"
    by (simp add: exLLVMDecl_def)
  from isSafepoint_excluded_and_unknown [of exLLVMCall exLLVMDecl "exContext (exState [] [])"]
    isSafepoint_excluded_and_unknown [of exUnknownCall exLLVMDecl "exContext (exState [] [])"]
    a b c
  show ?thesis by blast
qed

subsection \<open>The pre-call check while GC is disabled\<close>

text \<open>
  C9. When GC is disabled in the incoming state (\<open>GCDisabledAt\<close> is not the marker
  \<open>(unsigned)-1\<close>), \<open>checkPreCall\<close> returns at once: it adds no transition and asks for no
  report, whatever the call and its arguments are.
\<close>

theorem precall_silent_gc_disabled:
  "\<not> gcEnabledHere (getState C) \<Longrightarrow>
   checkPreCall Call C = Some \<lparr>transitions = [], reported = []\<rparr>"
  by (simp add: checkPreCall_def noEffects_def)

theorem precall_silent_gc_disabled_witness:
  "\<not> gcEnabledHere (getState (exContext exDisabledState)) \<and>
   \<not> safepointEnabledHere (getState (exContext exDisabledState)) \<and>
   isSafepoint exApplyCall (exContext exDisabledState) \<and>
   argumentSymbol (argSVals exApplyCall ! 0) = Some (exSym 1) \<and>
   getValue (getState (exContext exDisabledState)) (exSym 1) = Some getFreed \<and>
   checkPreCall exApplyCall (exContext exDisabledState)
     = Some \<lparr>transitions = [], reported = []\<rparr>"
proof -
  have h: "\<not> gcEnabledHere (getState (exContext exDisabledState))"
    by (simp add: gcEnabledHere_def exDisabledState_def ex_defs)
  have "\<not> safepointEnabledHere (getState (exContext exDisabledState))"
    by (simp add: safepointEnabledHere_def exDisabledState_def ex_defs)
  moreover have "isSafepoint exApplyCall (exContext exDisabledState)"
    unfolding exApplyCall_def by (rule ex_isSafepoint)
  moreover have "argumentSymbol (argSVals exApplyCall ! 0) = Some (exSym 1)"
    by (simp add: argumentSymbol_def exApplyCall_def ex_defs)
  moreover have "getValue (getState (exContext exDisabledState)) (exSym 1) = Some getFreed"
    by (simp add: getValue_def exDisabledState_def ex_defs)
  ultimately show ?thesis
    using h precall_silent_gc_disabled [OF h, of exApplyCall] by simp
qed

subsection \<open>Popping a root frame\<close>

lemma getRootEntry_removeRoot:
  "getRootEntry (removeRoot k st) k' = (if k' = k then None else getRootEntry st k')"
  by (simp add: getRootEntry_def removeRoot_def delete_conv')

lemma popRoot_step:
  "getRootEntry (snd (popRoot D (R', rs') acc)) R =
     (if R = R' \<and> RootedAtDepth rs' = D then None else getRootEntry (snd acc) R)"
  "fst (popRoot D (R', rs') acc) = fst acc @ (if RootedAtDepth rs' = D then [R'] else [])"
  "GCValueMap (snd (popRoot D (R', rs') acc)) = GCValueMap (snd acc)"
  "GCDepth (snd (popRoot D (R', rs') acc)) = GCDepth (snd acc)"
proof -
  show "getRootEntry (snd (popRoot D (R', rs') acc)) R =
     (if R = R' \<and> RootedAtDepth rs' = D then None else getRootEntry (snd acc) R)"
    by (auto simp add: popRoot_def shouldPopAtDepth_def getRootEntry_removeRoot)
  show "fst (popRoot D (R', rs') acc) = fst acc @ (if RootedAtDepth rs' = D then [R'] else [])"
    by (auto simp add: popRoot_def shouldPopAtDepth_def)
  show "GCValueMap (snd (popRoot D (R', rs') acc)) = GCValueMap (snd acc)"
    by (simp add: popRoot_def removeRoot_def)
  show "GCDepth (snd (popRoot D (R', rs') acc)) = GCDepth (snd acc)"
    by (simp add: popRoot_def removeRoot_def)
qed

lemma fold_popRoot:
  "getRootEntry (snd (fold (popRoot D) xs acc)) R =
     (if \<exists>rs. (R, rs) \<in> set xs \<and> RootedAtDepth rs = D then None else getRootEntry (snd acc) R)"
  "set (fst (fold (popRoot D) xs acc)) =
     set (fst acc) \<union> {R. \<exists>rs. (R, rs) \<in> set xs \<and> RootedAtDepth rs = D}"
  "GCValueMap (snd (fold (popRoot D) xs acc)) = GCValueMap (snd acc)"
  "GCDepth (snd (fold (popRoot D) xs acc)) = GCDepth (snd acc)"
proof (induction xs arbitrary: acc)
  case Nil
  { case 1 show ?case by simp }
  { case 2 show ?case by simp }
  { case 3 show ?case by simp }
  { case 4 show ?case by simp }
next
  case (Cons x xs)
  obtain R' rs' where x: "x = (R', rs')" by (cases x)
  { case 1
    show ?case unfolding x fold_Cons comp_def Cons.IH(1) popRoot_step by auto }
  { case 2
    show ?case unfolding x fold_Cons comp_def Cons.IH(2) popRoot_step by auto }
  { case 3
    show ?case unfolding x fold_Cons comp_def Cons.IH(3) popRoot_step by simp }
  { case 4
    show ?case unfolding x fold_Cons comp_def Cons.IH(4) popRoot_step by simp }
qed

lemma unrootValue_fields:
  "GCRootMap (unrootValue R x st) = GCRootMap st"
  "GCDepth (unrootValue R x st) = GCDepth st"
  by (simp_all add: unrootValue_def setValue_fields)

lemma unrootValue_other:
  "k \<noteq> k' \<or> \<not> isRootedBy d' R \<Longrightarrow>
   getValue (unrootValue R (k', d') st) k = getValue st k"
  by (auto simp add: unrootValue_def getValue_setValue)

lemma unrootValue_set:
  "isRootedBy d' R \<Longrightarrow>
   \<exists>v. getValue (unrootValue R (k', d') st) k' = Some v \<and> sameValueState v getAllocated"
  by (simp add: unrootValue_def getValue_setValue_same)

lemma unrootValue_keeps:
  assumes "\<exists>v. getValue st k = Some v \<and> sameValueState v getAllocated"
  shows "\<exists>v. getValue (unrootValue R x st) k = Some v \<and> sameValueState v getAllocated"
proof (cases "isRootedBy (snd x) R \<and> k = fst x")
  case True
  then show ?thesis by (simp add: unrootValue_def getValue_setValue_same)
next
  case False
  then have "getValue (unrootValue R x st) k = getValue st k"
    by (auto simp add: unrootValue_def getValue_setValue)
  then show ?thesis using assms by simp
qed

lemma fold_unrootValue_fields:
  "GCRootMap (fold (unrootValue R) xs st) = GCRootMap st"
  "GCDepth (fold (unrootValue R) xs st) = GCDepth st"
  by (induction xs arbitrary: st) (simp_all add: unrootValue_fields)

lemma fold_unrootValue_other:
  "\<forall>d. (k, d) \<in> set xs \<longrightarrow> \<not> isRootedBy d R \<Longrightarrow>
   getValue (fold (unrootValue R) xs st) k = getValue st k"
proof (induction xs arbitrary: st)
  case Nil
  then show ?case by simp
next
  case (Cons x xs)
  obtain k' d' where x: "x = (k', d')" by (cases x)
  have "getValue (fold (unrootValue R) (x # xs) st) k =
        getValue (fold (unrootValue R) xs (unrootValue R (k', d') st)) k"
    by (simp add: x)
  also have "\<dots> = getValue (unrootValue R (k', d') st) k"
    using Cons.prems by (intro Cons.IH) simp
  also have "\<dots> = getValue st k"
    using Cons.prems x by (intro unrootValue_other) auto
  finally show ?case .
qed

lemma fold_unrootValue_keeps:
  "\<exists>v. getValue st k = Some v \<and> sameValueState v getAllocated \<Longrightarrow>
   \<exists>v. getValue (fold (unrootValue R) xs st) k = Some v \<and> sameValueState v getAllocated"
proof (induction xs arbitrary: st)
  case Nil
  then show ?case by simp
next
  case (Cons x xs)
  from unrootValue_keeps [OF Cons.prems, of R x]
  show ?case by (simp add: Cons.IH)
qed

lemma fold_unrootValue_set:
  "(k, d) \<in> set xs \<Longrightarrow> isRootedBy d R \<Longrightarrow>
   \<exists>v. getValue (fold (unrootValue R) xs st) k = Some v \<and> sameValueState v getAllocated"
proof (induction xs arbitrary: st)
  case Nil
  then show ?case by simp
next
  case (Cons x xs)
  show ?case
  proof (cases "x = (k, d)")
    case True
    from unrootValue_set [OF Cons.prems(2), of k st]
    have "\<exists>v. getValue (unrootValue R x st) k = Some v \<and> sameValueState v getAllocated"
      by (simp add: True)
    from fold_unrootValue_keeps [OF this, of R xs]
    show ?thesis by simp
  next
    case False
    then have "(k, d) \<in> set xs" using Cons.prems(1) by simp
    from Cons.IH [OF this Cons.prems(2), of "unrootValue R x st"]
    show ?thesis by simp
  qed
qed

lemma fold_unrootValues_fields:
  "GCRootMap (fold (\<lambda>r. fold (unrootValue r) VMap) Rs st) = GCRootMap st"
  "GCDepth (fold (\<lambda>r. fold (unrootValue r) VMap) Rs st) = GCDepth st"
  by (induction Rs arbitrary: st) (simp_all add: fold_unrootValue_fields)

lemma fold_unrootValues_other:
  "\<forall>R d. R \<in> set Rs \<and> (k, d) \<in> set VMap \<longrightarrow> \<not> isRootedBy d R \<Longrightarrow>
   getValue (fold (\<lambda>r. fold (unrootValue r) VMap) Rs st) k = getValue st k"
proof (induction Rs arbitrary: st)
  case Nil
  then show ?case by simp
next
  case (Cons R Rs)
  have "getValue (fold (\<lambda>r. fold (unrootValue r) VMap) (R # Rs) st) k =
        getValue (fold (\<lambda>r. fold (unrootValue r) VMap) Rs (fold (unrootValue R) VMap st)) k"
    by simp
  also have "\<dots> = getValue (fold (unrootValue R) VMap st) k"
    using Cons.prems by (intro Cons.IH) simp
  also have "\<dots> = getValue st k"
    using Cons.prems by (intro fold_unrootValue_other) simp
  finally show ?case .
qed

lemma fold_unrootValues_keeps:
  "\<exists>v. getValue st k = Some v \<and> sameValueState v getAllocated \<Longrightarrow>
   \<exists>v. getValue (fold (\<lambda>r. fold (unrootValue r) VMap) Rs st) k = Some v \<and>
       sameValueState v getAllocated"
proof (induction Rs arbitrary: st)
  case Nil
  then show ?case by simp
next
  case (Cons R Rs)
  have "\<exists>v. getValue (fold (unrootValue R) VMap st) k = Some v \<and> sameValueState v getAllocated"
    using Cons.prems by (rule fold_unrootValue_keeps)
  from Cons.IH [OF this]
  show ?case by simp
qed

lemma fold_unrootValues_set:
  "R \<in> set Rs \<Longrightarrow> (k, d) \<in> set VMap \<Longrightarrow> isRootedBy d R \<Longrightarrow>
   \<exists>v. getValue (fold (\<lambda>r. fold (unrootValue r) VMap) Rs st) k = Some v \<and>
       sameValueState v getAllocated"
proof (induction Rs arbitrary: st)
  case Nil
  then show ?case by simp
next
  case (Cons R' Rs)
  show ?case
  proof (cases "R' = R")
    case True
    have "\<exists>v. getValue (fold (unrootValue R') VMap st) k = Some v \<and> sameValueState v getAllocated"
      unfolding True using Cons.prems(2,3) by (rule fold_unrootValue_set)
    from fold_unrootValues_keeps [OF this, of VMap Rs]
    show ?thesis by simp
  next
    case False
    then have "R \<in> set Rs" using Cons.prems(1) by simp
    from Cons.IH [OF this Cons.prems(2,3), of "fold (unrootValue R') VMap st"]
    show ?thesis by simp
  qed
qed

lemma fold_unrootValues_Some:
  "fold (unrootValues VMap) (map Some Rs) (Some st) =
     Some (fold (\<lambda>r. fold (unrootValue r) VMap) Rs st)"
  by (induction Rs arbitrary: st) (simp_all add: unrootValues_def)

lemma map_Some_the: "None \<notin> set xs \<Longrightarrow> map Some (map the xs) = xs"
  by (induction xs) auto

lemma sint_pred_not_minus_one: "(w :: 32 word) \<noteq> 0 \<Longrightarrow> sint (w - 1) \<noteq> - 1"
  by (metis (no_types, lifting) add_neg_numeral_special(8) diff_add_cancel
      signed_minus_1 word_eq_iff_signed)

text \<open>
  What \<open>evalPop\<close> does at a depth that is not 0, on maps without duplicate keys, when
  the null region is not registered at the depth that is popped.
\<close>

lemma evalPop_pops:
  assumes depth: "GCDepth (getState C) \<noteq> 0"
    and dv: "distinct (map fst (GCValueMap (getState C)))"
    and dr: "distinct (map fst (GCRootMap (getState C)))"
    and nonull: "\<forall>rs. getRootEntry (getState C) None = Some rs \<longrightarrow>
                   RootedAtDepth rs \<noteq> sint (GCDepth (getState C) - 1)"
  shows "\<exists>st'. evalPop C = Some \<lparr>transitions = [st'], reported = []\<rparr> \<and>
     GCDepth st' = GCDepth (getState C) - 1 \<and>
     (\<forall>R. getRootEntry st' R =
        (case getRootEntry (getState C) R of
           None \<Rightarrow> None
         | Some rs \<Rightarrow> if RootedAtDepth rs = sint (GCDepth (getState C) - 1) then None else Some rs)) \<and>
     (\<forall>k d. getValue (getState C) k = Some d \<longrightarrow>
        (if \<exists>R rs. getRootState (getState C) R = Some rs \<and>
              RootedAtDepth rs = sint (GCDepth (getState C) - 1) \<and> isRootedBy d R
         then \<exists>v. getValue st' k = Some v \<and> sameValueState v getAllocated
         else getValue st' k = Some d)) \<and>
     (\<forall>k. getValue (getState C) k = None \<longrightarrow> getValue st' k = None)"
proof -
  let ?st = "getState C"
  let ?D = "sint (GCDepth ?st - 1)"
  let ?start = "?st\<lparr>GCDepth := GCDepth ?st - 1\<rparr>"
  let ?p = "fold (popRoot ?D) (GCRootMap ?start) ([], ?start)"
  let ?Rs = "map the (fst ?p)"
  let ?st' = "fold (\<lambda>r. fold (unrootValue r) (GCValueMap ?st)) ?Rs (snd ?p)"
  have vm: "GCValueMap (snd ?p) = GCValueMap ?st" by (simp add: fold_popRoot)
  have popped: "set (fst ?p) = {R. \<exists>rs. getRootEntry ?st R = Some rs \<and> RootedAtDepth rs = ?D}"
    using dr by (simp add: fold_popRoot getRootEntry_def)
  have "None \<notin> set (fst ?p)"
    unfolding popped using nonull by simp
  then have rsome: "map Some ?Rs = fst ?p"
    by (rule map_Some_the)
  have Rs: "set ?Rs = {R. \<exists>rs. getRootState ?st R = Some rs \<and> RootedAtDepth rs = ?D}"
  proof -
    have "set ?Rs = {R. Some R \<in> set (map Some ?Rs)}" by auto
    also have "\<dots> = {R. Some R \<in> set (fst ?p)}" unfolding rsome ..
    finally show ?thesis unfolding popped by (simp add: getRootState_def)
  qed
  have "fold (unrootValues (GCValueMap (snd ?p))) (fst ?p) (Some (snd ?p)) = Some ?st'"
    unfolding vm using fold_unrootValues_Some [of "GCValueMap ?st" ?Rs "snd ?p"]
    unfolding rsome .
  then have run: "evalPop C = Some \<lparr>transitions = [?st'], reported = []\<rparr>"
    using depth by (simp add: evalPop_def Let_def case_prod_beta addTransition_def noEffects_def)
  have d: "GCDepth ?st' = GCDepth ?st - 1"
    by (simp add: fold_unrootValues_fields fold_popRoot)
  have r: "getRootEntry ?st' R =
        (case getRootEntry ?st R of
           None \<Rightarrow> None
         | Some rs \<Rightarrow> if RootedAtDepth rs = ?D then None else Some rs)" for R
  proof -
    have "getRootEntry ?st' R = getRootEntry (snd ?p) R"
      by (simp add: getRootEntry_def fold_unrootValues_fields)
    also have "\<dots> = (if \<exists>rs. (R, rs) \<in> set (GCRootMap ?st) \<and> RootedAtDepth rs = ?D then None
                      else getRootEntry ?start R)"
      by (auto simp add: fold_popRoot)
    also have "getRootEntry ?start R = getRootEntry ?st R"
      by (simp add: getRootEntry_def)
    finally have "getRootEntry ?st' R =
        (if \<exists>rs. (R, rs) \<in> set (GCRootMap ?st) \<and> RootedAtDepth rs = ?D then None
         else getRootEntry ?st R)" .
    also have "\<dots> = (case getRootEntry ?st R of
           None \<Rightarrow> None
         | Some rs \<Rightarrow> if RootedAtDepth rs = ?D then None else Some rs)"
      using dr by (auto simp add: getRootEntry_def split: option.splits dest: eq_key_imp_eq_value)
    finally show ?thesis .
  qed
  have same: "getValue (snd ?p) k = getValue ?st k" for k
    by (simp add: getValue_def fold_popRoot)
  have v: "if \<exists>R rs. getRootState ?st R = Some rs \<and> RootedAtDepth rs = ?D \<and> isRootedBy d R
           then \<exists>v. getValue ?st' k = Some v \<and> sameValueState v getAllocated
           else getValue ?st' k = Some d"
    if g: "getValue ?st k = Some d" for k d
  proof (cases "\<exists>R rs. getRootState ?st R = Some rs \<and> RootedAtDepth rs = ?D \<and> isRootedBy d R")
    case True
    then obtain R where R: "R \<in> set ?Rs" "isRootedBy d R"
      unfolding Rs by auto
    have "(k, d) \<in> set (GCValueMap ?st)"
      using g by (simp add: getValue_def map_of_SomeD)
    from fold_unrootValues_set [OF R(1) this R(2), of "snd ?p"]
    have "\<exists>v. getValue ?st' k = Some v \<and> sameValueState v getAllocated" .
    then show ?thesis by (simp only: True if_True)
  next
    case False
    have "\<And>d'. (k, d') \<in> set (GCValueMap ?st) \<Longrightarrow> d' = d"
      using g dv by (auto simp add: getValue_def dest: eq_key_imp_eq_value map_of_SomeD)
    then have "\<forall>R d'. R \<in> set ?Rs \<and> (k, d') \<in> set (GCValueMap ?st) \<longrightarrow> \<not> isRootedBy d' R"
      using False unfolding Rs by auto
    from fold_unrootValues_other [OF this, of "snd ?p"] g
    have "getValue ?st' k = Some d"
      unfolding same by simp
    then show ?thesis by (simp only: False if_False)
  qed
  have n: "getValue ?st' k = None" if g: "getValue ?st k = None" for k
  proof -
    have "\<And>d. (k, d) \<notin> set (GCValueMap ?st)"
      using g by (auto simp add: getValue_def map_of_eq_None_iff intro: rev_image_eqI)
    then have "\<forall>R d'. R \<in> set ?Rs \<and> (k, d') \<in> set (GCValueMap ?st) \<longrightarrow> \<not> isRootedBy d' R"
      by simp
    from fold_unrootValues_other [OF this, of "snd ?p"] g
    show ?thesis unfolding same by simp
  qed
  from run d r v n show ?thesis by blast
qed

lemma evalCall_pop:
  "getOriginExpr Call = Some (CallExprOrigin CE) \<Longrightarrow> getCalleeName CE = ''JL_GC_POP'' \<Longrightarrow>
   evalCall Call C = map_option (Pair True) (evalPop C)"
  by (simp add: evalCall_def)

text \<open>
  C3. \<open>evalCall\<close> on a call to \<open>JL_GC_POP\<close>. At \<open>GCDepth\<close> 0 it adds no transition, so the
  state stays as it was, and makes the one report \<open>JL_GC_POP without corresponding push\<close>,
  which \<open>report_error\<close> emits when the analyser gives it an error node. At another depth, on
  maps without duplicate keys in which the null region, if it is registered at all, is
  registered at depth -1 (where \<open>checkBeginFunction\<close> registers it), it adds one
  transition and makes no report; in the new state the depth is one less, the root map
  has lost exactly the entries whose \<open>RootedAtDepth\<close> is the new depth (read as an
  \<open>int\<close>), every value that was rooted by the region of such an entry has the state
  \<open>Allocated\<close> (with a null root and depth -1) and every other value has the state it
  had; hence no value is left \<open>Rooted\<close> with a region that was popped as its root.
\<close>

theorem pop_frame:
  assumes origin: "getOriginExpr Call = Some (CallExprOrigin CE)"
    and name: "getCalleeName CE = ''JL_GC_POP''"
  shows "(GCDepth (getState C) = 0 \<longrightarrow>
            evalCall Call C =
              Some (True, \<lparr>transitions = [],
                           reported = (if generateErrorNode C noEffects
                                       then [BugReport ''JL_GC_POP without corresponding push'' None []]
                                       else [])\<rparr>)) \<and>
         (GCDepth (getState C) \<noteq> 0 \<and>
          distinct (map fst (GCValueMap (getState C))) \<and>
          distinct (map fst (GCRootMap (getState C))) \<and>
          (\<forall>rs. getRootEntry (getState C) None = Some rs \<longrightarrow> RootedAtDepth rs = - 1) \<longrightarrow>
            (\<exists>st'. evalCall Call C = Some (True, \<lparr>transitions = [st'], reported = []\<rparr>) \<and>
               GCDepth st' = GCDepth (getState C) - 1 \<and>
               (\<forall>R. getRootEntry st' R =
                  (case getRootEntry (getState C) R of
                     None \<Rightarrow> None
                   | Some rs \<Rightarrow>
                       if RootedAtDepth rs = sint (GCDepth (getState C) - 1) then None
                       else Some rs)) \<and>
               (\<forall>k d. getValue (getState C) k = Some d \<longrightarrow>
                  (if \<exists>R rs. getRootState (getState C) R = Some rs \<and>
                        RootedAtDepth rs = sint (GCDepth (getState C) - 1) \<and>
                        S d = Rooted \<and> Root d = Some R
                   then \<exists>v. getValue st' k = Some v \<and> S v = Allocated \<and>
                            Root v = None \<and> RootDepth v = - 1
                   else getValue st' k = Some d)) \<and>
               (\<forall>k. getValue (getState C) k = None \<longrightarrow> getValue st' k = None) \<and>
               (\<forall>R rs k d. getRootState (getState C) R = Some rs \<and>
                    RootedAtDepth rs = sint (GCDepth (getState C) - 1) \<and>
                    getValue st' k = Some d \<longrightarrow> \<not> (S d = Rooted \<and> Root d = Some R))))"
proof (intro conjI impI)
  assume "GCDepth (getState C) = 0"
  then show "evalCall Call C =
      Some (True, \<lparr>transitions = [],
                   reported = (if generateErrorNode C noEffects
                               then [BugReport ''JL_GC_POP without corresponding push'' None []]
                               else [])\<rparr>)"
    by (simp add: evalCall_pop [OF origin name] evalPop_def report_error_def noEffects_def)
next
  let ?st = "getState C"
  let ?D = "sint (GCDepth ?st - 1)"
  assume a: "GCDepth ?st \<noteq> 0 \<and> distinct (map fst (GCValueMap ?st)) \<and>
             distinct (map fst (GCRootMap ?st)) \<and>
             (\<forall>rs. getRootEntry ?st None = Some rs \<longrightarrow> RootedAtDepth rs = - 1)"
  have rb: "isRootedBy d R \<longleftrightarrow> S d = Rooted \<and> Root d = Some R" for d R
    by (auto simp add: isRootedBy_def isRooted_def)
  have al: "S v = Allocated \<and> Root v = None \<and> RootDepth v = - 1"
    if "sameValueState v getAllocated" for v
    using that by (simp add: vs_defs)
  from a have a1: "GCDepth ?st \<noteq> 0" and a2: "distinct (map fst (GCValueMap ?st))"
    and a3: "distinct (map fst (GCRootMap ?st))"
    and a4: "\<forall>rs. getRootEntry ?st None = Some rs \<longrightarrow> RootedAtDepth rs = - 1"
    by simp_all
  have a5: "\<forall>rs. getRootEntry ?st None = Some rs \<longrightarrow> RootedAtDepth rs \<noteq> ?D"
    using a4 sint_pred_not_minus_one [OF a1] by auto
  from evalPop_pops [OF a1 a2 a3 a5] obtain st' where
    run: "evalPop C = Some \<lparr>transitions = [st'], reported = []\<rparr>"
    and d: "GCDepth st' = GCDepth ?st - 1"
    and r: "\<forall>R. getRootEntry st' R =
              (case getRootEntry ?st R of
                 None \<Rightarrow> None
               | Some rs \<Rightarrow> if RootedAtDepth rs = ?D then None else Some rs)"
    and v: "\<forall>k d. getValue ?st k = Some d \<longrightarrow>
              (if \<exists>R rs. getRootState ?st R = Some rs \<and> RootedAtDepth rs = ?D \<and> isRootedBy d R
               then \<exists>v. getValue st' k = Some v \<and> sameValueState v getAllocated
               else getValue st' k = Some d)"
    and n: "\<forall>k. getValue ?st k = None \<longrightarrow> getValue st' k = None"
    by (elim exE conjE) (rule that)
  have v': "if \<exists>R rs. getRootState ?st R = Some rs \<and> RootedAtDepth rs = ?D \<and>
                 S d = Rooted \<and> Root d = Some R
            then \<exists>v. getValue st' k = Some v \<and> S v = Allocated \<and> Root v = None \<and>
                     RootDepth v = - 1
            else getValue st' k = Some d"
    if g: "getValue ?st k = Some d" for k d
    using v [rule_format, OF g] al unfolding rb by (auto split: if_splits)
  have none: "\<not> (S d = Rooted \<and> Root d = Some R)"
    if root: "getRootState ?st R = Some rs" "RootedAtDepth rs = ?D"
      and val: "getValue st' k = Some d" for R rs k d
  proof (cases "getValue ?st k")
    case None
    with n val show ?thesis by simp
  next
    case (Some d0)
    show ?thesis
    proof (cases "\<exists>R rs. getRootState ?st R = Some rs \<and> RootedAtDepth rs = ?D \<and>
                    S d0 = Rooted \<and> Root d0 = Some R")
      case True
      with v' [OF Some] val have "S d = Allocated" by auto
      then show ?thesis by simp
    next
      case False
      with v' [OF Some] val have "d = d0" by auto
      with False root show ?thesis by blast
    qed
  qed
  from run d r v' n none
  show "\<exists>st'. evalCall Call C = Some (True, \<lparr>transitions = [st'], reported = []\<rparr>) \<and>
               GCDepth st' = GCDepth ?st - 1 \<and>
               (\<forall>R. getRootEntry st' R =
                  (case getRootEntry ?st R of
                     None \<Rightarrow> None
                   | Some rs \<Rightarrow> if RootedAtDepth rs = ?D then None else Some rs)) \<and>
               (\<forall>k d. getValue ?st k = Some d \<longrightarrow>
                  (if \<exists>R rs. getRootState ?st R = Some rs \<and> RootedAtDepth rs = ?D \<and>
                        S d = Rooted \<and> Root d = Some R
                   then \<exists>v. getValue st' k = Some v \<and> S v = Allocated \<and>
                            Root v = None \<and> RootDepth v = - 1
                   else getValue st' k = Some d)) \<and>
               (\<forall>k. getValue ?st k = None \<longrightarrow> getValue st' k = None) \<and>
               (\<forall>R rs k d. getRootState ?st R = Some rs \<and> RootedAtDepth rs = ?D \<and>
                    getValue st' k = Some d \<longrightarrow> \<not> (S d = Rooted \<and> Root d = Some R))"
    unfolding evalCall_pop [OF origin name] by auto
qed

theorem pop_frame_witness:
  "getOriginExpr exPopCall
     = Some (CallExprOrigin (exCallExpr (exFunction ''JL_GC_POP'' [''julia_not_safepoint''] []) 0)) \<and>
   getCalleeName (exCallExpr (exFunction ''JL_GC_POP'' [''julia_not_safepoint''] []) 0)
     = ''JL_GC_POP'' \<and>
   GCDepth (getState (exContext (exState [] []))) = 0 \<and>
   generateErrorNode (exContext (exState [] [])) noEffects \<and>
   evalCall exPopCall (exContext (exState [] [])) =
     Some (True, \<lparr>transitions = [],
                  reported = [BugReport ''JL_GC_POP without corresponding push'' None []]\<rparr>) \<and>
   GCDepth (getState (exContext exNullRootState)) = 1 \<and>
   distinct (map fst (GCValueMap (getState (exContext exNullRootState)))) \<and>
   distinct (map fst (GCRootMap (getState (exContext exNullRootState)))) \<and>
   getRootEntry (getState (exContext exNullRootState)) None = Some (getRoot (- 1)) \<and>
   RootedAtDepth (getRoot (- 1)) = - 1 \<and>
   getRootState (getState (exContext exNullRootState)) exLocal = Some (getRoot 0) \<and>
   RootedAtDepth (getRoot 0) = 0 \<and>
   getValue (getState (exContext exNullRootState)) (exSym 1) = Some (getRooted (Some exLocal) 0) \<and>
   S (getRooted (Some exLocal) 0) = Rooted \<and>
   Root (getRooted (Some exLocal) 0) = Some exLocal \<and>
   getValue (getState (exContext exNullRootState)) (exSym 2) = Some (getRooted None (- 1)) \<and>
   (\<exists>st'. evalCall exPopCall (exContext exNullRootState)
             = Some (True, \<lparr>transitions = [st'], reported = []\<rparr>) \<and>
      GCDepth st' = 0 \<and>
      getRootEntry st' (Some exLocal) = None \<and>
      getRootEntry st' None = Some (getRoot (- 1)) \<and>
      (\<exists>v. getValue st' (exSym 1) = Some v \<and> S v = Allocated \<and> Root v = None \<and>
           RootDepth v = - 1) \<and>
      getValue st' (exSym 2) = Some (getRooted None (- 1)) \<and>
      getValue st' (exSym 3) = None)"
proof -
  let ?CE = "exCallExpr (exFunction ''JL_GC_POP'' [''julia_not_safepoint''] []) 0"
  let ?C = "exContext exNullRootState"
  let ?D = "sint (GCDepth (getState ?C) - 1)"
  have o: "getOriginExpr exPopCall = Some (CallExprOrigin ?CE)"
    by (simp add: exPopCall_def ex_defs)
  have n: "getCalleeName ?CE = ''JL_GC_POP''"
    by (simp add: getCalleeName_def ex_defs)
  have z: "GCDepth (getState (exContext (exState [] []))) = 0"
    by (simp add: ex_defs)
  have node: "generateErrorNode (exContext (exState [] [])) noEffects"
    by (simp add: ex_defs noEffects_def)
  have st: "getState ?C = exNullRootState" by (simp add: ex_defs)
  have p: "GCDepth (getState ?C) \<noteq> 0 \<and>
    distinct (map fst (GCValueMap (getState ?C))) \<and>
    distinct (map fst (GCRootMap (getState ?C))) \<and>
    (\<forall>rs. getRootEntry (getState ?C) None = Some rs \<longrightarrow> RootedAtDepth rs = - 1)"
    by (simp add: st exNullRootState_def exFrameState_def ex_defs exLocal_def getRootEntry_def
        getRoot_def)
  have p1: "GCDepth (getState ?C) = 1"
    by (simp add: st exNullRootState_def exFrameState_def ex_defs)
  have D: "?D = 0" by (simp add: p1)
  have rm: "getRootEntry (getState ?C) R =
      (if R = None then Some (getRoot (- 1))
       else if R = Some exLocal then Some (getRoot 0) else None)" for R
    by (simp add: st getRootEntry_def exNullRootState_def exFrameState_def ex_defs)
  have rs: "getRootState (getState ?C) exLocal = Some (getRoot 0)"
    by (simp add: getRootState_def rm)
  have rsm: "getRootState (getState ?C) R = (if R = exLocal then Some (getRoot 0) else None)" for R
    by (simp add: getRootState_def rm)
  have v1: "getValue (getState ?C) (exSym 1) = Some (getRooted (Some exLocal) 0)"
    and v2: "getValue (getState ?C) (exSym 2) = Some (getRooted None (- 1))"
    and v3: "getValue (getState ?C) (exSym 3) = None"
    by (simp_all add: st getValue_def exNullRootState_def exFrameState_def ex_defs)
  have f: "RootedAtDepth (getRoot 0) = 0" "S (getRooted (Some exLocal) 0) = Rooted"
    "Root (getRooted (Some exLocal) 0) = Some exLocal" "Root (getRooted None (- 1)) = None"
    "RootedAtDepth (getRoot (- 1)) = - 1"
    by (simp_all add: getRoot_def vs_defs)
  have e1: "evalCall exPopCall (exContext (exState [] [])) =
     Some (True, \<lparr>transitions = [],
                  reported = [BugReport ''JL_GC_POP without corresponding push'' None []]\<rparr>)"
    using pop_frame [OF o n, of "exContext (exState [] [])", THEN conjunct1] z node by simp
  from pop_frame [OF o n, of ?C, THEN conjunct2, rule_format, OF p] obtain st' where
    run: "evalCall exPopCall ?C = Some (True, \<lparr>transitions = [st'], reported = []\<rparr>)"
    and d: "GCDepth st' = GCDepth (getState ?C) - 1"
    and r: "\<forall>R. getRootEntry st' R =
              (case getRootEntry (getState ?C) R of
                 None \<Rightarrow> None
               | Some rs \<Rightarrow> if RootedAtDepth rs = ?D then None else Some rs)"
    and v: "\<forall>k d. getValue (getState ?C) k = Some d \<longrightarrow>
              (if \<exists>R rs. getRootState (getState ?C) R = Some rs \<and> RootedAtDepth rs = ?D \<and>
                    S d = Rooted \<and> Root d = Some R
               then \<exists>v. getValue st' k = Some v \<and> S v = Allocated \<and> Root v = None \<and>
                        RootDepth v = - 1
               else getValue st' k = Some d)"
    and nn: "\<forall>k. getValue (getState ?C) k = None \<longrightarrow> getValue st' k = None"
    by (elim exE conjE) (rule that)
  have "GCDepth st' = 0" using d p1 by simp
  moreover have "getRootEntry st' (Some exLocal) = None"
    using r [rule_format, of "Some exLocal"] by (simp add: rm D f)
  moreover have "getRootEntry st' None = Some (getRoot (- 1))"
    using r [rule_format, of None] by (simp add: rm D f)
  moreover have "\<exists>v. getValue st' (exSym 1) = Some v \<and> S v = Allocated \<and> Root v = None \<and>
      RootDepth v = - 1"
  proof -
    have "\<exists>R rs. getRootState (getState ?C) R = Some rs \<and> RootedAtDepth rs = ?D \<and>
            S (getRooted (Some exLocal) 0) = Rooted \<and>
            Root (getRooted (Some exLocal) 0) = Some R"
      using rs D f by (intro exI [of _ exLocal] exI [of _ "getRoot 0"]) simp
    with v [rule_format, OF v1] show ?thesis by (simp only: if_True)
  qed
  moreover have "getValue st' (exSym 2) = Some (getRooted None (- 1))"
  proof -
    have "\<not> (\<exists>R rs. getRootState (getState ?C) R = Some rs \<and> RootedAtDepth rs = ?D \<and>
            S (getRooted None (- 1)) = Rooted \<and> Root (getRooted None (- 1)) = Some R)"
      by (auto simp add: rsm f)
    with v [rule_format, OF v2] show ?thesis by (simp only: if_False)
  qed
  moreover have "getValue st' (exSym 3) = None"
    using nn v3 by simp
  ultimately show ?thesis using o n z node e1 p p1 rm [of None] rs v1 v2 f run by simp
qed

subsection \<open>Switching GC on and off\<close>

text \<open>
  C6, as the claim states it, fails: in the top frame, whose stack height is 1, the call
  \<open>jl_gc_enable(0)\<close> leaves \<open>GCDisabledAt\<close> at \<open>(unsigned)-2\<close>, which is 4294967294 and not the
  height of the stack.
\<close>

theorem toggle_gc_not_at_stack_height:
  "getStackFrameHeight (Some (getStackFrame (exContext (exEnvState (exState [] []) (ConcreteInt 0))))) = 1 \<and>
   (\<exists>st'. evalCall exGcEnableCall (exContext (exEnvState (exState [] []) (ConcreteInt 0)))
             = Some (True, \<lparr>transitions = [st'], reported = []\<rparr>) \<and>
      GCDisabledAt st' = 4294967294 \<and>
      GCDisabledAt st' \<noteq>
        getStackFrameHeight (Some (getStackFrame (exContext (exEnvState (exState [] []) (ConcreteInt 0))))))"
  by (simp add: evalCall_def evalGcEnable_def exGcEnableCall_def exEnvState_def ex_defs
      getCalleeName_def getArg_def getSVal_def addTransition_def noEffects_def BindExpr_def
      gcEnabledHere_def makeTruthVal_def)

text \<open>
  C6, amended. \<open>evalCall\<close> on a call to \<open>jl_gc_enable\<close> or \<open>ijl_gc_enable\<close> whose argument is
  the concrete integer \<open>v\<close> adds one transition and asks for no report. In the new state
  \<open>GCDisabledAt\<close> is the fixed marker \<open>(unsigned)-2\<close> when \<open>v\<close> is 0, whatever the height of
  the stack, and the enabled marker \<open>(unsigned)-1\<close> otherwise, so GC is enabled exactly
  when \<open>v\<close> is not 0; and the call expression is bound to the truth value of "GC was
  enabled in the incoming state".
\<close>

theorem toggle_gc:
  assumes origin: "getOriginExpr Call = Some (CallExprOrigin CE)"
    and name: "getCalleeName CE = ''jl_gc_enable'' \<or> getCalleeName CE = ''ijl_gc_enable''"
    and arg: "getArg CE 0 = Some a"
    and val: "getSVal C a = ConcreteInt v"
  shows "\<exists>st'. evalCall Call C = Some (True, \<lparr>transitions = [st'], reported = []\<rparr>) \<and>
           GCDisabledAt st' = (if v = 0 then - 2 else - 1) \<and>
           gcEnabledHere st' = (v \<noteq> 0) \<and>
           Env st' (ceId CE) = ConcreteInt (if gcEnabledHere (getState C) then 1 else 0)"
proof -
  have "evalCall Call C = map_option (Pair True) (evalGcEnable CE C)"
    using origin name by (auto simp add: evalCall_def)
  then show ?thesis
    using arg val
    by (simp add: evalGcEnable_def addTransition_def noEffects_def BindExpr_def
        gcEnabledHere_def makeTruthVal_def Let_def)
qed

theorem toggle_gc_witness:
  "getOriginExpr exGcEnableCall
     = Some (CallExprOrigin (exCallExpr (exFunction ''jl_gc_enable'' [] [exParam ''on'' BuiltinType []]) 1)) \<and>
   getCalleeName (exCallExpr (exFunction ''jl_gc_enable'' [] [exParam ''on'' BuiltinType []]) 1)
     = ''jl_gc_enable'' \<and>
   getArg (exCallExpr (exFunction ''jl_gc_enable'' [] [exParam ''on'' BuiltinType []]) 1) 0
     = Some (OtherExpr 0 jl_value_p) \<and>
   getSVal (exContext (exEnvState (exState [] []) (ConcreteInt 0))) (OtherExpr 0 jl_value_p)
     = ConcreteInt 0 \<and>
   gcEnabledHere (getState (exContext (exEnvState (exState [] []) (ConcreteInt 0)))) \<and>
   (\<exists>st'. evalCall exGcEnableCall (exContext (exEnvState (exState [] []) (ConcreteInt 0)))
             = Some (True, \<lparr>transitions = [st'], reported = []\<rparr>) \<and>
      GCDisabledAt st' = - 2 \<and> \<not> gcEnabledHere st' \<and> Env st' 100 = ConcreteInt 1)"
proof -
  let ?CE = "exCallExpr (exFunction ''jl_gc_enable'' [] [exParam ''on'' BuiltinType []]) 1"
  let ?C = "exContext (exEnvState (exState [] []) (ConcreteInt 0))"
  have o: "getOriginExpr exGcEnableCall = Some (CallExprOrigin ?CE)"
    by (simp add: exGcEnableCall_def ex_defs)
  have n: "getCalleeName ?CE = ''jl_gc_enable'' \<or> getCalleeName ?CE = ''ijl_gc_enable''"
    by (simp add: getCalleeName_def ex_defs)
  have n': "getCalleeName ?CE = ''jl_gc_enable''"
    by (simp add: getCalleeName_def ex_defs)
  have a: "getArg ?CE 0 = Some (OtherExpr 0 jl_value_p)"
    by (simp add: getArg_def ex_defs)
  have v: "getSVal ?C (OtherExpr 0 jl_value_p) = ConcreteInt 0"
    by (simp add: getSVal_def exEnvState_def ex_defs)
  have g: "gcEnabledHere (getState ?C)"
    by (simp add: gcEnabledHere_def exEnvState_def ex_defs)
  have i: "ceId ?CE = 100" by (simp add: ex_defs)
  from toggle_gc [OF o n a v] g i
  have "\<exists>st'. evalCall exGcEnableCall ?C = Some (True, \<lparr>transitions = [st'], reported = []\<rparr>) \<and>
      GCDisabledAt st' = - 2 \<and> \<not> gcEnabledHere st' \<and> Env st' 100 = ConcreteInt 1"
    by simp
  with o n' a v g show ?thesis by blast
qed

subsection \<open>\<open>JL_GC_PROMISE_ROOTED\<close>\<close>

lemma reported_addTransition: "reported (addTransition st e) = reported e"
  by (simp add: addTransition_def)

lemma reported_report_error_notes:
  "reported (report_error_notes C ns m e) =
     (if generateErrorNode C e then reported e @ [BugReport m None ns] else reported e)"
  by (simp add: report_error_notes_def)

text \<open>
  C10. For a call that resolves to a function named \<open>JL_GC_PROMISE_ROOTED\<close>, in a frame
  that runs a function, \<open>checkPreCall\<close> returns before the loop over the arguments: none
  of its reports is about a value (a symbol), whatever the states of the arguments.
  \<open>evalCall\<close> on a call expression whose callee has that name then sets the state of the
  first argument's symbol in one transition and makes no report; in the new state the
  symbol is \<open>Rooted\<close> with a null root and depth -1. When the argument has no symbol it
  adds no transition and makes the one report \<open>Can not understand this promise.\<close>, which
  \<open>report_error\<close> emits when the analyser gives it an error node.
\<close>

theorem promise_rooted:
  "(getDecl Call = Some D \<and> getAsFunction D = Some fd \<and>
    fdName fd = Some ''JL_GC_PROMISE_ROOTED'' \<and> getFrameDecl C = Some frameFD \<longrightarrow>
      (\<exists>e. checkPreCall Call C = Some e \<and>
           (\<forall>m s ns. BugReport m (Some s) ns \<notin> set (reported e)))) \<and>
   (getOriginExpr Call = Some (CallExprOrigin CE) \<and>
    getCalleeName CE = ''JL_GC_PROMISE_ROOTED'' \<and> getArg CE 0 = Some a \<longrightarrow>
      (case getAsSymbol (getSVal C a) False of
         Some Sym \<Rightarrow>
           evalCall Call C =
             Some (True, \<lparr>transitions = [setValue Sym (getRooted None (- 1)) (getState C)],
                          reported = []\<rparr>) \<and>
           (\<exists>vs. getValue (setValue Sym (getRooted None (- 1)) (getState C)) Sym = Some vs \<and>
                 S vs = Rooted \<and> Root vs = None \<and> RootDepth vs = - 1)
       | None \<Rightarrow>
           evalCall Call C =
             Some (True, \<lparr>transitions = [],
                          reported = (if generateErrorNode C noEffects
                                      then [BugReport ''Can not understand this promise.'' None []]
                                      else [])\<rparr>)))"
proof (intro conjI impI)
  assume a: "getDecl Call = Some D \<and> getAsFunction D = Some fd \<and>
    fdName fd = Some ''JL_GC_PROMISE_ROOTED'' \<and> getFrameDecl C = Some frameFD"
  show "\<exists>e. checkPreCall Call C = Some e \<and>
           (\<forall>m s ns. BugReport m (Some s) ns \<notin> set (reported e))"
  proof (cases "gcEnabledHere (getState C)")
    case False
    then show ?thesis by (simp add: checkPreCall_def noEffects_def)
  next
    case True
    with a show ?thesis
      by (auto simp add: checkPreCall_def leaveNotSafepoint_def Let_def noEffects_def
          reported_addTransition reported_report_error_notes)
  qed
next
  assume a: "getOriginExpr Call = Some (CallExprOrigin CE) \<and>
    getCalleeName CE = ''JL_GC_PROMISE_ROOTED'' \<and> getArg CE 0 = Some a"
  have r: "\<exists>vs. getValue (setValue Sym (getRooted None (- 1)) (getState C)) Sym = Some vs \<and>
                 S vs = Rooted \<and> Root vs = None \<and> RootDepth vs = - 1" for Sym
    using getValue_setValue_same [of Sym "getRooted None (- 1)" "getState C"]
    by (auto simp add: vs_defs)
  from a show "case getAsSymbol (getSVal C a) False of
         Some Sym \<Rightarrow>
           evalCall Call C =
             Some (True, \<lparr>transitions = [setValue Sym (getRooted None (- 1)) (getState C)],
                          reported = []\<rparr>) \<and>
           (\<exists>vs. getValue (setValue Sym (getRooted None (- 1)) (getState C)) Sym = Some vs \<and>
                 S vs = Rooted \<and> Root vs = None \<and> RootDepth vs = - 1)
       | None \<Rightarrow>
           evalCall Call C =
             Some (True, \<lparr>transitions = [],
                          reported = (if generateErrorNode C noEffects
                                      then [BugReport ''Can not understand this promise.'' None []]
                                      else [])\<rparr>)"
    by (simp add: evalCall_def evalPromiseRooted_def addTransition_def noEffects_def
        report_error_def r split: option.splits)
qed

theorem promise_rooted_witness:
  "getDecl exPromiseCall
     = Some (exDecl (exFunction ''JL_GC_PROMISE_ROOTED'' [''julia_not_safepoint'']
                       [exParam ''v'' (PointerType BuiltinType) []])) \<and>
   fdName (exFunction ''JL_GC_PROMISE_ROOTED'' [''julia_not_safepoint'']
             [exParam ''v'' (PointerType BuiltinType) []]) = Some ''JL_GC_PROMISE_ROOTED'' \<and>
   getFrameDecl (exContext exPromiseState) = Some (exFunction ''caller'' [] []) \<and>
   gcEnabledHere (getState (exContext exPromiseState)) \<and>
   argumentSymbol (argSVals exPromiseCall ! 0) = Some (exSym 1) \<and>
   getValue (getState (exContext exPromiseState)) (exSym 1) = Some getFreed \<and>
   S getFreed = PotentiallyFreed \<and>
   (\<exists>e. checkPreCall exPromiseCall (exContext exPromiseState) = Some e \<and>
        (\<forall>m s ns. BugReport m (Some s) ns \<notin> set (reported e))) \<and>
   getCalleeName (exCallExpr (exFunction ''JL_GC_PROMISE_ROOTED'' [''julia_not_safepoint'']
                                [exParam ''v'' (PointerType BuiltinType) []]) 1)
     = ''JL_GC_PROMISE_ROOTED'' \<and>
   getAsSymbol (getSVal (exContext exPromiseState) (OtherExpr 0 jl_value_p)) False
     = Some (exSym 1) \<and>
   (\<exists>st' vs. evalCall exPromiseCall (exContext exPromiseState) =
        Some (True, \<lparr>transitions = [st'], reported = []\<rparr>) \<and>
      getValue st' (exSym 1) = Some vs \<and>
      S vs = Rooted \<and> Root vs = None \<and> RootDepth vs = - 1) \<and>
   getAsSymbol (getSVal (exContext (exState [] [])) (OtherExpr 0 jl_value_p)) False = None \<and>
   generateErrorNode (exContext (exState [] [])) noEffects \<and>
   evalCall exPromiseCall (exContext (exState [] [])) =
     Some (True, \<lparr>transitions = [],
                  reported = [BugReport ''Can not understand this promise.'' None []]\<rparr>)"
proof -
  let ?fd = "exFunction ''JL_GC_PROMISE_ROOTED'' [''julia_not_safepoint'']
               [exParam ''v'' (PointerType BuiltinType) []]"
  let ?CE = "exCallExpr ?fd 1"
  let ?a = "OtherExpr 0 jl_value_p"
  let ?C = "exContext exPromiseState"
  let ?C' = "exContext (exState [] [])"
  have d: "getDecl exPromiseCall = Some (exDecl ?fd)" by (simp add: exPromiseCall_def ex_defs)
  have f: "getAsFunction (exDecl ?fd) = Some ?fd" by (simp add: ex_defs)
  have n: "fdName ?fd = Some ''JL_GC_PROMISE_ROOTED''" by (simp add: ex_defs)
  have fr: "getFrameDecl ?C = Some (exFunction ''caller'' [] [])"
    "getFrameDecl ?C' = Some (exFunction ''caller'' [] [])" by (simp_all add: ex_defs)
  have st: "getState ?C = exPromiseState" by (simp add: ex_defs)
  have g: "gcEnabledHere (getState ?C)"
    by (simp add: gcEnabledHere_def exPromiseState_def exEnvState_def ex_defs)
  have s: "argumentSymbol (argSVals exPromiseCall ! 0) = Some (exSym 1)"
    by (simp add: argumentSymbol_def exPromiseCall_def ex_defs)
  have v: "getValue (getState ?C) (exSym 1) = Some getFreed"
    by (simp add: getValue_def exPromiseState_def exEnvState_def ex_defs)
  have fs: "S getFreed = PotentiallyFreed" by (simp add: vs_defs)
  have o: "getOriginExpr exPromiseCall = Some (CallExprOrigin ?CE)"
    by (simp add: exPromiseCall_def ex_defs)
  have cn: "getCalleeName ?CE = ''JL_GC_PROMISE_ROOTED''"
    by (simp add: getCalleeName_def ex_defs)
  have a: "getArg ?CE 0 = Some ?a" by (simp add: getArg_def ex_defs)
  have sy: "getAsSymbol (getSVal ?C ?a) False = Some (exSym 1)"
    by (simp add: getSVal_def exPromiseState_def exEnvState_def ex_defs)
  have sy': "getAsSymbol (getSVal ?C' ?a) False = None"
    by (simp add: getSVal_def ex_defs)
  have node: "generateErrorNode ?C' noEffects"
    by (simp add: ex_defs noEffects_def)
  note t = promise_rooted [of exPromiseCall "exDecl ?fd" ?fd ?C "exFunction ''caller'' [] []" ?CE ?a]
  note t' = promise_rooted [of exPromiseCall "exDecl ?fd" ?fd ?C' "exFunction ''caller'' [] []" ?CE ?a]
  have pre: "\<exists>e. checkPreCall exPromiseCall ?C = Some e \<and>
        (\<forall>m s ns. BugReport m (Some s) ns \<notin> set (reported e))"
    using t d f n fr by blast
  have "evalCall exPromiseCall ?C =
     Some (True, \<lparr>transitions = [setValue (exSym 1) (getRooted None (- 1)) exPromiseState],
                  reported = []\<rparr>) \<and>
     (\<exists>vs. getValue (setValue (exSym 1) (getRooted None (- 1)) exPromiseState) (exSym 1)
             = Some vs \<and> S vs = Rooted \<and> Root vs = None \<and> RootDepth vs = - 1)"
    using t o cn a sy st by simp
  then have ev: "\<exists>st' vs. evalCall exPromiseCall ?C =
        Some (True, \<lparr>transitions = [st'], reported = []\<rparr>) \<and>
      getValue st' (exSym 1) = Some vs \<and>
      S vs = Rooted \<and> Root vs = None \<and> RootDepth vs = - 1"
    by blast
  have ev': "evalCall exPromiseCall ?C' =
     Some (True, \<lparr>transitions = [],
                  reported = [BugReport ''Can not understand this promise.'' None []]\<rparr>)"
    using t' o cn a sy' node by simp
  from d n fr(1) g s v fs pre cn sy ev sy' node ev' show ?thesis by blast
qed

subsection \<open>Boxing a small integer\<close>

lemma ex_box_result:
  "starts_with n ''jl_box_'' \<Longrightarrow>
   processAllocationOfResult (exBoxCall n v) (exContext (exState [] [])) (exState [] []) =
     Some (True, setValue (exSym 99)
                   (if GloballyRooted n v then getRooted None (- 1) else getAllocated)
                   (exState [] []))"
  by (simp add: processAllocationOfResult_def resultValueState_def exBoxCall_def ex_defs
      type_defs declHasAnnotation_def getArgSVal_def getValue_def Let_def)

text \<open>
  C2. The code at the lower end of the signed range: for the call \<open>jl_box_int64(-512)\<close>,
  whose result has no state yet, \<open>processAllocationOfResult\<close> leaves the result
  \<open>Allocated\<close>, where the claim says \<open>Rooted(null, -1)\<close>; the test is
  \<open>-NBOX_C / 2 < Value\<close>, so the signed range is -511 to 511. The other values of the
  claim are as it says: -511, 5 and 511 are rooted, 512 and 5000 are \<open>Allocated\<close>, and
  for \<open>jl_box_uint64\<close> 0 and 1023 are rooted, 1024 is \<open>Allocated\<close>.
\<close>

theorem box_int64_minus_512_allocated:
  "processAllocationOfResult (exBoxCall ''jl_box_int64'' (- 512))
       (exContext (exState [] [])) (exState [] [])
     = Some (True, setValue (exSym 99) getAllocated (exState [] [])) \<and>
   processAllocationOfResult (exBoxCall ''jl_box_int64'' (- 511))
       (exContext (exState [] [])) (exState [] [])
     = Some (True, setValue (exSym 99) (getRooted None (- 1)) (exState [] [])) \<and>
   processAllocationOfResult (exBoxCall ''jl_box_int64'' 5)
       (exContext (exState [] [])) (exState [] [])
     = Some (True, setValue (exSym 99) (getRooted None (- 1)) (exState [] [])) \<and>
   processAllocationOfResult (exBoxCall ''jl_box_int64'' 511)
       (exContext (exState [] [])) (exState [] [])
     = Some (True, setValue (exSym 99) (getRooted None (- 1)) (exState [] [])) \<and>
   processAllocationOfResult (exBoxCall ''jl_box_int64'' 512)
       (exContext (exState [] [])) (exState [] [])
     = Some (True, setValue (exSym 99) getAllocated (exState [] [])) \<and>
   processAllocationOfResult (exBoxCall ''jl_box_int64'' 5000)
       (exContext (exState [] [])) (exState [] [])
     = Some (True, setValue (exSym 99) getAllocated (exState [] [])) \<and>
   processAllocationOfResult (exBoxCall ''jl_box_uint64'' 0)
       (exContext (exState [] [])) (exState [] [])
     = Some (True, setValue (exSym 99) (getRooted None (- 1)) (exState [] [])) \<and>
   processAllocationOfResult (exBoxCall ''jl_box_uint64'' 1023)
       (exContext (exState [] [])) (exState [] [])
     = Some (True, setValue (exSym 99) (getRooted None (- 1)) (exState [] [])) \<and>
   processAllocationOfResult (exBoxCall ''jl_box_uint64'' 1024)
       (exContext (exState [] [])) (exState [] [])
     = Some (True, setValue (exSym 99) getAllocated (exState [] [])) \<and>
   getValue (setValue (exSym 99) getAllocated (exState [] [])) (exSym 99) = Some getAllocated \<and>
   S getAllocated = Allocated"
proof -
  have "getValue (exState [] []) (exSym 99) = None"
    by (simp add: getValue_def ex_defs)
  then have "getValue (setValue (exSym 99) getAllocated (exState [] [])) (exSym 99)
      = Some getAllocated"
    by (simp add: getValue_setValue)
  moreover have "S getAllocated = Allocated"
    by (simp add: vs_defs)
  ultimately show ?thesis
    by (simp add: ex_box_result starts_with_def GloballyRooted_def NBOX_C_def)
qed

subsection \<open>The arguments of a call\<close>

lemma reported_report_value_error:
  "reported (report_value_error C Sym m e) =
     (if generateErrorNode C e then reported e @ [BugReport m (Some Sym) []] else reported e)"
  by (simp add: report_value_error_def)

lemma checkArgument_mono:
  "set (reported e) \<subseteq> set (reported (checkArgument Call C st sp fd i e))"
  by (auto simp add: checkArgument_def Let_def reported_report_value_error
      split: option.splits)

lemma fold_checkArgument_mono:
  "set (reported e) \<subseteq> set (reported (fold (checkArgument Call C st sp fd) is e))"
proof (induction "is" arbitrary: e)
  case Nil
  then show ?case by simp
next
  case (Cons i "is")
  have "set (reported e) \<subseteq> set (reported (checkArgument Call C st sp fd i e))"
    by (rule checkArgument_mono)
  also have "\<dots> \<subseteq> set (reported (fold (checkArgument Call C st sp fd) is
                                   (checkArgument Call C st sp fd i e)))"
    by (rule Cons.IH)
  finally show ?case by simp
qed

lemma fold_checkArgument_reports:
  assumes step: "r \<in> set (reported (checkArgument Call C st sp fd idx
                                      (fold (checkArgument Call C st sp fd) [0..<idx] e)))"
    and idx: "idx < n"
  shows "r \<in> set (reported (fold (checkArgument Call C st sp fd) [0..<n] e))"
proof -
  have "[0..<n] = [0..<idx] @ idx # [Suc idx..<n]"
    using idx upt_add_eq_append [of 0 idx "n - idx"] by (simp add: upt_conv_Cons)
  then have "fold (checkArgument Call C st sp fd) [0..<n] e =
      fold (checkArgument Call C st sp fd) [Suc idx..<n]
        (checkArgument Call C st sp fd idx (fold (checkArgument Call C st sp fd) [0..<idx] e))"
    by simp
  with step fold_checkArgument_mono
    [of "checkArgument Call C st sp fd idx (fold (checkArgument Call C st sp fd) [0..<idx] e)"
        Call C st sp fd "[Suc idx..<n]"]
  show ?thesis by auto
qed

lemma leaveNotSafepoint_values:
  "leaveNotSafepoint Call C = Some (st1, e1) \<Longrightarrow> GCValueMap st1 = GCValueMap (getState C)"
  by (auto simp add: leaveNotSafepoint_def Let_def split: if_splits option.splits)

text \<open>
  C4, as the claim states it, fails in three ways. With GC enabled and safepoints
  disabled at the height of the frame, a call to a safepoint with an \<open>Allocated\<close>
  argument gets the report about the safepoint only: \<open>checkPreCall\<close> returns there, before
  the loop over the arguments. A \<open>PotentiallyFreed\<close> argument of \<open>JL_GC_PROMISE_ROOTED\<close>
  gets no report at all. And a report for which the analyser gives no error node is
  dropped: with an analyser that gives a node for the first report of a callback only,
  the \<open>PotentiallyFreed\<close> second argument of a call whose first argument is reported gets
  no report.
\<close>

theorem precall_argument_unreported:
  "gcEnabledHere (getState (exContext exLockedState)) \<and>
   isSafepoint exApplyCall (exContext exLockedState) \<and>
   argumentSymbol (argSVals exApplyCall ! 0) = Some (exSym 1) \<and>
   getValue (getState (exContext exLockedState)) (exSym 1) = Some getAllocated \<and>
   getArgExpr exApplyCall 0 = Some (OtherExpr 0 jl_value_p) \<and>
   isGCTracked (OtherExpr 0 jl_value_p) \<and>
   checkPreCall exApplyCall (exContext exLockedState) =
     Some \<lparr>transitions = [],
           reported = [BugReport
             ''Calling potential safepoint as SimpleFunctionCall from function annotated JL_NOTSAFEPOINT''
             None [''Tried to call method defined here'']]\<rparr> \<and>
   gcEnabledHere (getState (exContext exPromiseState)) \<and>
   argumentSymbol (argSVals exPromiseCall ! 0) = Some (exSym 1) \<and>
   getValue (getState (exContext exPromiseState)) (exSym 1) = Some getFreed \<and>
   checkPreCall exPromiseCall (exContext exPromiseState) =
     Some \<lparr>transitions = [], reported = []\<rparr> \<and>
   gcEnabledHere (getState (exContext exArgState)) \<and>
   argumentSymbol (argSVals exApply2Call ! 1) = Some (exSym 2) \<and>
   getValue (getState (exContext exArgState)) (exSym 2) = Some getFreed \<and>
   S getFreed = PotentiallyFreed \<and>
   getArgExpr exApply2Call 1 = Some (OtherExpr 1 jl_value_p) \<and>
   \<not> generateErrorNode (exContext exArgState)
       \<lparr>transitions = [],
        reported = [BugReport ''Passing non-rooted value as argument to function that may GC''
                      (Some (exSym 1)) []]\<rparr> \<and>
   checkPreCall exApply2Call (exContext exArgState) =
     Some \<lparr>transitions = [],
           reported = [BugReport ''Passing non-rooted value as argument to function that may GC''
                         (Some (exSym 1)) []]\<rparr>"
proof -
  have sp: "isSafepoint exApplyCall (exContext exLockedState)"
    unfolding exApplyCall_def by (rule ex_isSafepoint)
  have nsp: "\<not> isSafepoint exPromiseCall (exContext exPromiseState)"
    by (simp add: isSafepoint_def isInSystemHeader_def safepointDecl_def safepointCallee_def
        exPromiseCall_def ex_defs isFDAnnotatedNotSafepoint_def declHasAnnotation_def
        starts_with_def)
  have 1: "checkPreCall exApplyCall (exContext exLockedState) =
     Some \<lparr>transitions = [],
           reported = [BugReport
             ''Calling potential safepoint as SimpleFunctionCall from function annotated JL_NOTSAFEPOINT''
             None [''Tried to call method defined here'']]\<rparr>"
    using sp
    by (simp add: checkPreCall_def leaveNotSafepoint_def Let_def)
       (simp add: gcEnabledHere_def safepointEnabledHere_def exApplyCall_def exLockedState_def
        ex_defs isMutexUnlock_def declHasAnnotation_def report_error_notes_def noEffects_def)
  have 2: "checkPreCall exPromiseCall (exContext exPromiseState) =
     Some \<lparr>transitions = [], reported = []\<rparr>"
    using nsp
    by (simp add: checkPreCall_def leaveNotSafepoint_def Let_def)
       (simp add: gcEnabledHere_def safepointEnabledHere_def exPromiseCall_def exPromiseState_def
        exEnvState_def ex_defs isMutexUnlock_def declHasAnnotation_def noEffects_def)
  have 3: "gcEnabledHere (getState (exContext exLockedState))"
    "gcEnabledHere (getState (exContext exPromiseState))"
    by (simp_all add: gcEnabledHere_def exLockedState_def exPromiseState_def exEnvState_def ex_defs)
  have 4: "argumentSymbol (argSVals exApplyCall ! 0) = Some (exSym 1)"
    "argumentSymbol (argSVals exPromiseCall ! 0) = Some (exSym 1)"
    by (simp_all add: argumentSymbol_def exApplyCall_def exPromiseCall_def ex_defs)
  have 5: "getValue (getState (exContext exLockedState)) (exSym 1) = Some getAllocated"
    "getValue (getState (exContext exPromiseState)) (exSym 1) = Some getFreed"
    by (simp_all add: getValue_def exLockedState_def exPromiseState_def exEnvState_def ex_defs)
  have 6: "getArgExpr exApplyCall 0 = Some (OtherExpr 0 jl_value_p)"
    by (simp add: getArgExpr_def exApplyCall_def ex_defs)
  have 7: "isGCTracked (OtherExpr 0 jl_value_p)"
    by (simp add: ex_defs type_defs)
  have sp2: "isSafepoint exApply2Call (exContext exArgState)"
    unfolding exApply2Call_def by (rule ex_isSafepoint)
  let ?fd2 = "exFunction ''jl_apply'' [] [exParam ''f'' jl_value_p [], exParam ''v'' jl_value_p []]"
  let ?r = "BugReport ''Passing non-rooted value as argument to function that may GC''
              (Some (exSym 1)) []"
  have n2: "[0..<getNumArgs exApply2Call] = [0, 1]"
    by (simp add: getNumArgs_def exApply2Call_def ex_defs upt_rec)
  have c0: "checkArgument exApply2Call (exContext exArgState) exArgState True (Some ?fd2) 0
              noEffects = \<lparr>transitions = [], reported = [?r]\<rparr>"
    by (simp add: checkArgument_def argumentSymbol_def getValue_def getArgExpr_def
        exApply2Call_def exArgState_def ex_defs type_defs vs_defs declHasAnnotation_def
        report_value_error_def noEffects_def)
  have c1: "checkArgument exApply2Call (exContext exArgState) exArgState True (Some ?fd2) 1
              \<lparr>transitions = [], reported = [?r]\<rparr> = \<lparr>transitions = [], reported = [?r]\<rparr>"
    by (simp add: checkArgument_def argumentSymbol_def getValue_def getArgExpr_def
        exApply2Call_def exArgState_def ex_defs type_defs vs_defs declHasAnnotation_def
        report_value_error_def)
  have l2: "leaveNotSafepoint exApply2Call (exContext exArgState) = Some (exArgState, noEffects)"
    by (simp add: leaveNotSafepoint_def exApply2Call_def ex_defs isMutexUnlock_def
        declHasAnnotation_def)
  have f2: "(case getDecl exApply2Call of None \<Rightarrow> None | Some D \<Rightarrow> getAsFunction D)
      = Some ?fd2"
    by (simp add: exApply2Call_def ex_defs)
  have g2: "gcEnabledHere (getState (exContext exArgState))" "safepointEnabledHere exArgState"
    by (simp_all add: gcEnabledHere_def safepointEnabledHere_def exArgState_def ex_defs)
  have 8: "checkPreCall exApply2Call (exContext exArgState) =
     Some \<lparr>transitions = [], reported = [?r]\<rparr>"
    unfolding checkPreCall_def Let_def l2 f2 n2
    using sp2 g2 c0 c1 by (simp add: ex_defs)
  have 9: "gcEnabledHere (getState (exContext exArgState))"
    "argumentSymbol (argSVals exApply2Call ! 1) = Some (exSym 2)"
    "getValue (getState (exContext exArgState)) (exSym 2) = Some getFreed"
    "S getFreed = PotentiallyFreed"
    "getArgExpr exApply2Call 1 = Some (OtherExpr 1 jl_value_p)"
    "\<not> generateErrorNode (exContext exArgState)
       \<lparr>transitions = [],
        reported = [BugReport ''Passing non-rooted value as argument to function that may GC''
                      (Some (exSym 1)) []]\<rparr>"
    by (simp_all add: gcEnabledHere_def argumentSymbol_def getValue_def getArgExpr_def
        exApply2Call_def exArgState_def ex_defs vs_defs)
  from sp 1 2 3 4 5 6 7 8 9 show ?thesis by simp
qed

text \<open>
  C4, amended. At a pre-call check with GC enabled, when the check does not stop at the
  report of a safepoint reached with safepoints disabled (safepoints are enabled after
  the first step, or the callee is not a safepoint, or it is \<open>noreturn\<close>) and the callee
  is not named \<open>JL_GC_PROMISE_ROOTED\<close>: take an argument that has a symbol with a state
  and whose expression, if any, is tracked, and let the analyser give an error node when
  the loop reaches that argument, that is after the effects of the arguments before it
  (\<open>report_value_error\<close> drops a report for which it gets no node). Then \<open>checkPreCall\<close>
  emits the report \<open>Passing non-rooted value as argument to function that may GC\<close> when
  the state is \<open>Allocated\<close>, the call is a safepoint and the parameter is not annotated
  \<open>julia_maybe_unrooted\<close>; and the report \<open>Argument value may have been GCed\<close> when the
  state is \<open>PotentiallyFreed\<close>, whether the call is a safepoint or not.
\<close>

theorem precall_argument_reports:
  assumes gc: "gcEnabledHere (getState C)"
    and fd: "(case getDecl Call of None \<Rightarrow> None | Some D \<Rightarrow> getAsFunction D) = fd"
    and leave: "leaveNotSafepoint Call C = Some (st1, e1)"
    and nostop: "safepointEnabledHere st1 \<or> \<not> isSafepoint Call C \<or>
                 (\<exists>f. fd = Some f \<and> fdIsNoReturn f)"
    and notpromise: "\<forall>f. fd = Some f \<longrightarrow> fdName f \<noteq> Some ''JL_GC_PROMISE_ROOTED''"
    and idx: "idx < getNumArgs Call"
    and sym: "argumentSymbol (argSVals Call ! idx) = Some Sym"
    and vs: "getValue (getState C) Sym = Some ValState"
    and tracked: "\<forall>E. getArgExpr Call idx = Some E \<longrightarrow> isGCTracked E"
    and node: "generateErrorNode C
                 (fold (checkArgument Call C st1 (isSafepoint Call C) fd) [0..<idx] e1)"
  shows "\<exists>e. checkPreCall Call C = Some e \<and>
           (S ValState = Allocated \<and> isSafepoint Call C \<and>
            \<not> (\<exists>f. fd = Some f \<and> idx < length (fdParams f) \<and>
                  declHasAnnotation (vdAnnotations (fdParams f ! idx)) ''julia_maybe_unrooted'')
            \<longrightarrow> BugReport ''Passing non-rooted value as argument to function that may GC''
                   (Some Sym) [] \<in> set (reported e)) \<and>
           (S ValState = PotentiallyFreed
            \<longrightarrow> BugReport ''Argument value may have been GCed'' (Some Sym) []
                   \<in> set (reported e))"
proof -
  let ?sp = "isSafepoint Call C"
  let ?e = "fold (checkArgument Call C st1 ?sp fd) [0..<getNumArgs Call] e1"
  let ?b = "fold (checkArgument Call C st1 ?sp fd) [0..<idx] e1"
  have run: "checkPreCall Call C = Some ?e"
    using gc fd leave nostop notpromise
    by (auto simp add: checkPreCall_def Let_def split: option.splits)
  have vs1: "getValue st1 Sym = Some ValState"
    using vs leaveNotSafepoint_values [OF leave] by (simp add: getValue_def)
  have tr: "(case getArgExpr Call idx of Some E \<Rightarrow> \<not> isGCTracked E | None \<Rightarrow> False) = False"
    using tracked by (simp split: option.splits)
  have a: "BugReport ''Passing non-rooted value as argument to function that may GC''
             (Some Sym) [] \<in> set (reported ?e)"
    if "S ValState = Allocated" "?sp"
      "\<not> (\<exists>f. fd = Some f \<and> idx < length (fdParams f) \<and>
            declHasAnnotation (vdAnnotations (fdParams f ! idx)) ''julia_maybe_unrooted'')"
  proof (rule fold_checkArgument_reports [OF _ idx])
    show "BugReport ''Passing non-rooted value as argument to function that may GC''
            (Some Sym) [] \<in> set (reported (checkArgument Call C st1 ?sp fd idx ?b))"
      using that sym vs1 tr node
      by (cases fd)
         (simp_all add: checkArgument_def Let_def reported_report_value_error
           isRooted_def isPotentiallyFreed_def)
  qed
  have b: "BugReport ''Argument value may have been GCed'' (Some Sym) [] \<in> set (reported ?e)"
    if "S ValState = PotentiallyFreed"
  proof (rule fold_checkArgument_reports [OF _ idx])
    have "BugReport ''Argument value may have been GCed'' (Some Sym) []
            \<in> set (reported (report_value_error C Sym ''Argument value may have been GCed'' ?b))"
      using node by (simp add: reported_report_value_error)
    then show "BugReport ''Argument value may have been GCed'' (Some Sym) []
            \<in> set (reported (checkArgument Call C st1 ?sp fd idx ?b))"
      using that sym vs1 tr
      by (auto simp add: checkArgument_def Let_def reported_report_value_error
           isRooted_def isPotentiallyFreed_def)
  qed
  from run a b show ?thesis by blast
qed

theorem precall_argument_reports_witness:
  "gcEnabledHere (getState (exContext exArgState)) \<and>
   leaveNotSafepoint exApply2Call (exContext exArgState) = Some (exArgState, noEffects) \<and>
   safepointEnabledHere exArgState \<and>
   isSafepoint exApply2Call (exContext exArgState) \<and>
   argumentSymbol (argSVals exApply2Call ! 0) = Some (exSym 1) \<and>
   getValue (getState (exContext exArgState)) (exSym 1) = Some getAllocated \<and>
   S getAllocated = Allocated \<and>
   generateErrorNode (exContext exArgState)
     (fold (checkArgument exApply2Call (exContext exArgState) exArgState True
              (Some (exFunction ''jl_apply'' []
                       [exParam ''f'' jl_value_p [], exParam ''v'' jl_value_p []])))
        [0..<0] noEffects) \<and>
   (\<exists>e. checkPreCall exApply2Call (exContext exArgState) = Some e \<and>
      BugReport ''Passing non-rooted value as argument to function that may GC''
        (Some (exSym 1)) [] \<in> set (reported e)) \<and>
   gcEnabledHere (getState (exContext exPromiseState)) \<and>
   leaveNotSafepoint exApplyCall (exContext exPromiseState) = Some (exPromiseState, noEffects) \<and>
   safepointEnabledHere exPromiseState \<and>
   argumentSymbol (argSVals exApplyCall ! 0) = Some (exSym 1) \<and>
   getValue (getState (exContext exPromiseState)) (exSym 1) = Some getFreed \<and>
   S getFreed = PotentiallyFreed \<and>
   (\<exists>e. checkPreCall exApplyCall (exContext exPromiseState) = Some e \<and>
      BugReport ''Argument value may have been GCed'' (Some (exSym 1)) [] \<in> set (reported e)) \<and>
   gcEnabledHere (getState (exContext exRootedArgState)) \<and>
   leaveNotSafepoint exApply2Call (exContext exRootedArgState)
     = Some (exRootedArgState, noEffects) \<and>
   safepointEnabledHere exRootedArgState \<and>
   argumentSymbol (argSVals exApply2Call ! 0) = Some (exSym 1) \<and>
   getValue (getState (exContext exRootedArgState)) (exSym 1) = Some (getRooted None (- 1)) \<and>
   argumentSymbol (argSVals exApply2Call ! 1) = Some (exSym 2) \<and>
   getValue (getState (exContext exRootedArgState)) (exSym 2) = Some getFreed \<and>
   generateErrorNode (exContext exRootedArgState)
     (fold (checkArgument exApply2Call (exContext exRootedArgState) exRootedArgState True
              (Some (exFunction ''jl_apply'' []
                       [exParam ''f'' jl_value_p [], exParam ''v'' jl_value_p []])))
        [0..<1] noEffects) \<and>
   (\<exists>e. checkPreCall exApply2Call (exContext exRootedArgState) = Some e \<and>
      BugReport ''Argument value may have been GCed'' (Some (exSym 2)) [] \<in> set (reported e))"
proof -
  let ?C = "exContext exArgState"
  let ?fd = "exFunction ''jl_apply'' [] [exParam ''f'' jl_value_p [], exParam ''v'' jl_value_p []]"
  let ?C' = "exContext exPromiseState"
  let ?fd' = "exFunction ''jl_apply'' [] [exParam ''v'' jl_value_p []]"
  have gc: "gcEnabledHere (getState ?C)"
    by (simp add: gcEnabledHere_def exArgState_def ex_defs)
  have fd: "(case getDecl exApply2Call of None \<Rightarrow> None | Some D \<Rightarrow> getAsFunction D) = Some ?fd"
    by (simp add: exApply2Call_def ex_defs)
  have leave: "leaveNotSafepoint exApply2Call ?C = Some (exArgState, noEffects)"
    by (simp add: leaveNotSafepoint_def exApply2Call_def ex_defs isMutexUnlock_def
        declHasAnnotation_def)
  have en: "safepointEnabledHere exArgState"
    by (simp add: safepointEnabledHere_def exArgState_def ex_defs)
  then have nostop: "safepointEnabledHere exArgState \<or> \<not> isSafepoint exApply2Call ?C \<or>
                 (\<exists>f. Some ?fd = Some f \<and> fdIsNoReturn f)" by simp
  have np: "\<forall>f. Some ?fd = Some f \<longrightarrow> fdName f \<noteq> Some ''JL_GC_PROMISE_ROOTED''"
    by (simp add: ex_defs)
  have sp: "isSafepoint exApply2Call ?C"
    unfolding exApply2Call_def by (rule ex_isSafepoint)
  have i: "0 < getNumArgs exApply2Call"
    by (simp add: getNumArgs_def exApply2Call_def ex_defs)
  have s: "argumentSymbol (argSVals exApply2Call ! 0) = Some (exSym 1)"
    by (simp add: argumentSymbol_def exApply2Call_def ex_defs)
  have v: "getValue (getState ?C) (exSym 1) = Some getAllocated"
    by (simp add: getValue_def exArgState_def ex_defs)
  have t: "\<forall>E. getArgExpr exApply2Call 0 = Some E \<longrightarrow> isGCTracked E"
    by (simp add: getArgExpr_def exApply2Call_def ex_defs type_defs)
  have mu: "\<not> (\<exists>f. Some ?fd = Some f \<and> 0 < length (fdParams f) \<and>
             declHasAnnotation (vdAnnotations (fdParams f ! 0)) ''julia_maybe_unrooted'')"
    by (simp add: ex_defs declHasAnnotation_def)
  have node: "generateErrorNode ?C
      (fold (checkArgument exApply2Call ?C exArgState (isSafepoint exApply2Call ?C) (Some ?fd))
         [0..<0] noEffects)"
    by (simp add: ex_defs noEffects_def)
  have node1: "generateErrorNode ?C
      (fold (checkArgument exApply2Call ?C exArgState True (Some ?fd)) [0..<0] noEffects)"
    by (simp add: ex_defs noEffects_def)
  have f: "S getAllocated = Allocated" "S getFreed = PotentiallyFreed"
    by (simp_all add: vs_defs)
  from precall_argument_reports [OF gc fd leave nostop np i s v t node] sp mu f
  have a: "\<exists>e. checkPreCall exApply2Call ?C = Some e \<and>
      BugReport ''Passing non-rooted value as argument to function that may GC''
        (Some (exSym 1)) [] \<in> set (reported e)"
    by auto

  have gc': "gcEnabledHere (getState ?C')"
    by (simp add: gcEnabledHere_def exPromiseState_def exEnvState_def ex_defs)
  have fd': "(case getDecl exApplyCall of None \<Rightarrow> None | Some D \<Rightarrow> getAsFunction D) = Some ?fd'"
    by (simp add: exApplyCall_def ex_defs)
  have leave': "leaveNotSafepoint exApplyCall ?C' = Some (exPromiseState, noEffects)"
    by (simp add: leaveNotSafepoint_def exApplyCall_def ex_defs isMutexUnlock_def
        declHasAnnotation_def)
  have en': "safepointEnabledHere exPromiseState"
    by (simp add: safepointEnabledHere_def exPromiseState_def exEnvState_def ex_defs)
  then have nostop': "safepointEnabledHere exPromiseState \<or> \<not> isSafepoint exApplyCall ?C' \<or>
                 (\<exists>f. Some ?fd' = Some f \<and> fdIsNoReturn f)" by simp
  have np': "\<forall>f. Some ?fd' = Some f \<longrightarrow> fdName f \<noteq> Some ''JL_GC_PROMISE_ROOTED''"
    by (simp add: ex_defs)
  have i': "0 < getNumArgs exApplyCall"
    by (simp add: getNumArgs_def exApplyCall_def ex_defs)
  have s': "argumentSymbol (argSVals exApplyCall ! 0) = Some (exSym 1)"
    by (simp add: argumentSymbol_def exApplyCall_def ex_defs)
  have v': "getValue (getState ?C') (exSym 1) = Some getFreed"
    by (simp add: getValue_def exPromiseState_def exEnvState_def ex_defs)
  have t': "\<forall>E. getArgExpr exApplyCall 0 = Some E \<longrightarrow> isGCTracked E"
    by (simp add: getArgExpr_def exApplyCall_def ex_defs type_defs)
  have node': "generateErrorNode ?C'
      (fold (checkArgument exApplyCall ?C' exPromiseState (isSafepoint exApplyCall ?C') (Some ?fd'))
         [0..<0] noEffects)"
    by (simp add: ex_defs noEffects_def)
  from precall_argument_reports [OF gc' fd' leave' nostop' np' i' s' v' t' node'] f
  have b: "\<exists>e. checkPreCall exApplyCall ?C' = Some e \<and>
      BugReport ''Argument value may have been GCed'' (Some (exSym 1)) [] \<in> set (reported e)"
    by auto
  let ?C2 = "exContext exRootedArgState"
  have gc2: "gcEnabledHere (getState ?C2)"
    by (simp add: gcEnabledHere_def exRootedArgState_def ex_defs)
  have leave2: "leaveNotSafepoint exApply2Call ?C2 = Some (exRootedArgState, noEffects)"
    by (simp add: leaveNotSafepoint_def exApply2Call_def ex_defs isMutexUnlock_def
        declHasAnnotation_def)
  have en2: "safepointEnabledHere exRootedArgState"
    by (simp add: safepointEnabledHere_def exRootedArgState_def ex_defs)
  then have nostop2: "safepointEnabledHere exRootedArgState \<or> \<not> isSafepoint exApply2Call ?C2 \<or>
                 (\<exists>f. Some ?fd = Some f \<and> fdIsNoReturn f)" by simp
  have sp2: "isSafepoint exApply2Call ?C2"
    unfolding exApply2Call_def by (rule ex_isSafepoint)
  have i2: "1 < getNumArgs exApply2Call"
    by (simp add: getNumArgs_def exApply2Call_def ex_defs)
  have s2: "argumentSymbol (argSVals exApply2Call ! 1) = Some (exSym 2)"
    by (simp add: argumentSymbol_def exApply2Call_def ex_defs)
  have v2: "getValue (getState ?C2) (exSym 2) = Some getFreed"
    "getValue (getState ?C2) (exSym 1) = Some (getRooted None (- 1))"
    by (simp_all add: getValue_def exRootedArgState_def ex_defs)
  have t2: "\<forall>E. getArgExpr exApply2Call 1 = Some E \<longrightarrow> isGCTracked E"
    by (simp add: getArgExpr_def exApply2Call_def ex_defs type_defs)
  have c0: "checkArgument exApply2Call ?C2 exRootedArgState True (Some ?fd) 0 noEffects
      = noEffects"
    by (simp add: checkArgument_def argumentSymbol_def getValue_def getArgExpr_def
        exApply2Call_def exRootedArgState_def ex_defs type_defs vs_defs)
  have node2: "generateErrorNode ?C2
      (fold (checkArgument exApply2Call ?C2 exRootedArgState True (Some ?fd)) [0..<1] noEffects)"
    by (simp add: c0) (simp add: ex_defs noEffects_def)
  have node2': "generateErrorNode ?C2
      (fold (checkArgument exApply2Call ?C2 exRootedArgState (isSafepoint exApply2Call ?C2)
               (Some ?fd)) [0..<1] noEffects)"
    using node2 sp2 by simp
  from precall_argument_reports [OF gc2 fd leave2 nostop2 np i2 s2 v2(1) t2 node2'] f
  have c: "\<exists>e. checkPreCall exApply2Call ?C2 = Some e \<and>
      BugReport ''Argument value may have been GCed'' (Some (exSym 2)) [] \<in> set (reported e)"
    by auto
  from gc leave en sp s v f node1 a gc' leave' en' s' v' b gc2 leave2 en2 v2 s2 node2 c
  show ?thesis by simp
qed

subsection \<open>The parameters at function entry\<close>

lemma parameterValue_Store: "Store st = Store st' \<Longrightarrow> parameterValue st P = parameterValue st' P"
  by (simp add: parameterValue_def)

lemma getRootEntry_setRoot:
  "getRootEntry (setRoot k v st) k' = (if k' = k then Some v else getRootEntry st k')"
  by (simp add: getRootEntry_def setRoot_def update_conv')

lemma getRootEntry_setValue: "getRootEntry (setValue k v st) R = getRootEntry st R"
  by (simp add: getRootEntry_def setValue_fields)

lemma beginFunctionLoop_roots:
  assumes store: "Store st = Store base"
  shows "\<exists>c st'. beginFunctionLoop fd b Ps (Change, st) = (c, st') \<and>
           Store st' = Store base \<and>
           getRootEntry st' R =
             (if \<exists>Q \<in> set Ps. declHasAnnotation (vdAnnotations Q) ''julia_require_rooted_slot'' \<and>
                   getAsRegion (parameterValue base Q) = R
              then Some (getRoot (- 1)) else getRootEntry st R)"
  using store
proof (induction Ps arbitrary: Change st)
  case Nil
  then show ?case by simp
next
  case (Cons Q Ps)
  have pv: "parameterValue st Q = parameterValue base Q"
    using Cons.prems by (rule parameterValue_Store)
  show ?case
  proof (cases "declHasAnnotation (vdAnnotations Q) ''julia_require_rooted_slot''")
    case True
    let ?st = "setRoot (getAsRegion (parameterValue base Q)) (getRoot (- 1)) st"
    have s: "Store ?st = Store base"
      using Cons.prems by (simp add: setRoot_def)
    have run: "beginFunctionLoop fd b (Q # Ps) (Change, st) =
               beginFunctionLoop fd b Ps (Change, ?st)"
      using True pv by simp
    from Cons.IH [OF s, of Change] True
    show ?thesis unfolding run by (auto simp add: getRootEntry_setRoot)
  next
    case notslot: False
    show ?thesis
    proof (cases "isGCTrackedType (vdType Q)")
      case False
      from Cons.IH [OF Cons.prems, of Change] False notslot
      show ?thesis by auto
    next
      case tracked: True
      show ?thesis
      proof (cases "getAsSymbol (parameterValue base Q) False")
        case None
        from Cons.IH [OF Cons.prems, of Change] None notslot tracked pv
        show ?thesis by auto
      next
        case (Some s)
        let ?st = "setValue s (getForArgument fd Q b) st"
        have st: "Store ?st = Store base"
          using Cons.prems by (simp add: setValue_fields)
        have run: "beginFunctionLoop fd b (Q # Ps) (Change, st) =
                   beginFunctionLoop fd b Ps (True, ?st)"
          using notslot tracked Some pv by simp
        from Cons.IH [OF st, of True] notslot
        show ?thesis unfolding run by (auto simp add: getRootEntry_setValue)
      qed
    qed
  qed
qed

lemma beginFunctionLoop_Cons:
  "\<exists>Change' st1.
     beginFunctionLoop fd b (Q # Ps) (Change, st) = beginFunctionLoop fd b Ps (Change', st1) \<and>
     Store st1 = Store st \<and>
     (if \<not> declHasAnnotation (vdAnnotations Q) ''julia_require_rooted_slot'' \<and>
         isGCTrackedType (vdType Q) \<and>
         getAsSymbol (parameterValue st Q) False = Some Sym
      then \<exists>vs. getValue st1 Sym = Some vs \<and> sameValueState vs (getForArgument fd Q b)
      else getValue st1 Sym = getValue st Sym)"
proof (cases "declHasAnnotation (vdAnnotations Q) ''julia_require_rooted_slot''")
  case True
  let ?st = "setRoot (getAsRegion (parameterValue st Q)) (getRoot (- 1)) st"
  have "beginFunctionLoop fd b (Q # Ps) (Change, st) = beginFunctionLoop fd b Ps (Change, ?st)"
    using True by simp
  moreover have "Store ?st = Store st" by (simp add: setRoot_def)
  moreover have "getValue ?st Sym = getValue st Sym" by (rule getValue_setRoot)
  ultimately show ?thesis using True by auto
next
  case notslot: False
  show ?thesis
  proof (cases "isGCTrackedType (vdType Q)")
    case False
    then have "beginFunctionLoop fd b (Q # Ps) (Change, st) =
        beginFunctionLoop fd b Ps (Change, st)"
      using notslot by simp
    then show ?thesis using False by auto
  next
    case tracked: True
    show ?thesis
    proof (cases "getAsSymbol (parameterValue st Q) False")
      case None
      then have "beginFunctionLoop fd b (Q # Ps) (Change, st) =
          beginFunctionLoop fd b Ps (Change, st)"
        using notslot tracked by simp
      then show ?thesis using None by auto
    next
      case (Some s)
      let ?st = "setValue s (getForArgument fd Q b) st"
      have run: "beginFunctionLoop fd b (Q # Ps) (Change, st) =
          beginFunctionLoop fd b Ps (True, ?st)"
        using notslot tracked Some by simp
      have st: "Store ?st = Store st" by (simp add: setValue_fields)
      show ?thesis
      proof (cases "s = Sym")
        case True
        have "\<exists>vs. getValue ?st Sym = Some vs \<and> sameValueState vs (getForArgument fd Q b)"
          unfolding True by (rule getValue_setValue_same)
        with run st notslot tracked Some True show ?thesis by auto
      next
        case False
        then have "getValue ?st Sym = getValue st Sym"
          by (simp add: getValue_setValue)
        with run st Some False show ?thesis by auto
      qed
    qed
  qed
qed

lemma beginFunctionLoop_value:
  assumes store: "Store st = Store base"
    and uniq: "\<forall>Q \<in> set Ps.
                 \<not> declHasAnnotation (vdAnnotations Q) ''julia_require_rooted_slot'' \<and>
                 isGCTrackedType (vdType Q) \<and>
                 getAsSymbol (parameterValue base Q) False = Some Sym \<longrightarrow> Q = P"
    and elig: "\<not> declHasAnnotation (vdAnnotations P) ''julia_require_rooted_slot'' \<and>
               isGCTrackedType (vdType P) \<and>
               getAsSymbol (parameterValue base P) False = Some Sym"
    and mem: "P \<in> set Ps \<or>
              (\<exists>vs. getValue st Sym = Some vs \<and> sameValueState vs (getForArgument fd P b))"
  shows "\<exists>vs. getValue (snd (beginFunctionLoop fd b Ps (Change, st))) Sym = Some vs \<and>
              sameValueState vs (getForArgument fd P b)"
  using store uniq mem
proof (induction Ps arbitrary: Change st)
  case Nil
  then show ?case by simp
next
  case (Cons Q Ps)
  have pv: "parameterValue st Q = parameterValue base Q"
    using Cons.prems(1) by (rule parameterValue_Store)
  from beginFunctionLoop_Cons [of fd b Q Ps Change st Sym] obtain Change' st1 where
    run: "beginFunctionLoop fd b (Q # Ps) (Change, st) = beginFunctionLoop fd b Ps (Change', st1)"
    and s1: "Store st1 = Store st"
    and v1: "if \<not> declHasAnnotation (vdAnnotations Q) ''julia_require_rooted_slot'' \<and>
                isGCTrackedType (vdType Q) \<and>
                getAsSymbol (parameterValue st Q) False = Some Sym
             then \<exists>vs. getValue st1 Sym = Some vs \<and> sameValueState vs (getForArgument fd Q b)
             else getValue st1 Sym = getValue st Sym"
    by blast
  have uniq': "\<forall>Q \<in> set Ps.
                 \<not> declHasAnnotation (vdAnnotations Q) ''julia_require_rooted_slot'' \<and>
                 isGCTrackedType (vdType Q) \<and>
                 getAsSymbol (parameterValue base Q) False = Some Sym \<longrightarrow> Q = P"
    using Cons.prems(2) by simp
  have "P \<in> set Ps \<or>
        (\<exists>vs. getValue st1 Sym = Some vs \<and> sameValueState vs (getForArgument fd P b))"
  proof (cases "\<not> declHasAnnotation (vdAnnotations Q) ''julia_require_rooted_slot'' \<and>
                isGCTrackedType (vdType Q) \<and>
                getAsSymbol (parameterValue base Q) False = Some Sym")
    case True
    then have "Q = P" using Cons.prems(2) by simp
    with v1 True pv show ?thesis by simp
  next
    case False
    then have "Q \<noteq> P" using elig by auto
    with v1 False pv Cons.prems(3) show ?thesis by auto
  qed
  from Cons.IH [OF _ uniq' this, of Change'] s1 Cons.prems(1)
  show ?case unfolding run by simp
qed

lemma beginFunctionLoop_change: "fst (beginFunctionLoop fd b Ps (True, st))"
  by (induction Ps arbitrary: st) (simp_all split: option.splits)

lemma beginFunctionMarkers_top:
  "inTopFrame C \<Longrightarrow>
   \<exists>st. beginFunctionMarkers fd C = (True, st) \<and> Store st = Store (getState C) \<and>
        GCValueMap st = GCValueMap (getState C)"
  by (simp add: beginFunctionMarkers_def Let_def)

text \<open>
  C5, as the claim states it, fails: in the top frame of a function with the parameter
  \<open>jl_value_t **slot\<close> annotated \<open>julia_require_rooted_slot\<close>, which is of a GC-tracked
  type and has a symbolic value, \<open>checkBeginFunction\<close> registers the region the parameter
  points to as a root of depth -1 and gives the parameter's symbol no state.
\<close>

theorem entry_rooted_slot_parameter_no_state:
  "inTopFrame (exEntryContext (exFunction ''jl_f'' [] [exSlotParam])) \<and>
   exSlotParam \<in> set (fdParams (exFunction ''jl_f'' [] [exSlotParam])) \<and>
   isGCTrackedType (vdType exSlotParam) \<and>
   getAsSymbol (parameterValue (getState (exEntryContext (exFunction ''jl_f'' [] [exSlotParam])))
                  exSlotParam) False
     = Some (SymbolRegionValue (VarRegion exSlotParam)) \<and>
   (\<exists>st'. checkBeginFunction (exEntryContext (exFunction ''jl_f'' [] [exSlotParam]))
             = Some \<lparr>transitions = [st'], reported = []\<rparr> \<and>
      getValue st' (SymbolRegionValue (VarRegion exSlotParam)) = None \<and>
      getRootState st' (SymbolicRegion (SymbolRegionValue (VarRegion exSlotParam)))
        = Some (getRoot (- 1)))"
proof -
  let ?C = "exEntryContext (exFunction ''jl_f'' [] [exSlotParam])"
  have 1: "inTopFrame ?C" by (simp add: inTopFrame_def exEntryContext_def ex_defs)
  have 2: "exSlotParam \<in> set (fdParams (exFunction ''jl_f'' [] [exSlotParam]))"
    by (simp add: ex_defs)
  have 3: "isGCTrackedType (vdType exSlotParam)"
    by (simp add: exSlotParam_def ex_defs type_defs)
  have 4: "getAsSymbol (parameterValue (getState ?C) exSlotParam) False
     = Some (SymbolRegionValue (VarRegion exSlotParam))"
    by (simp add: parameterValue_def exEntryContext_def exEntryState_def ex_defs)
  have 5: "\<exists>st'. checkBeginFunction ?C = Some \<lparr>transitions = [st'], reported = []\<rparr> \<and>
      getValue st' (SymbolRegionValue (VarRegion exSlotParam)) = None \<and>
      getRootState st' (SymbolicRegion (SymbolRegionValue (VarRegion exSlotParam)))
        = Some (getRoot (- 1))"
    by (simp add: checkBeginFunction_def beginFunctionMarkers_def Let_def inTopFrame_def
          exEntryContext_def exEntryState_def exSlotParam_def ex_defs
          declHasAnnotation_def isFDAnnotatedNotSafepoint_def starts_with_def
          gcEnabledHere_def safepointEnabledHere_def parameterValue_def setRoot_def
          addTransition_def noEffects_def getValue_def getRootState_def getRootEntry_def)
  from 1 2 3 4 5 show ?thesis by blast
qed

text \<open>
  C5, amended. At function entry in the top frame \<open>checkBeginFunction\<close> adds one state.
  In it, a parameter of GC-tracked type that is not annotated
  \<open>julia_require_rooted_slot\<close> and whose value has a symbol, which the value of no other
  such parameter has, is \<open>Allocated\<close> (with a null root and depth -1) when the function is
  annotated as not a safepoint (by \<open>julia_not_safepoint\<close> or by a file name that starts
  with \<open>llvm-\<close>) or the parameter is annotated \<open>julia_maybe_unrooted\<close>, and \<open>Rooted\<close> with a
  null root and depth -1 otherwise. For a parameter annotated
  \<open>julia_require_rooted_slot\<close>, of whatever type, the region of its value (the null region
  when the value has none) is registered as a root of depth -1 instead.
\<close>

theorem entry_parameter_state:
  assumes top: "inTopFrame C"
    and fd: "getFrameDecl C = Some fd"
  shows "\<exists>st'. checkBeginFunction C = Some \<lparr>transitions = [st'], reported = []\<rparr> \<and>
           (\<forall>P Sym.
              P \<in> set (fdParams fd) \<and>
              \<not> declHasAnnotation (vdAnnotations P) ''julia_require_rooted_slot'' \<and>
              isGCTrackedType (vdType P) \<and>
              getAsSymbol (parameterValue (getState C) P) False = Some Sym \<and>
              (\<forall>Q \<in> set (fdParams fd).
                 \<not> declHasAnnotation (vdAnnotations Q) ''julia_require_rooted_slot'' \<and>
                 isGCTrackedType (vdType Q) \<and>
                 getAsSymbol (parameterValue (getState C) Q) False = Some Sym \<longrightarrow> Q = P) \<longrightarrow>
              (\<exists>vs. getValue st' Sym = Some vs \<and>
                 S vs = (if isFDAnnotatedNotSafepoint fd \<or>
                            declHasAnnotation (vdAnnotations P) ''julia_maybe_unrooted''
                         then Allocated else Rooted) \<and>
                 Root vs = None \<and> RootDepth vs = - 1)) \<and>
           (\<forall>Q. Q \<in> set (fdParams fd) \<and>
                declHasAnnotation (vdAnnotations Q) ''julia_require_rooted_slot'' \<longrightarrow>
                getRootEntry st' (getAsRegion (parameterValue (getState C) Q))
                  = Some (getRoot (- 1)))"
proof -
  let ?b = "\<not> isFDAnnotatedNotSafepoint fd"
  from beginFunctionMarkers_top [OF top, of fd] obtain st where
    m: "beginFunctionMarkers fd C = (True, st)" and s: "Store st = Store (getState C)"
    by blast
  obtain c st' where l: "beginFunctionLoop fd ?b (fdParams fd) (True, st) = (c, st')"
    by (cases "beginFunctionLoop fd ?b (fdParams fd) (True, st)")
  have c: "c"
    using beginFunctionLoop_change [of fd ?b "fdParams fd" st] l by simp
  have run: "checkBeginFunction C = Some \<lparr>transitions = [st'], reported = []\<rparr>"
    using top fd m l c by (simp add: checkBeginFunction_def addTransition_def noEffects_def)
  have a: "\<exists>vs. getValue st' Sym = Some vs \<and>
             S vs = (if isFDAnnotatedNotSafepoint fd \<or>
                        declHasAnnotation (vdAnnotations P) ''julia_maybe_unrooted''
                     then Allocated else Rooted) \<and>
             Root vs = None \<and> RootDepth vs = - 1"
    if P: "P \<in> set (fdParams fd)"
      and notslot: "\<not> declHasAnnotation (vdAnnotations P) ''julia_require_rooted_slot''"
      and tracked: "isGCTrackedType (vdType P)"
      and sym: "getAsSymbol (parameterValue (getState C) P) False = Some Sym"
      and uniq: "\<forall>Q \<in> set (fdParams fd).
                 \<not> declHasAnnotation (vdAnnotations Q) ''julia_require_rooted_slot'' \<and>
                 isGCTrackedType (vdType Q) \<and>
                 getAsSymbol (parameterValue (getState C) Q) False = Some Sym \<longrightarrow> Q = P"
    for P Sym
  proof -
    have el: "\<not> declHasAnnotation (vdAnnotations P) ''julia_require_rooted_slot'' \<and>
               isGCTrackedType (vdType P) \<and>
               getAsSymbol (parameterValue (getState C) P) False = Some Sym"
      using notslot tracked sym by simp
    from beginFunctionLoop_value [OF s uniq el, of fd ?b True] P l
    obtain vs where v: "getValue st' Sym = Some vs"
      and e: "sameValueState vs (getForArgument fd P ?b)"
      by auto
    have "S (getForArgument fd P ?b) =
            (if isFDAnnotatedNotSafepoint fd \<or>
                declHasAnnotation (vdAnnotations P) ''julia_maybe_unrooted''
             then Allocated else Rooted) \<and>
          Root (getForArgument fd P ?b) = None \<and> RootDepth (getForArgument fd P ?b) = - 1"
      by (simp add: getForArgument_def Let_def vs_defs)
    with v e show ?thesis by (simp add: sameValueState_def)
  qed
  have r: "getRootEntry st' (getAsRegion (parameterValue (getState C) Q)) = Some (getRoot (- 1))"
    if "Q \<in> set (fdParams fd)" "declHasAnnotation (vdAnnotations Q) ''julia_require_rooted_slot''"
    for Q
    using beginFunctionLoop_roots [OF s, of fd ?b "fdParams fd" True
        "getAsRegion (parameterValue (getState C) Q)"] l that
    by auto
  from run a r show ?thesis by blast
qed
theorem entry_parameter_state_witness:
  "inTopFrame (exEntryContext (exFunction ''jl_g'' [] [exPlainParam, exUnrootedParam])) \<and>
   getFrameDecl (exEntryContext (exFunction ''jl_g'' [] [exPlainParam, exUnrootedParam]))
     = Some (exFunction ''jl_g'' [] [exPlainParam, exUnrootedParam]) \<and>
   \<not> isFDAnnotatedNotSafepoint (exFunction ''jl_g'' [] [exPlainParam, exUnrootedParam]) \<and>
   isGCTrackedType (vdType exPlainParam) \<and> isGCTrackedType (vdType exUnrootedParam) \<and>
   declHasAnnotation (vdAnnotations exUnrootedParam) ''julia_maybe_unrooted'' \<and>
   \<not> declHasAnnotation (vdAnnotations exPlainParam) ''julia_maybe_unrooted'' \<and>
   (\<exists>st'. checkBeginFunction (exEntryContext (exFunction ''jl_g'' [] [exPlainParam, exUnrootedParam]))
             = Some \<lparr>transitions = [st'], reported = []\<rparr> \<and>
      (\<exists>vs. getValue st' (SymbolRegionValue (VarRegion exPlainParam)) = Some vs \<and>
            S vs = Rooted \<and> Root vs = None \<and> RootDepth vs = - 1) \<and>
      (\<exists>vs. getValue st' (SymbolRegionValue (VarRegion exUnrootedParam)) = Some vs \<and>
            S vs = Allocated \<and> Root vs = None \<and> RootDepth vs = - 1)) \<and>
   inTopFrame (exEntryContext (exFunction ''jl_h'' [''julia_not_safepoint''] [exPlainParam])) \<and>
   isFDAnnotatedNotSafepoint (exFunction ''jl_h'' [''julia_not_safepoint''] [exPlainParam]) \<and>
   (\<exists>st' vs. checkBeginFunction (exEntryContext (exFunction ''jl_h'' [''julia_not_safepoint''] [exPlainParam]))
             = Some \<lparr>transitions = [st'], reported = []\<rparr> \<and>
      getValue st' (SymbolRegionValue (VarRegion exPlainParam)) = Some vs \<and>
      S vs = Allocated \<and> Root vs = None \<and> RootDepth vs = - 1) \<and>
   inTopFrame (exNullEntryContext (exFunction ''jl_f'' [] [exSlotParam, exPlainParam])) \<and>
   declHasAnnotation (vdAnnotations exSlotParam) ''julia_require_rooted_slot'' \<and>
   getAsRegion (parameterValue
       (getState (exNullEntryContext (exFunction ''jl_f'' [] [exSlotParam, exPlainParam])))
       exSlotParam) = None \<and>
   (\<exists>st'. checkBeginFunction (exNullEntryContext (exFunction ''jl_f'' [] [exSlotParam, exPlainParam]))
             = Some \<lparr>transitions = [st'], reported = []\<rparr> \<and>
      getRootEntry st' None = Some (getRoot (- 1)))"
proof -
  let ?g = "exFunction ''jl_g'' [] [exPlainParam, exUnrootedParam]"
  let ?h = "exFunction ''jl_h'' [''julia_not_safepoint''] [exPlainParam]"
  let ?f = "exFunction ''jl_f'' [] [exSlotParam, exPlainParam]"
  have top: "inTopFrame (exEntryContext fd)" "inTopFrame (exNullEntryContext fd)" for fd
    by (simp_all add: inTopFrame_def exEntryContext_def exNullEntryContext_def ex_defs)
  have fd: "getFrameDecl (exEntryContext fd) = Some fd"
    "getFrameDecl (exNullEntryContext fd) = Some fd" for fd
    by (simp_all add: exEntryContext_def exNullEntryContext_def)
  have pv: "getAsSymbol (parameterValue (getState (exEntryContext fd)) Q) False
              = Some (SymbolRegionValue (VarRegion Q))" for fd Q
    by (simp add: parameterValue_def exEntryContext_def exEntryState_def ex_defs)
  have pn: "getAsRegion (parameterValue (getState (exNullEntryContext fd)) Q) = None" for fd Q
    by (simp add: parameterValue_def exNullEntryContext_def ex_defs)
  have ns: "\<not> declHasAnnotation (vdAnnotations exPlainParam) ''julia_require_rooted_slot''"
    "\<not> declHasAnnotation (vdAnnotations exUnrootedParam) ''julia_require_rooted_slot''"
    "declHasAnnotation (vdAnnotations exSlotParam) ''julia_require_rooted_slot''"
    by (simp_all add: exPlainParam_def exUnrootedParam_def exSlotParam_def ex_defs
        declHasAnnotation_def)
  have tr: "isGCTrackedType (vdType exPlainParam)" "isGCTrackedType (vdType exUnrootedParam)"
    by (simp_all add: exPlainParam_def exUnrootedParam_def ex_defs type_defs)
  have mu: "declHasAnnotation (vdAnnotations exUnrootedParam) ''julia_maybe_unrooted''"
    "\<not> declHasAnnotation (vdAnnotations exPlainParam) ''julia_maybe_unrooted''"
    by (simp_all add: exPlainParam_def exUnrootedParam_def ex_defs declHasAnnotation_def)
  have sg: "\<not> isFDAnnotatedNotSafepoint ?g"
    by (simp add: isFDAnnotatedNotSafepoint_def declHasAnnotation_def starts_with_def ex_defs)
  have sh: "isFDAnnotatedNotSafepoint ?h"
    by (simp add: isFDAnnotatedNotSafepoint_def declHasAnnotation_def ex_defs)
  have Pg: "exPlainParam \<in> set (fdParams ?g)" "exUnrootedParam \<in> set (fdParams ?g)"
    by (simp_all add: ex_defs)
  have Ph: "exPlainParam \<in> set (fdParams ?h)" by (simp add: ex_defs)
  have Pf: "exSlotParam \<in> set (fdParams ?f)" by (simp add: ex_defs)
  have uniq: "\<forall>Q \<in> set (fdParams fd).
                 \<not> declHasAnnotation (vdAnnotations Q) ''julia_require_rooted_slot'' \<and>
                 isGCTrackedType (vdType Q) \<and>
                 getAsSymbol (parameterValue (getState (exEntryContext fd)) Q) False
                   = Some (SymbolRegionValue (VarRegion P)) \<longrightarrow> Q = P" for fd P
    by (simp add: pv)
  from entry_parameter_state [OF top(1) fd(1), of ?g] obtain st' where
    r1: "checkBeginFunction (exEntryContext ?g) = Some \<lparr>transitions = [st'], reported = []\<rparr>"
    and a1: "\<forall>P Sym.
              P \<in> set (fdParams ?g) \<and>
              \<not> declHasAnnotation (vdAnnotations P) ''julia_require_rooted_slot'' \<and>
              isGCTrackedType (vdType P) \<and>
              getAsSymbol (parameterValue (getState (exEntryContext ?g)) P) False = Some Sym \<and>
              (\<forall>Q \<in> set (fdParams ?g).
                 \<not> declHasAnnotation (vdAnnotations Q) ''julia_require_rooted_slot'' \<and>
                 isGCTrackedType (vdType Q) \<and>
                 getAsSymbol (parameterValue (getState (exEntryContext ?g)) Q) False = Some Sym
                 \<longrightarrow> Q = P) \<longrightarrow>
              (\<exists>vs. getValue st' Sym = Some vs \<and>
                 S vs = (if isFDAnnotatedNotSafepoint ?g \<or>
                            declHasAnnotation (vdAnnotations P) ''julia_maybe_unrooted''
                         then Allocated else Rooted) \<and>
                 Root vs = None \<and> RootDepth vs = - 1)"
    by (elim exE conjE) (rule that)
  have v1: "\<exists>vs. getValue st' (SymbolRegionValue (VarRegion exPlainParam)) = Some vs \<and>
            S vs = Rooted \<and> Root vs = None \<and> RootDepth vs = - 1"
    using a1 [rule_format, of exPlainParam "SymbolRegionValue (VarRegion exPlainParam)"]
      Pg(1) ns(1) tr(1) pv uniq sg mu(2) by simp
  have v2: "\<exists>vs. getValue st' (SymbolRegionValue (VarRegion exUnrootedParam)) = Some vs \<and>
            S vs = Allocated \<and> Root vs = None \<and> RootDepth vs = - 1"
    using a1 [rule_format, of exUnrootedParam "SymbolRegionValue (VarRegion exUnrootedParam)"]
      Pg(2) ns(2) tr(2) pv uniq mu(1) by simp
  from r1 v1 v2 have G: "\<exists>st'. checkBeginFunction (exEntryContext ?g)
             = Some \<lparr>transitions = [st'], reported = []\<rparr> \<and>
      (\<exists>vs. getValue st' (SymbolRegionValue (VarRegion exPlainParam)) = Some vs \<and>
            S vs = Rooted \<and> Root vs = None \<and> RootDepth vs = - 1) \<and>
      (\<exists>vs. getValue st' (SymbolRegionValue (VarRegion exUnrootedParam)) = Some vs \<and>
            S vs = Allocated \<and> Root vs = None \<and> RootDepth vs = - 1)"
    by blast
  from entry_parameter_state [OF top(1) fd(1), of ?h] obtain st'' where
    r3: "checkBeginFunction (exEntryContext ?h) = Some \<lparr>transitions = [st''], reported = []\<rparr>"
    and a3: "\<forall>P Sym.
              P \<in> set (fdParams ?h) \<and>
              \<not> declHasAnnotation (vdAnnotations P) ''julia_require_rooted_slot'' \<and>
              isGCTrackedType (vdType P) \<and>
              getAsSymbol (parameterValue (getState (exEntryContext ?h)) P) False = Some Sym \<and>
              (\<forall>Q \<in> set (fdParams ?h).
                 \<not> declHasAnnotation (vdAnnotations Q) ''julia_require_rooted_slot'' \<and>
                 isGCTrackedType (vdType Q) \<and>
                 getAsSymbol (parameterValue (getState (exEntryContext ?h)) Q) False = Some Sym
                 \<longrightarrow> Q = P) \<longrightarrow>
              (\<exists>vs. getValue st'' Sym = Some vs \<and>
                 S vs = (if isFDAnnotatedNotSafepoint ?h \<or>
                            declHasAnnotation (vdAnnotations P) ''julia_maybe_unrooted''
                         then Allocated else Rooted) \<and>
                 Root vs = None \<and> RootDepth vs = - 1)"
    by (elim exE conjE) (rule that)
  have "\<exists>vs. getValue st'' (SymbolRegionValue (VarRegion exPlainParam)) = Some vs \<and>
            S vs = Allocated \<and> Root vs = None \<and> RootDepth vs = - 1"
    using a3 [rule_format, of exPlainParam "SymbolRegionValue (VarRegion exPlainParam)"]
      Ph ns(1) tr(1) pv uniq sh by simp
  with r3 have H: "\<exists>st' vs. checkBeginFunction (exEntryContext ?h)
             = Some \<lparr>transitions = [st'], reported = []\<rparr> \<and>
      getValue st' (SymbolRegionValue (VarRegion exPlainParam)) = Some vs \<and>
      S vs = Allocated \<and> Root vs = None \<and> RootDepth vs = - 1"
    by blast
  from entry_parameter_state [OF top(2) fd(2), of ?f] obtain st3 where
    r5: "checkBeginFunction (exNullEntryContext ?f) = Some \<lparr>transitions = [st3], reported = []\<rparr>"
    and a5: "\<forall>Q. Q \<in> set (fdParams ?f) \<and>
                declHasAnnotation (vdAnnotations Q) ''julia_require_rooted_slot'' \<longrightarrow>
                getRootEntry st3 (getAsRegion (parameterValue (getState (exNullEntryContext ?f)) Q))
                  = Some (getRoot (- 1))"
    by (elim exE conjE) (rule that)
  have "getRootEntry st3 None = Some (getRoot (- 1))"
    using a5 [rule_format, of exSlotParam] Pf ns(3) pn by simp
  with r5 have F: "\<exists>st'. checkBeginFunction (exNullEntryContext ?f)
             = Some \<lparr>transitions = [st'], reported = []\<rparr> \<and>
      getRootEntry st' None = Some (getRoot (- 1))"
    by blast
  from top fd(1) sg tr mu G sh H ns(3) pn F show ?thesis by blast
qed

subsection \<open>Binding into a root and loading through a root\<close>

lemma rootRegionIfGlobal_keeps:
  assumes "rootRegionIfGlobal R st C = (b, st1, v)"
    and "getValue (getState C) k \<noteq> None"
  shows "getValue st1 k = getValue st k"
proof -
  have r: "getValue (setRoot R' rs st) k = getValue st k" for R' rs
    by (simp add: getValue_def setRoot_def)
  from assms show ?thesis
    by (auto simp add: rootRegionIfGlobal_def Let_def r getValue_setValue
        split: option.splits MemRegion.splits if_splits)
qed

lemma getValue_setValue_reroot:
  assumes "getValue st Sym = Some vs"
    and "\<not> isRooted vs \<or> d < RootDepth vs"
  shows "getValue (setValue Sym (getRooted R d) st) Sym = Some (getRooted R d)"
  using assms by (auto simp add: getValue_setValue vs_defs)

lemma bindToRoot_transitions:
  assumes "getValue (getState C) Sym = Some vs"
  shows "transitions (bindToRoot R arr RS Sym C) =
     (if arr \<and> \<not> isRootArray RS then []
      else if \<not> isRooted vs \<or> RootDepth vs > RootedAtDepth RS
           then [setValue Sym (getRooted (Some R) (RootedAtDepth RS)) (getState C)]
           else [])"
  using assms
  by (simp add: bindToRoot_def Let_def addTransition_def noEffects_def report_error_def
      report_value_error_def)

lemma rootLoadedValue_known:
  assumes "getAsRegion SLoc = Some R" "getRootState st R = Some RS"
    and "getAsSymbol (getSValLoc st SLoc) False = Some Sym"
    and "getValue st Sym = Some vs"
  shows "rootLoadedValue SLoc True st =
     Some (if \<not> isRooted vs \<or> RootDepth vs > RootedAtDepth RS
           then (True, setValue Sym (getRooted (Some R) (RootedAtDepth RS)) st)
           else (False, st))"
proof -
  have "isLoc SLoc" using assms(1) by (cases SLoc) simp_all
  with assms show ?thesis by (simp add: rootLoadedValue_def getRootState_def)
qed

lemma checkLocation_transitions:
  assumes val: "getValue (getState C) Sym \<noteq> None"
    and l: "rootLoadedValue SLoc IsLoad (getState C) = Some (DidChange, st)"
  shows "\<exists>e. checkLocation SLoc IsLoad C = Some e \<and>
              (\<forall>st' \<in> set (transitions e). getValue st' Sym = getValue st Sym) \<and>
              (DidChange \<longrightarrow> transitions e \<noteq> [])"
proof -
  obtain b st1 v where g: "rootRegionIfGlobal (getAsRegion SLoc) st C = (b, st1, v)"
    by (cases "rootRegionIfGlobal (getAsRegion SLoc) st C")
  have k: "getValue st1 Sym = getValue st Sym"
    using rootRegionIfGlobal_keeps [OF g val] .
  from l g k show ?thesis
    by (cases b)
       (auto simp add: checkLocation_def Let_def addTransition_def noEffects_def
          report_value_error_def split: option.splits if_splits)
qed

text \<open>
  C7. Let \<open>R\<close> be a registered root with state \<open>RS\<close> and \<open>Sym\<close> a symbol with the state
  \<open>vs\<close>. A bind of \<open>Sym\<close> into \<open>R\<close> (\<open>checkBind\<close>, where \<open>R\<close> is the region bound to, or for an
  element region its base region without casts) adds no transition when \<open>vs\<close> is rooted
  at a depth up to \<open>RootedAtDepth RS\<close>; any transition it adds comes from a value that
  was not rooted or was rooted strictly deeper, and gives \<open>Sym\<close> the state
  \<open>Rooted(R, RootedAtDepth RS)\<close>; and it adds that transition whenever the value
  was not rooted or rooted strictly deeper (unless an element region is bound into a
  root that is not a root array, which is reported). A load through \<open>R\<close> of the
  value \<open>Sym\<close> (\<open>checkLocation\<close>, which returns) leaves the state of \<open>Sym\<close> as it was in
  every transition it adds when \<open>vs\<close> is rooted at a depth up to \<open>RootedAtDepth RS\<close>;
  otherwise it adds a transition, and in every transition \<open>Sym\<close> is
  \<open>Rooted(R, RootedAtDepth RS)\<close>.
\<close>

theorem root_not_downgraded:
  assumes root: "getRootState (getState C) R = Some RS"
    and val: "getValue (getState C) Sym = Some vs"
  shows "(getAsRegion LVal = Some R0 \<and>
          R = (if isElementRegion R0 then StripCasts (getBaseRegion R0) else R0) \<and>
          getAsSymbol RVal False = Some Sym \<longrightarrow>
            (isRooted vs \<and> RootDepth vs \<le> RootedAtDepth RS \<longrightarrow>
               transitions (checkBind LVal RVal C) = []) \<and>
            (\<forall>st' \<in> set (transitions (checkBind LVal RVal C)).
               (\<not> isRooted vs \<or> RootedAtDepth RS < RootDepth vs) \<and>
               getValue st' Sym = Some (getRooted (Some R) (RootedAtDepth RS))) \<and>
            ((\<not> isRooted vs \<or> RootedAtDepth RS < RootDepth vs) \<and>
             \<not> (isElementRegion R0 \<and> \<not> isRootArray RS) \<longrightarrow>
               transitions (checkBind LVal RVal C) =
                 [setValue Sym (getRooted (Some R) (RootedAtDepth RS)) (getState C)])) \<and>
         (getAsRegion SLoc = Some R \<and>
          getAsSymbol (getSValLoc (getState C) SLoc) False = Some Sym \<longrightarrow>
            (\<exists>e. checkLocation SLoc True C = Some e \<and>
               (isRooted vs \<and> RootDepth vs \<le> RootedAtDepth RS \<longrightarrow>
                  (\<forall>st' \<in> set (transitions e). getValue st' Sym = Some vs)) \<and>
               (\<not> isRooted vs \<or> RootedAtDepth RS < RootDepth vs \<longrightarrow>
                  transitions e \<noteq> [] \<and>
                  (\<forall>st' \<in> set (transitions e).
                     getValue st' Sym = Some (getRooted (Some R) (RootedAtDepth RS))))))"
proof (intro conjI impI)
  assume a: "getAsRegion LVal = Some R0 \<and>
          R = (if isElementRegion R0 then StripCasts (getBaseRegion R0) else R0) \<and>
          getAsSymbol RVal False = Some Sym"
  then have b: "checkBind LVal RVal C = bindToRoot R (isElementRegion R0) RS Sym C"
    using root by (simp add: checkBind_def Let_def)
  note t = bindToRoot_transitions [OF val, of R "isElementRegion R0" RS]
  {
    assume "isRooted vs \<and> RootDepth vs \<le> RootedAtDepth RS"
    then show "transitions (checkBind LVal RVal C) = []"
      unfolding b t by auto
  }
  show "\<forall>st' \<in> set (transitions (checkBind LVal RVal C)).
               (\<not> isRooted vs \<or> RootedAtDepth RS < RootDepth vs) \<and>
               getValue st' Sym = Some (getRooted (Some R) (RootedAtDepth RS))"
    using val unfolding b t by (auto simp add: getValue_setValue_reroot)
  {
    assume "(\<not> isRooted vs \<or> RootedAtDepth RS < RootDepth vs) \<and>
             \<not> (isElementRegion R0 \<and> \<not> isRootArray RS)"
    then show "transitions (checkBind LVal RVal C) =
                 [setValue Sym (getRooted (Some R) (RootedAtDepth RS)) (getState C)]"
      unfolding b t by auto
  }
next
  assume a: "getAsRegion SLoc = Some R \<and>
          getAsSymbol (getSValLoc (getState C) SLoc) False = Some Sym"
  let ?new = "setValue Sym (getRooted (Some R) (RootedAtDepth RS)) (getState C)"
  have l: "rootLoadedValue SLoc True (getState C) =
     Some (if \<not> isRooted vs \<or> RootDepth vs > RootedAtDepth RS
           then (True, ?new) else (False, getState C))"
    using rootLoadedValue_known [of SLoc R "getState C" RS Sym vs] a root val by simp
  have v: "getValue (getState C) Sym \<noteq> None" using val by simp
  show "\<exists>e. checkLocation SLoc True C = Some e \<and>
          (isRooted vs \<and> RootDepth vs \<le> RootedAtDepth RS \<longrightarrow>
             (\<forall>st' \<in> set (transitions e). getValue st' Sym = Some vs)) \<and>
          (\<not> isRooted vs \<or> RootedAtDepth RS < RootDepth vs \<longrightarrow>
             transitions e \<noteq> [] \<and>
             (\<forall>st' \<in> set (transitions e).
                getValue st' Sym = Some (getRooted (Some R) (RootedAtDepth RS))))"
  proof (cases "\<not> isRooted vs \<or> RootedAtDepth RS < RootDepth vs")
    case True
    then have l': "rootLoadedValue SLoc True (getState C) = Some (True, ?new)"
      using l by auto
    have n: "getValue ?new Sym = Some (getRooted (Some R) (RootedAtDepth RS))"
      using val True by (rule getValue_setValue_reroot)
    from checkLocation_transitions [OF v l'] n True show ?thesis by auto
  next
    case False
    then have l': "rootLoadedValue SLoc True (getState C) = Some (False, getState C)"
      using l by auto
    from checkLocation_transitions [OF v l'] val False show ?thesis by auto
  qed
qed

theorem root_not_downgraded_witness:
  "getRootState (getState (exContext (exRootedState 1))) exLocal = Some (getRoot 1) \<and>
   getValue (getState (exContext (exRootedState 1))) (exSym 1) = Some (getRooted None (- 1)) \<and>
   isRooted (getRooted None (- 1)) \<and>
   getAsSymbol (getSValLoc (getState (exContext (exRootedState 1))) (MemRegionVal exLocal)) False
     = Some (exSym 1) \<and>
   transitions (checkBind (MemRegionVal exLocal) (exPtr 1) (exContext (exRootedState 1))) = [] \<and>
   (\<exists>e. checkLocation (MemRegionVal exLocal) True (exContext (exRootedState 1)) = Some e \<and>
        transitions e = []) \<and>
   getRootState (getState (exContext (exRootedState 2))) exLocal = Some (getRoot 1) \<and>
   getValue (getState (exContext (exRootedState 2))) (exSym 2)
     = Some (getRooted (Some exLocal2) 3) \<and>
   getAsSymbol (getSValLoc (getState (exContext (exRootedState 2))) (MemRegionVal exLocal)) False
     = Some (exSym 2) \<and>
   transitions (checkBind (MemRegionVal exLocal) (exPtr 2) (exContext (exRootedState 2)))
     = [setValue (exSym 2) (getRooted (Some exLocal) 1) (exRootedState 2)] \<and>
   (\<exists>e st'. checkLocation (MemRegionVal exLocal) True (exContext (exRootedState 2)) = Some e \<and>
      st' \<in> set (transitions e) \<and>
      getValue st' (exSym 2) = Some (getRooted (Some exLocal) 1))"
proof -
  let ?L = "MemRegionVal exLocal"
  have st: "getState (exContext s) = s" for s by (simp add: ex_defs)
  have r: "getRootState (getState (exContext (exRootedState n))) exLocal = Some (getRoot 1)" for n
    by (simp add: st getRootState_def getRootEntry_def exRootedState_def ex_defs)
  have v1: "getValue (getState (exContext (exRootedState 1))) (exSym 1)
              = Some (getRooted None (- 1))"
    and v2: "getValue (getState (exContext (exRootedState 2))) (exSym 2)
              = Some (getRooted (Some exLocal2) 3)"
    by (simp_all add: st getValue_def exRootedState_def ex_defs)
  have reg: "getAsRegion ?L = Some exLocal \<and>
      exLocal = (if isElementRegion exLocal then StripCasts (getBaseRegion exLocal) else exLocal) \<and>
      getAsSymbol (exPtr n) False = Some (exSym n)" for n
    by (simp add: exLocal_def ex_defs)
  have ld: "getAsRegion ?L = Some exLocal \<and>
      getAsSymbol (getSValLoc (getState (exContext (exRootedState n))) ?L) False
        = Some (exSym n)" for n
    by (simp add: st exRootedState_def ex_defs)
  have k1: "isRooted (getRooted None (- 1)) \<and>
            RootDepth (getRooted None (- 1)) \<le> RootedAtDepth (getRoot 1)"
    by (simp add: vs_defs getRoot_def)
  have k2: "\<not> isRooted (getRooted (Some exLocal2) 3) \<or>
            RootedAtDepth (getRoot 1) < RootDepth (getRooted (Some exLocal2) 3)"
    by (simp add: vs_defs getRoot_def)
  have na: "\<not> (isElementRegion exLocal \<and> \<not> isRootArray (getRoot 1))"
    by (simp add: exLocal_def)
  note t1 = root_not_downgraded [OF r v1, of ?L exLocal "exPtr 1" ?L]
  note t2 = root_not_downgraded [OF r v2, of ?L exLocal "exPtr 2" ?L]
  have b1: "transitions (checkBind ?L (exPtr 1) (exContext (exRootedState 1))) = []"
    using t1 reg [of 1] k1 by blast
  have l1: "\<exists>e. checkLocation ?L True (exContext (exRootedState 1)) = Some e \<and>
      transitions e = []"
    by (simp add: checkLocation_def rootLoadedValue_def rootRegionIfGlobal_def Let_def
        getRootState_def getRootEntry_def getValue_def exRootedState_def exLocal_def ex_defs
        vs_defs getRoot_def noEffects_def)
  have b2: "transitions (checkBind ?L (exPtr 2) (exContext (exRootedState 2)))
     = [setValue (exSym 2) (getRooted (Some exLocal) 1) (exRootedState 2)]"
    using t2 reg [of 2] k2 na by (simp add: st getRoot_def)
  from t2 [THEN conjunct2] ld [of 2] k2 obtain e where
    e: "checkLocation ?L True (exContext (exRootedState 2)) = Some e"
    and ne: "transitions e \<noteq> []"
    and al: "\<forall>st' \<in> set (transitions e). getValue st' (exSym 2) = Some (getRooted (Some exLocal) 1)"
    by (auto simp add: getRoot_def)
  then have l2: "\<exists>e st'. checkLocation ?L True (exContext (exRootedState 2)) = Some e \<and>
      st' \<in> set (transitions e) \<and>
      getValue st' (exSym 2) = Some (getRooted (Some exLocal) 1)"
    by (cases "transitions e") auto
  from r v1 v2 k1 ld b1 l1 b2 l2 show ?thesis by blast
qed

end
